(* ===== verification/GoPrelude.thy ===== *)
theory GoPrelude
  imports Main "HOL-Library.Word"
begin

text \<open>
  The vocabulary shared by every component: Go errors as values with their wrapping
  structure, outcomes of calls that may panic, closing of signal channels, \<open>sync.Once\<close>,
  and the interface of a component that is closed through a \<open>sync.Once\<close>. The generic facts
  on lists, association lists and words that the component proofs use are collected here too.
\<close>

named_theorems go_simps \<open>evaluation rules for the Go run-time vocabulary\<close>

section \<open>Errors\<close>

text \<open>
  The sentinel error values of the package, compared by identity through \<open>errors.Is\<close>.
\<close>

datatype sentinel =
    ErrProcessNotFound
  | ErrChecksumsDoNotMatch
  | ErrSecureConfigNoChecksum
  | ErrSecureConfigNoHash
  | ErrSecureConfigAndReattach
  | ErrGRPCBrokerMuxNotSupported
  | ErrBrokerTimeout
  | ErrPingTimeout

text \<open>
  An error is \<open>errors.New\<close> with its text, a sentinel of this package, a named error of the
  standard library (\<open>io.EOF\<close>, \<open>os.ErrProcessDone\<close>, \<open>net.ErrClosed\<close>, a gRPC status), an error that
  code outside this repository returned, or \<open>fmt.Errorf\<close>, kept as its format and its arguments:
  an argument formatted with the wrapping verb is \<open>FErr\<close>.
\<close>

datatype goerror =
    ErrNew string
  | Sentinel sentinel
  | ErrStd string
  | ErrExt string
  | Errorf string "fmtarg list"
and fmtarg =
    FStr string
  | FInt int
  | FInts "int list"
  | FStrs "string list"
  | FErr goerror

text \<open>\<open>errors.Is\<close>: the error itself or, through the wrapped arguments, one below it.\<close>

fun errors_Is :: "goerror \<Rightarrow> goerror \<Rightarrow> bool" and args_Is :: "fmtarg list \<Rightarrow> goerror \<Rightarrow> bool" where
  "errors_Is (Errorf f as) t \<longleftrightarrow> Errorf f as = t \<or> args_Is as t"
| "errors_Is e t \<longleftrightarrow> e = t"
| "args_Is [] t \<longleftrightarrow> False"
| "args_Is (FErr e # as) t \<longleftrightarrow> errors_Is e t \<or> args_Is as t"
| "args_Is (_ # as) t \<longleftrightarrow> args_Is as t"

type_synonym 'a res = "goerror + 'a"

abbreviation io_EOF :: goerror where "io_EOF \<equiv> ErrStd ''EOF''"

abbreviation os_ErrProcessDone :: goerror where "os_ErrProcessDone \<equiv> ErrStd ''os: process already finished''"

abbreviation net_ErrClosed :: goerror where "net_ErrClosed \<equiv> ErrStd ''use of closed network connection''"

lemma errors_Is_refl [simp]: "errors_Is e e"
  by (cases e) auto

section \<open>Panics, signal channels and sync.Once\<close>

datatype 'a outcome = Ret 'a | Panic string

definition bind_out :: "'a outcome \<Rightarrow> ('a \<Rightarrow> 'b outcome) \<Rightarrow> 'b outcome" where
  "bind_out r f = (case r of Ret x \<Rightarrow> f x | Panic m \<Rightarrow> Panic m)"

lemma bind_out_simps [simp]:
  "bind_out (Ret x) f = f x"
  "bind_out (Panic m) f = Panic m"
  by (simp_all add: bind_out_def)

text \<open>
  A channel of type \<open>chan struct\<close> that is only ever closed is the flag whether it is closed.
  Closing it twice panics.
\<close>

definition close_chan :: "bool \<Rightarrow> bool outcome" where
  "close_chan closed = (if closed then Panic ''close of closed channel'' else Ret True)"

text \<open>\<open>sync.Once\<close>: the flag whether \<open>Do\<close> has run, and \<open>Do\<close> on a state.\<close>

definition once_Do :: "bool \<Rightarrow> ('s \<Rightarrow> 's outcome) \<Rightarrow> 's \<Rightarrow> (bool \<times> 's) outcome" where
  "once_Do done f s = (if done then Ret (True, s) else bind_out (f s) (\<lambda>s'. Ret (True, s')))"

lemma close_chan_simps [go_simps]:
  "close_chan False = Ret True"
  "close_chan True = Panic ''close of closed channel''"
  by (simp_all add: close_chan_def)

lemma once_Do_simps [go_simps]:
  "once_Do True f s = Ret (True, s)"
  "once_Do False f s = bind_out (f s) (\<lambda>s'. Ret (True, s'))"
  by (simp_all add: once_Do_def)

primrec iterate_out :: "nat \<Rightarrow> ('s \<Rightarrow> 's outcome) \<Rightarrow> 's \<Rightarrow> 's outcome" where
  "iterate_out 0 f s = Ret s"
| "iterate_out (Suc n) f s = bind_out (f s) (iterate_out n f)"

text \<open>
  What several components promise of their \<open>Close\<close>: it never panics, afterwards the component
  is closed, and on a closed component it changes nothing.
\<close>

locale once_closer =
  fixes close_op :: "'s \<Rightarrow> 's outcome"
    and is_closed :: "'s \<Rightarrow> bool"
    and cl_inv :: "'s \<Rightarrow> bool"
  assumes close_total: "cl_inv s \<Longrightarrow> \<exists>s'. close_op s = Ret s' \<and> cl_inv s' \<and> is_closed s'"
    and close_closed: "cl_inv s \<Longrightarrow> is_closed s \<Longrightarrow> close_op s = Ret s"
begin

lemma close_twice: "cl_inv s \<Longrightarrow> close_op s = Ret s' \<Longrightarrow> close_op s' = Ret s'"
  using close_total [of s] close_closed by auto

lemma close_many_closed: "cl_inv s \<Longrightarrow> is_closed s \<Longrightarrow> iterate_out n close_op s = Ret s"
  by (induction n) (simp_all add: close_closed)

lemma close_many:
  assumes "cl_inv s"
  shows "\<exists>s'. (\<forall>n. iterate_out (Suc n) close_op s = Ret s') \<and> cl_inv s' \<and> is_closed s'"
proof -
  from close_total [OF assms] obtain s'
    where s': "close_op s = Ret s'" "cl_inv s'" "is_closed s'" by blast
  then have "iterate_out (Suc n) close_op s = Ret s'" for n
    by (simp add: close_many_closed)
  with s' show ?thesis by blast
qed

end

section \<open>Go maps and slices\<close>

text \<open>
  A Go map that the code iterates over is an association list with distinct keys: its order is
  the order of one iteration, which Go leaves open. \<open>amap_put\<close> is an assignment to a key.
\<close>

type_synonym ('k, 'v) amap = "('k \<times> 'v) list"

fun amap_put :: "'k \<Rightarrow> 'v \<Rightarrow> ('k, 'v) amap \<Rightarrow> ('k, 'v) amap" where
  "amap_put k v [] = [(k, v)]"
| "amap_put k v ((k', v') # m) = (if k' = k then (k, v) # m else (k', v') # amap_put k v m)"

definition amap_ok :: "('k, 'v) amap \<Rightarrow> bool" where
  "amap_ok m \<longleftrightarrow> distinct (map fst m)"

lemma map_of_amap_put [simp]: "map_of (amap_put k v m) = (map_of m)(k \<mapsto> v)"
  by (induction m) auto

lemma keys_amap_put [simp]: "fst ` set (amap_put k v m) = insert k (fst ` set m)"
  by (induction k v m rule: amap_put.induct) auto

lemma amap_ok_put: "amap_ok m \<Longrightarrow> amap_ok (amap_put k v m)"
proof (induction m)
  case Nil
  then show ?case by (simp add: amap_ok_def)
next
  case (Cons a m)
  obtain k' v' where a: "a = (k', v')" by fastforce
  have "k' \<notin> fst ` set (amap_put k v m)" if "k' \<noteq> k"
    using Cons.prems that by (auto simp: amap_ok_def a)
  with Cons show ?case by (auto simp: amap_ok_def a)
qed

text \<open>What iteration order cannot change: lookups and the set of keys.\<close>

lemma map_of_iteration_order:
  "amap_ok m \<Longrightarrow> amap_ok m' \<Longrightarrow> set m = set m' \<Longrightarrow> map_of m = map_of m'"
  unfolding amap_ok_def by (rule map_of_inject_set [THEN iffD2])

lemma sorted_keys_iteration_order:
  fixes m m' :: "('k::linorder, 'v) amap"
  assumes "amap_ok m" "amap_ok m'" "set m = set m'"
  shows "sort (map fst m) = sort (map fst m')"
proof (rule map_sorted_distinct_set_unique [where f = id])
  show "distinct (map id (sort (map fst m)))" "distinct (map id (sort (map fst m')))"
    using assms by (simp_all add: amap_ok_def)
  show "set (sort (map fst m)) = set (sort (map fst m'))"
    using assms(3) by simp
qed auto

lemma sort_eq_Nil [simp]: "sort xs = [] \<longleftrightarrow> xs = []"
  by (metis length_0_conv length_sort)

lemma remove1_distinct_set: "distinct xs \<Longrightarrow> set (remove1 x xs) = set xs - {x}"
  by (rule set_remove1_eq)

end
