(* ===== verification/GoStrings.thy ===== *)
theory GoStrings
  imports GoPrelude
begin

text \<open>
  The parts of the Go packages \<open>strings\<close>, \<open>strconv\<close> and \<open>bufio\<close> that the repository uses, on
  strings as lists of bytes: splitting and joining, trimming white space, decimal conversion in
  both directions with the range check of a 64-bit (or 32-bit) integer, the accepted spellings
  of a boolean, and reading the first line of a stream. The round trips between the printing and
  the parsing half are the facts the handshake rests on.
\<close>

section \<open>strings\<close>

text \<open>\<open>strings.Split\<close> with a separator of one byte.\<close>

fun split_on :: "char \<Rightarrow> string \<Rightarrow> string list" where
  "split_on c [] = [[]]"
| "split_on c (x # xs) =
     (if x = c then [] # split_on c xs
      else (case split_on c xs of [] \<Rightarrow> [[x]] | w # ws \<Rightarrow> (x # w) # ws))"

text \<open>\<open>strings.Join\<close>.\<close>

fun join_with :: "string \<Rightarrow> string list \<Rightarrow> string" where
  "join_with sep [] = []"
| "join_with sep [w] = w"
| "join_with sep (w # v # ws) = w @ sep @ join_with sep (v # ws)"

definition HasPrefix :: "string \<Rightarrow> string \<Rightarrow> bool" where
  "HasPrefix s p \<longleftrightarrow> take (length p) s = p"

text \<open>
  \<open>strings.TrimSpace\<close>: the UTF-8 encodings of the code points with the property White Space, each
  removed at both ends as often as it stands there.
\<close>

definition byte_char :: "nat \<Rightarrow> char" where
  "byte_char n = char_of n"

definition space_runes :: "string list" where
  "space_runes =
     map (map byte_char)
       ([[9], [10], [11], [12], [13], [32], [194, 133], [194, 160], [225, 154, 128]]
        @ map (\<lambda>i. [226, 128, 128 + i]) [0..<11]
        @ [[226, 128, 168], [226, 128, 169], [226, 128, 175], [226, 129, 159], [227, 128, 128]])"

definition space_prefix :: "string list \<Rightarrow> string \<Rightarrow> nat" where
  "space_prefix runes s = (case filter (\<lambda>r. HasPrefix s r) runes of [] \<Rightarrow> 0 | r # _ \<Rightarrow> length r)"

function trim_left :: "string list \<Rightarrow> string \<Rightarrow> string" where
  "trim_left runes s =
     (let n = space_prefix runes s in if n = 0 \<or> s = [] then s else trim_left runes (drop n s))"
  by pat_completeness auto
termination
  by (relation "measure (\<lambda>(runes, s). length s)") auto

declare trim_left.simps [simp del]

definition TrimSpace :: "string \<Rightarrow> string" where
  "TrimSpace s = rev (trim_left (map rev space_runes) (rev (trim_left space_runes s)))"

text \<open>
  The first token of a \<open>bufio.Scanner\<close> that splits lines: the bytes before the first newline,
  less one carriage return at their end; \<open>None\<close> at the end of an empty stream.
\<close>

definition drop_cr :: "string \<Rightarrow> string" where
  "drop_cr l = (if l \<noteq> [] \<and> last l = byte_char 13 then butlast l else l)"

definition scan_line :: "string \<Rightarrow> string option" where
  "scan_line s =
     (if s = [] then None else Some (drop_cr (takeWhile (\<lambda>c. c \<noteq> byte_char 10) s)))"

section \<open>strconv\<close>

definition digit_char :: "nat \<Rightarrow> char" where
  "digit_char d = char_of (48 + d)"

definition is_digit_char :: "char \<Rightarrow> bool" where
  "is_digit_char c \<longleftrightarrow> 48 \<le> (of_char c :: nat) \<and> (of_char c :: nat) \<le> 57"

definition digit_val :: "char \<Rightarrow> nat" where
  "digit_val c = of_char c - 48"

fun show_nat :: "nat \<Rightarrow> string" where
  "show_nat n = (if n < 10 then [digit_char n] else show_nat (n div 10) @ [digit_char (n mod 10)])"

declare show_nat.simps [simp del]

text \<open>\<open>strconv.Itoa\<close> and the verb for a decimal integer.\<close>

definition Itoa :: "int \<Rightarrow> string" where
  "Itoa i = (if i < 0 then CHR ''-'' # show_nat (nat (- i)) else show_nat (nat i))"

datatype num_error = ErrSyntax | ErrRange

text \<open>The digit loop of \<open>strconv.ParseUint\<close> in base ten.\<close>

fun ParseUint_loop :: "nat \<Rightarrow> nat \<Rightarrow> string \<Rightarrow> num_error + nat" where
  "ParseUint_loop maxVal n [] = Inr n"
| "ParseUint_loop maxVal n (c # cs) =
     (if \<not> is_digit_char c then Inl ErrSyntax
      else if maxVal < 10 * n + digit_val c then Inl ErrRange
      else ParseUint_loop maxVal (10 * n + digit_val c) cs)"

definition ParseUint :: "nat \<Rightarrow> string \<Rightarrow> num_error + nat" where
  "ParseUint bitSize s = (if s = [] then Inl ErrSyntax else ParseUint_loop (2 ^ bitSize - 1) 0 s)"

text \<open>\<open>strconv.ParseInt\<close> in base ten, and \<open>strconv.Atoi\<close> on a machine with 64-bit integers.\<close>

definition ParseInt :: "nat \<Rightarrow> string \<Rightarrow> num_error + int" where
  "ParseInt bitSize s =
     (if s = [] then Inl ErrSyntax
      else let neg = (hd s = CHR ''-'');
               ds = (if hd s = CHR ''+'' \<or> hd s = CHR ''-'' then tl s else s)
           in case ParseUint bitSize ds of
                Inl e \<Rightarrow> Inl e
              | Inr un \<Rightarrow>
                  (if \<not> neg \<and> 2 ^ (bitSize - 1) \<le> un then Inl ErrRange
                   else if neg \<and> 2 ^ (bitSize - 1) < un then Inl ErrRange
                   else Inr (if neg then - int un else int un)))"

definition Atoi :: "string \<Rightarrow> num_error + int" where
  "Atoi s = ParseInt 64 s"

definition is_int64 :: "int \<Rightarrow> bool" where
  "is_int64 i \<longleftrightarrow> - (2 ^ 63) \<le> i \<and> i < 2 ^ 63"

definition ParseBool :: "string \<Rightarrow> num_error + bool" where
  "ParseBool s =
     (if s \<in> set [''1'', ''t'', ''T'', ''true'', ''TRUE'', ''True''] then Inr True
      else if s \<in> set [''0'', ''f'', ''F'', ''false'', ''FALSE'', ''False''] then Inr False
      else Inl ErrSyntax)"

section \<open>Facts on splitting and joining\<close>

lemma split_on_nonempty [simp]: "split_on c s \<noteq> []"
  by (induction s) (auto split: list.splits)

lemma split_on_no_sep: "c \<notin> set s \<Longrightarrow> split_on c s = [s]"
  by (induction s) auto

lemma split_on_append_sep: "c \<notin> set w \<Longrightarrow> split_on c (w @ c # s) = w # split_on c s"
  by (induction w) auto

lemma split_join:
  assumes "ws \<noteq> []" and "\<forall>w \<in> set ws. c \<notin> set w"
  shows "split_on c (join_with [c] ws) = ws"
  using assms
proof (induction "[c]" ws rule: join_with.induct)
  case (3 w v ws)
  then show ?case by (simp add: split_on_append_sep)
qed (auto simp: split_on_no_sep)

lemma join_split: "join_with [c] (split_on c s) = s"
proof (induction s)
  case (Cons x xs)
  show ?case
  proof (cases "([c], split_on c xs)" rule: join_with.cases)
    case (1 sep)
    then show ?thesis by simp
  next
    case (2 sep w)
    with Cons show ?thesis by simp
  next
    case (3 sep w v ws)
    with Cons show ?thesis by simp
  qed
qed simp

lemma join_with_Cons_nonempty: "w \<noteq> [] \<Longrightarrow> join_with sep (w # ws) \<noteq> []"
  by (cases ws) auto

lemma split_on_pieces: "w \<in> set (split_on c s) \<Longrightarrow> c \<notin> set w"
proof (induction s arbitrary: w)
  case (Cons x xs)
  then show ?case by (cases "split_on c xs") (auto split: if_splits)
qed simp

section \<open>Facts on decimal conversion\<close>

lemma digit_char_facts [simp]:
  assumes "d < 10"
  shows "is_digit_char (digit_char d)" and "digit_val (digit_char d) = d"
  using assms by (simp_all add: is_digit_char_def digit_val_def digit_char_def)

lemma show_nat_nonempty [simp]: "show_nat n \<noteq> []"
  by (subst show_nat.simps) simp

lemma show_nat_digits: "c \<in> set (show_nat n) \<Longrightarrow> is_digit_char c"
proof (induction n rule: show_nat.induct)
  case (1 n)
  then show ?case
    by (subst (asm) show_nat.simps) (auto split: if_splits)
qed

lemma ParseUint_loop_append:
  "ParseUint_loop mx n (s @ t) =
     (case ParseUint_loop mx n s of Inl e \<Rightarrow> Inl e | Inr m \<Rightarrow> ParseUint_loop mx m t)"
  by (induction s arbitrary: n) auto

lemma ParseUint_loop_show: "n \<le> mx \<Longrightarrow> ParseUint_loop mx 0 (show_nat n) = Inr n"
proof (induction n rule: show_nat.induct)
  case (1 n)
  show ?case
  proof (cases "n < 10")
    case True
    with 1 show ?thesis by (subst show_nat.simps) simp
  next
    case False
    then have "ParseUint_loop mx 0 (show_nat (n div 10)) = Inr (n div 10)"
      using 1 by simp
    moreover have "10 * (n div 10) + n mod 10 = n" by simp
    ultimately show ?thesis
      using False 1(2) by (subst show_nat.simps) (simp add: ParseUint_loop_append del: mult_div_mod_eq)
  qed
qed

lemma ParseUint_show: "n < 2 ^ b \<Longrightarrow> ParseUint b (show_nat n) = Inr n"
  by (simp add: ParseUint_def ParseUint_loop_show)

lemma hd_show_nat: "hd (show_nat n) \<noteq> CHR ''+''" "hd (show_nat n) \<noteq> CHR ''-''"
  using show_nat_digits [of "hd (show_nat n)" n] by (auto simp: is_digit_char_def)

lemma Atoi_Itoa: "is_int64 i \<Longrightarrow> Atoi (Itoa i) = Inr i"
proof (cases "i < 0")
  case True
  moreover assume "is_int64 i"
  ultimately have "nat (- i) \<le> 2 ^ 63" by (simp add: is_int64_def)
  with True show ?thesis
    by (simp add: Atoi_def ParseInt_def Itoa_def ParseUint_show)
next
  case False
  moreover assume "is_int64 i"
  ultimately have "nat i < 2 ^ 63" by (simp add: is_int64_def)
  with False show ?thesis
    by (simp add: Atoi_def ParseInt_def Itoa_def ParseUint_show hd_show_nat)
qed

lemma Itoa_nonempty [simp]: "Itoa i \<noteq> []"
  by (simp add: Itoa_def)

lemma Itoa_chars: "c \<in> set (Itoa i) \<Longrightarrow> c = CHR ''-'' \<or> is_digit_char c"
  by (auto simp: Itoa_def dest: show_nat_digits split: if_splits)

lemma Itoa_no_sep [simp]: "CHR ''|'' \<notin> set (Itoa i)" "CHR '','' \<notin> set (Itoa i)"
  using Itoa_chars [of "CHR ''|''" i] Itoa_chars [of "CHR '',''" i]
  by (auto simp: is_digit_char_def)

lemma int_power_bounds:
  "un \<le> 2 ^ k \<Longrightarrow> int un \<le> 2 ^ k"
  "un < 2 ^ k \<Longrightarrow> int un < 2 ^ k"
  using of_nat_le_iff [of un "2 ^ k", where 'a = int] of_nat_less_iff [of un "2 ^ k", where 'a = int]
  by simp_all

lemma neg_le_power: "- (2 ^ k) \<le> int un"
  by (rule order_trans [of _ 0]) auto

lemma neg_less_power: "- int un < 2 ^ k"
  by (rule le_less_trans [of _ 0]) auto

lemma ParseInt_bounds:
  assumes "ParseInt b s = Inr i"
  shows "- (2 ^ (b - 1)) \<le> i \<and> i < 2 ^ (b - 1)"
  using assms
  by (auto simp: ParseInt_def Let_def not_le not_less neg_le_power neg_less_power int_power_bounds
      split: if_splits sum.splits)

lemma Atoi_int64: "Atoi s = Inr i \<Longrightarrow> is_int64 i"
  using ParseInt_bounds [of 64 s i] by (simp add: Atoi_def is_int64_def)

section \<open>Facts on trimming and scanning\<close>

lemma trim_left_no_space: "space_prefix runes s = 0 \<Longrightarrow> trim_left runes s = s"
  by (subst trim_left.simps) simp

lemma TrimSpace_id:
  assumes "space_prefix space_runes s = 0" and "space_prefix (map rev space_runes) (rev s) = 0"
  shows "TrimSpace s = s"
  by (simp add: TrimSpace_def trim_left_no_space assms)

lemma scan_line_newline:
  assumes "byte_char 10 \<notin> set l" and "l = [] \<or> last l \<noteq> byte_char 13"
  shows "scan_line (l @ byte_char 10 # rest) = Some l"
proof -
  have "takeWhile (\<lambda>c. c \<noteq> byte_char 10) (l @ byte_char 10 # rest) = l"
    using assms(1) by (subst takeWhile_append2) auto
  with assms(2) show ?thesis by (auto simp: scan_line_def drop_cr_def)
qed

text \<open>Trimming leaves a string alone that begins and ends with printable ASCII.\<close>

definition printable :: "char \<Rightarrow> bool" where
  "printable c \<longleftrightarrow> 33 \<le> (of_char c :: nat) \<and> (of_char c :: nat) \<le> 126"

lemma space_runes_unprintable:
  "\<forall>r \<in> set space_runes. r \<noteq> [] \<and> \<not> printable (hd r) \<and> \<not> printable (last r)"
  by code_simp

lemma space_prefix_printable:
  assumes "\<forall>r \<in> set runes. r \<noteq> [] \<and> \<not> printable (hd r)" and "s = [] \<or> printable (hd s)"
  shows "space_prefix runes s = 0"
proof -
  have "\<not> HasPrefix s r" if "r \<in> set runes" for r
    using assms that by (cases r; cases s) (auto simp: HasPrefix_def)
  then have "filter (\<lambda>r. HasPrefix s r) runes = []" by (simp add: filter_empty_conv)
  then show ?thesis by (simp add: space_prefix_def)
qed

lemma TrimSpace_printable:
  assumes "s = [] \<or> printable (hd s) \<and> printable (last s)"
  shows "TrimSpace s = s"
proof (rule TrimSpace_id)
  show "space_prefix space_runes s = 0"
    using space_runes_unprintable assms by (intro space_prefix_printable) auto
  show "space_prefix (map rev space_runes) (rev s) = 0"
    using space_runes_unprintable assms by (intro space_prefix_printable) (auto simp: hd_rev)
qed

end
