(* ===== verification/Config.thy ===== *)
theory Config
  imports GoStrings
begin

text \<open>
  The configuration data of the host and of the plugin: protocol names and environment variable
  names, plugins and plugin sets, TLS settings, addresses, commands, the runner interface as the
  client sees it, and the records \<open>client_config\<close> (\<open>client.go\<close>) and \<open>serve_config\<close> (\<open>server.go\<close>).
  A pointer or an interface that may be nil is an option; a map that may be nil is an option of
  an association list.
\<close>

section \<open>Protocols and constants\<close>

type_synonym protocol = string

definition ProtocolInvalid :: protocol where "ProtocolInvalid = []"

definition ProtocolNetRPC :: protocol where "ProtocolNetRPC = ''netrpc''"

definition ProtocolGRPC :: protocol where "ProtocolGRPC = ''grpc''"

definition EnvUnixSocketDir :: string where "EnvUnixSocketDir = ''PLUGIN_UNIX_SOCKET_DIR''"

definition EnvUnixSocketGroup :: string where "EnvUnixSocketGroup = ''PLUGIN_UNIX_SOCKET_GROUP''"

definition envMultiplexGRPC :: string where "envMultiplexGRPC = ''PLUGIN_MULTIPLEX_GRPC''"

definition CoreProtocolVersion :: int where "CoreProtocolVersion = 1"

text \<open>A \<open>time.Duration\<close> is its number of nanoseconds.\<close>

type_synonym duration = int

definition second :: duration where "second = 1000000000"

definition BrokerTimeout :: duration where "BrokerTimeout = 5 * second"

definition defaultShutdownTimeout :: duration where "defaultShutdownTimeout = 2 * second"

definition defaultPingTimeout :: duration where "defaultPingTimeout = 10 * second"

definition defaultPluginLogBufferSize :: int where "defaultPluginLogBufferSize = 64 * 1024"

section \<open>Plugins\<close>

text \<open>
  A value of the interface \<open>Plugin\<close> is the user's implementation, here a number that names it,
  and whether it also implements \<open>GRPCPlugin\<close>, which is all that the library inspects.
\<close>

record plugin =
  plugin_impl :: nat
  is_GRPCPlugin :: bool

type_synonym plugin_set = "(string, plugin) amap"

type_synonym versioned_plugins = "(int, plugin_set option) amap"

record handshake_config =
  ProtocolVersion :: "64 word"
  MagicCookieKey :: string
  MagicCookieValue :: string

section \<open>TLS, addresses, sockets and commands\<close>

record tls_config =
  Certificates :: "string list"
  RequireAndVerifyClientCert :: bool
  MinVersionTLS12 :: bool
  ServerName :: string
  RootCAs :: "string list option"
  ClientCAs :: "string list option"

record net_addr =
  addr_Network :: string
  addr_String :: string

record unix_socket_config =
  us_Group :: string
  us_TempDir :: string
  us_socketDir :: string

record sys_proc_attr =
  Setsid :: bool
  Setpgid :: bool

record exec_cmd =
  cmd_Path :: string
  cmd_Env :: "string list"
  cmd_Stdin :: bool
  cmd_SysProcAttr :: "sys_proc_attr option"
  cmd_Process :: "int option"

datatype writer = Discard | Writer nat

section \<open>Runners as the client sees them\<close>

text \<open>
  The interface \<open>runner.AttachedRunner\<close>: the identifier, the address translation in both
  directions and the results of \<open>Wait\<close> and \<open>Kill\<close>. The interface \<open>runner.Runner\<close> adds the start
  of the process, which gives an error or the runner of the running process, its name and the
  diagnosis. An implementation is a value of the record.
\<close>

type_synonym addr_translation = "string \<Rightarrow> string \<Rightarrow> (string \<times> string) res"

record attached_runner =
  runner_ID :: string
  PluginToHost :: addr_translation
  HostToPlugin :: addr_translation
  runner_Wait :: "goerror option"
  runner_Kill :: "goerror option"

record runner =
  attached :: attached_runner
  runner_Start :: "attached_runner res"
  runner_Name :: string
  runner_Diagnose :: string

section \<open>Host configuration\<close>

text \<open>A \<open>runner.ReattachFunc\<close> that is not nil is the result of calling it.\<close>

record reattach_config =
  ra_Protocol :: protocol
  ra_ProtocolVersion :: int
  ra_Addr :: "net_addr option"
  ra_Pid :: int
  ra_ReattachFunc :: "attached_runner res option"
  ra_Test :: bool

text \<open>
  A \<open>hash.Hash\<close> is the function from everything written to it to its sum, and what has been
  written so far.
\<close>

record hash_state =
  hash_fun :: "string \<Rightarrow> string"
  hash_written :: string

record secure_config =
  Checksum :: string
  Hash :: "hash_state option"

record client_config =
  cc_Handshake :: handshake_config
  cc_Plugins :: "plugin_set option"
  cc_VersionedPlugins :: "versioned_plugins option"
  cc_Cmd :: "exec_cmd option"
  cc_Reattach :: "reattach_config option"
  cc_RunnerFunc :: "(exec_cmd \<Rightarrow> string \<Rightarrow> runner res) option"
  cc_SecureConfig :: "secure_config option"
  cc_TLSConfig :: "tls_config option"
  cc_Managed :: bool
  cc_MinPort :: "64 word"
  cc_MaxPort :: "64 word"
  cc_StartTimeout :: duration
  cc_Stderr :: "writer option"
  cc_SyncStdout :: "writer option"
  cc_SyncStderr :: "writer option"
  cc_AllowedProtocols :: "protocol list option"
  cc_Logger :: "nat option"
  cc_PluginLogBufferSize :: int
  cc_AutoMTLS :: bool
  cc_GRPCDialOptions :: "nat list"
  cc_GRPCBrokerMultiplex :: bool
  cc_SkipHostEnv :: bool
  cc_UnixSocketConfig :: "unix_socket_config option"
  cc_PingTimeout :: duration
  cc_ShutdownTimeout :: duration
  cc_DisableProcessGroupKill :: bool

section \<open>Plugin configuration\<close>

record serve_test_config =
  test_Context :: bool
  test_ReattachConfigCh :: bool
  test_CloseCh :: bool
  test_SyncStdio :: bool

text \<open>A \<open>TLSProvider\<close> that is not nil is the result of calling it.\<close>

record serve_config =
  sc_Handshake :: handshake_config
  sc_TLSProvider :: "tls_config option res option"
  sc_Plugins :: "plugin_set option"
  sc_VersionedPlugins :: "versioned_plugins option"
  sc_GRPCServer :: bool
  sc_Logger :: "nat option"
  sc_Test :: "serve_test_config option"

text \<open>
  The environment of a process. \<open>os.Getenv\<close> is the empty string for a variable that is not set.
\<close>

type_synonym env = "string \<Rightarrow> string"

text \<open>
  The environment a child process reads when it is started with the list \<open>Env\<close> of a command:
  the package \<open>os/exec\<close> keeps the last of several entries for one name.
\<close>

fun entry_value :: "string \<Rightarrow> string \<Rightarrow> string option" where
  "entry_value k e = (if HasPrefix e (k @ ''='') then Some (drop (length k + 1) e) else None)"

fun env_of :: "string list \<Rightarrow> env" where
  "env_of [] k = []"
| "env_of (e # es) k =
     (if \<exists>e' \<in> set es. entry_value k e' \<noteq> None then env_of es k
      else case entry_value k e of Some v \<Rightarrow> v | None \<Rightarrow> [])"

definition unixSocketConfigFromEnv :: "env \<Rightarrow> unix_socket_config" where
  "unixSocketConfigFromEnv E =
     \<lparr>us_Group = E EnvUnixSocketGroup, us_TempDir = [], us_socketDir = E EnvUnixSocketDir\<rparr>"

section \<open>Facts\<close>

lemmas protocol_defs = ProtocolInvalid_def ProtocolNetRPC_def ProtocolGRPC_def

lemma HasPrefix_append [simp]: "HasPrefix (p @ s) p"
  by (simp add: HasPrefix_def)

lemma entry_value_own [simp]: "entry_value k (k @ CHR ''='' # v) = Some v"
  by (simp add: HasPrefix_def)

lemma HasPrefix_Cons [simp]: "HasPrefix (x # xs) (y # ys) \<longleftrightarrow> x = y \<and> HasPrefix xs ys"
  by (auto simp: HasPrefix_def)

lemma HasPrefix_Nil [simp]: "HasPrefix s []" "HasPrefix [] (y # ys) \<longleftrightarrow> False"
  by (simp_all add: HasPrefix_def)

lemma HasPrefix_key:
  "CHR ''='' \<notin> set k \<Longrightarrow> CHR ''='' \<notin> set k' \<Longrightarrow> HasPrefix (k' @ CHR ''='' # v) (k @ ''='') \<Longrightarrow> k' = k"
proof (induction k arbitrary: k')
  case Nil
  then show ?case by (cases k') auto
next
  case (Cons x k)
  then show ?case by (cases k') auto
qed

lemma entry_value_other:
  "CHR ''='' \<notin> set k \<Longrightarrow> CHR ''='' \<notin> set k' \<Longrightarrow> k \<noteq> k' \<Longrightarrow>
     entry_value k (k' @ CHR ''='' # v) = None"
  by (auto dest: HasPrefix_key)

declare entry_value.simps [simp del]

lemma env_of_unset: "\<forall>f \<in> set fs. entry_value k f = None \<Longrightarrow> env_of fs k = []"
  by (induction fs) auto

lemma env_of_append:
  "env_of (es @ fs) k =
     (if \<exists>f \<in> set fs. entry_value k f \<noteq> None then env_of fs k else env_of es k)"
  by (induction es) (auto simp: bex_Un env_of_unset)

lemma env_of_last:
  "\<forall>f \<in> set fs. entry_value k f = None \<Longrightarrow> env_of (es @ (k @ CHR ''='' # v) # fs) k = v"
  by (auto simp: env_of_append env_of_unset)

end
