(* ===== verification/Negotiation.thy ===== *)
theory Negotiation
  imports Config
begin

text \<open>
  Version negotiation. The plugin side is \<open>protocolVersion\<close> (\<open>server.go\<close>): it reads the versions
  the host offers from the environment and chooses a version, a transport and a plugin set. The
  host side is the preparation of the offered versions in \<open>Client.Start\<close> and
  \<open>Client.checkProtoVersion\<close> (\<open>client.go\<close>). The specification of the choice is
  \<open>negotiated_version\<close>, on sets of versions; the lemmas show that the code implements it whatever
  the iteration order of the maps.
\<close>

section \<open>The plugin side\<close>

text \<open>The integers among the offered strings; an invalid one is reported and skipped.\<close>

fun parse_versions :: "string list \<Rightarrow> int list" where
  "parse_versions [] = []"
| "parse_versions (s # ss) =
     (case Atoi s of Inl _ \<Rightarrow> parse_versions ss | Inr v \<Rightarrow> v # parse_versions ss)"

definition clientVersionsFromEnv :: "env \<Rightarrow> int list" where
  "clientVersionsFromEnv E =
     (let vs = E ''PLUGIN_PROTOCOL_VERSIONS''
      in if vs = [] then [] else parse_versions (split_on (CHR '','') vs))"

text \<open>
  The transport of a plugin set is that of the first plugin of one iteration over it; the loop
  body leaves the transport as it was when there is no gRPC server or the set is empty.
\<close>

definition set_protocol :: "bool \<Rightarrow> plugin_set option \<Rightarrow> protocol \<Rightarrow> protocol" where
  "set_protocol grpcServer pluginSet protoType =
     (if grpcServer
      then (case pluginSet of
              Some ((_, p) # _) \<Rightarrow> (if is_GRPCPlugin p then ProtocolGRPC else ProtocolNetRPC)
            | _ \<Rightarrow> protoType)
      else protoType)"

definition amap_get :: "versioned_plugins \<Rightarrow> int \<Rightarrow> plugin_set option" where
  "amap_get m v = (case map_of m v of None \<Rightarrow> None | Some ps \<Rightarrow> ps)"

fun version_loop ::
  "bool \<Rightarrow> int list \<Rightarrow> versioned_plugins \<Rightarrow> int list \<Rightarrow> int \<times> protocol \<times> plugin_set option
   \<Rightarrow> int \<times> protocol \<times> plugin_set option" where
  "version_loop grpcServer clientVersions vps [] acc = acc"
| "version_loop grpcServer clientVersions vps (version # versions) (_, protoType, _) =
     (let pluginSet = amap_get vps version;
          protoType' = set_protocol grpcServer pluginSet protoType
      in if version \<in> set clientVersions then (version, protoType', pluginSet)
         else version_loop grpcServer clientVersions vps versions (version, protoType', pluginSet))"

text \<open>The versions the plugin serves, the unversioned plugins under the handshake's version.\<close>

definition served_plugins :: "serve_config \<Rightarrow> versioned_plugins" where
  "served_plugins opts =
     (let vps = (case sc_VersionedPlugins opts of None \<Rightarrow> [] | Some m \<Rightarrow> m)
      in case sc_Plugins opts of
           None \<Rightarrow> vps
         | Some ps \<Rightarrow> amap_put (sint (ProtocolVersion (sc_Handshake opts))) (Some ps) vps)"

text \<open>
  \<open>protocolVersion\<close>: the version, the transport and the plugin set, and the configuration with
  its versions filled in.
\<close>

definition protocolVersion ::
  "env \<Rightarrow> serve_config \<Rightarrow> (int \<times> protocol \<times> plugin_set option) \<times> serve_config" where
  "protocolVersion E opts =
     (let protoVersion = sint (ProtocolVersion (sc_Handshake opts));
          clientVersions = rev (sort (clientVersionsFromEnv E));
          vps = served_plugins opts;
          versions = rev (sort (map fst vps))
      in (version_loop (sc_GRPCServer opts) clientVersions vps versions
            (protoVersion, ProtocolNetRPC, sc_Plugins opts),
          opts\<lparr>sc_VersionedPlugins := Some vps\<rparr>))"

section \<open>The host side\<close>

text \<open>
  \<open>Client.Start\<close> treats the unversioned plugins as the version of the handshake, unless that
  version is already registered.
\<close>

definition default_version :: "int \<Rightarrow> client_config \<Rightarrow> client_config" where
  "default_version version cfg =
     (let vps = (case cc_VersionedPlugins cfg of None \<Rightarrow> [] | Some m \<Rightarrow> m);
          vps' = (if map_of vps version = None \<and> cc_Plugins cfg \<noteq> None
                  then amap_put version (cc_Plugins cfg) vps else vps)
      in cfg\<lparr>cc_VersionedPlugins := Some vps'\<rparr>)"

definition register_versions :: "client_config \<Rightarrow> client_config" where
  "register_versions cfg = default_version (sint (ProtocolVersion (cc_Handshake cfg))) cfg"

definition host_plugins :: "client_config \<Rightarrow> versioned_plugins" where
  "host_plugins cfg = (case cc_VersionedPlugins cfg of None \<Rightarrow> [] | Some m \<Rightarrow> m)"

definition versionStrings :: "client_config \<Rightarrow> string list" where
  "versionStrings cfg = map (\<lambda>(v, _). Itoa v) (host_plugins cfg)"

definition num_err :: "num_error \<Rightarrow> goerror" where
  "num_err e = (case e of ErrSyntax \<Rightarrow> ErrStd ''invalid syntax'' | ErrRange \<Rightarrow> ErrStd ''value out of range'')"

fun checkProtoVersion_loop ::
  "int \<Rightarrow> int list \<Rightarrow> versioned_plugins \<Rightarrow> (int \<times> plugin_set option) res" where
  "checkProtoVersion_loop serverVersion clientVersions [] =
     Inl (Errorf ''incompatible API version with plugin. Plugin version: %d, Client versions: %v''
            [FInt serverVersion, FInts clientVersions])"
| "checkProtoVersion_loop serverVersion clientVersions ((version, plugins) # m) =
     (if serverVersion \<noteq> version
      then checkProtoVersion_loop serverVersion (clientVersions @ [version]) m
      else Inr (version, plugins))"

definition checkProtoVersion :: "client_config \<Rightarrow> string \<Rightarrow> (int \<times> plugin_set option) res" where
  "checkProtoVersion cfg protoVersion =
     (case Atoi protoVersion of
        Inl e \<Rightarrow> Inl (Errorf ''error parsing protocol version %q: %w'' [FStr protoVersion, FErr (num_err e)])
      | Inr serverVersion \<Rightarrow> checkProtoVersion_loop serverVersion [] (host_plugins cfg))"

section \<open>The specification of the choice\<close>

definition negotiated_version :: "int \<Rightarrow> int set \<Rightarrow> int set \<Rightarrow> int" where
  "negotiated_version dflt served offered =
     (if served = {} then dflt
      else if served \<inter> offered \<noteq> {} then Max (served \<inter> offered)
      else Min served)"

section \<open>The loop\<close>

lemma version_loop_find:
  "fst (version_loop g cvs vps vs acc) =
     (case find (\<lambda>v. v \<in> set cvs) vs of
        Some v \<Rightarrow> v
      | None \<Rightarrow> (if vs = [] then fst acc else last vs))"
  by (induction g cvs vps vs acc rule: version_loop.induct) (auto simp: Let_def split: option.splits)

lemma version_loop_plugins:
  "vs \<noteq> [] \<Longrightarrow>
     snd (snd (version_loop g cvs vps vs acc)) = amap_get vps (fst (version_loop g cvs vps vs acc))"
proof (induction g cvs vps vs acc rule: version_loop.induct)
  case (2 g cvs vps v vs x pt y)
  then show ?case by (cases vs) (auto simp: Let_def)
qed simp

lemma version_loop_netrpc:
  "fst (snd (version_loop False cvs vps vs acc)) = fst (snd acc)"
  by (induction False cvs vps vs acc rule: version_loop.induct) (auto simp: Let_def set_protocol_def)

lemma version_loop_protocol:
  assumes "vs \<noteq> []" and "snd (snd (version_loop g cvs vps vs acc)) = Some ((k, p) # ps)"
  shows "fst (snd (version_loop g cvs vps vs acc)) =
           set_protocol g (Some ((k, p) # ps)) (fst (snd acc))"
  using assms
proof (induction g cvs vps vs acc rule: version_loop.induct)
  case (2 g cvs vps v vs x pt y)
  show ?case
  proof (cases "v \<in> set cvs \<or> vs = []")
    case True
    with 2(3) show ?thesis by (auto simp: Let_def)
  next
    case False
    with 2 show ?thesis by (auto simp: Let_def set_protocol_def split: if_splits)
  qed
qed simp

lemma find_rev_sort:
  "find P (rev (sort xs)) = (if \<exists>x \<in> set xs. P x then Some (Max {x \<in> set xs. P x}) else None)"
  for xs :: "'a::linorder list"
proof (cases "\<exists>x \<in> set xs. P x")
  case True
  then obtain v where v: "find P (rev (sort xs)) = Some v"
    by (cases "find P (rev (sort xs))") (auto simp: find_None_iff)
  then obtain i where i: "i < length (sort xs)" "v = rev (sort xs) ! i" "P v"
    and before: "\<forall>j<i. \<not> P (rev (sort xs) ! j)"
    by (auto simp: find_Some_iff)
  have "v \<in> set xs" using i by (metis length_rev nth_mem set_rev set_sort)
  moreover have "y \<le> v" if "y \<in> set xs" "P y" for y
  proof -
    from that(1) obtain j where j: "j < length (sort xs)" "y = rev (sort xs) ! j"
      by (metis in_set_conv_nth length_rev set_rev set_sort)
    with before that(2) have "i \<le> j" by (meson not_le)
    have "sorted_wrt (\<ge>) (rev (sort xs))" by (simp add: sorted_wrt_rev)
    with \<open>i \<le> j\<close> i j show ?thesis
      by (cases "i = j") (auto simp: sorted_wrt_iff_nth_less)
  qed
  ultimately have "Max {x \<in> set xs. P x} = v"
    using i(3) by (intro Max_eqI) auto
  with v True show ?thesis by simp
qed (auto simp: find_None_iff)

lemma last_rev_sort: "xs \<noteq> [] \<Longrightarrow> last (rev (sort xs)) = Min (set xs)"
  for xs :: "'a::linorder list"
proof -
  assume "xs \<noteq> []"
  then obtain y ys where s: "sort xs = y # ys" by (cases "sort xs") auto
  have "sorted (y # ys)" by (metis s sorted_sort)
  then have "Min (set (sort xs)) = y"
    unfolding s by (intro Min_eqI) auto
  then have "Min (set xs) = y" by simp
  with s show ?thesis by (simp add: last_rev)
qed

section \<open>Correctness of the plugin side\<close>

lemma protocolVersion_refines:
  "fst (fst (protocolVersion E opts)) =
     negotiated_version (sint (ProtocolVersion (sc_Handshake opts)))
       (fst ` set (served_plugins opts)) (set (clientVersionsFromEnv E))"
proof -
  let ?ks = "map fst (served_plugins opts)" and ?C = "set (clientVersionsFromEnv E)"
  have "{x \<in> set ?ks. x \<in> ?C} = fst ` set (served_plugins opts) \<inter> ?C" by auto
  moreover have "(\<exists>x \<in> set ?ks. x \<in> ?C) \<longleftrightarrow> fst ` set (served_plugins opts) \<inter> ?C \<noteq> {}" by auto
  ultimately show ?thesis
    using last_rev_sort [of ?ks]
    by (auto simp: protocolVersion_def Let_def version_loop_find find_rev_sort negotiated_version_def)
qed

lemma protocolVersion_plugin_set:
  assumes "served_plugins opts \<noteq> []"
  shows "snd (snd (fst (protocolVersion E opts))) =
           amap_get (served_plugins opts) (fst (fst (protocolVersion E opts)))"
proof -
  have "rev (sort (map fst (served_plugins opts))) \<noteq> []" using assms by simp
  then show ?thesis by (simp add: protocolVersion_def Let_def version_loop_plugins)
qed

lemma protocolVersion_served:
  assumes "served_plugins opts \<noteq> []"
  shows "fst (fst (protocolVersion E opts)) \<in> fst ` set (served_plugins opts)"
proof -
  let ?S = "fst ` set (served_plugins opts)"
  have fin: "finite ?S" "?S \<noteq> {}" using assms by auto
  show ?thesis
    unfolding protocolVersion_refines negotiated_version_def
    using fin Min_in [OF fin] Max_in [of "?S \<inter> set (clientVersionsFromEnv E)"] by auto
qed

section \<open>Correctness of the host side\<close>

lemma checkProtoVersion_loop_Inr:
  "checkProtoVersion_loop v acc m = Inr (w, ps) \<longleftrightarrow> w = v \<and> map_of m v = Some ps"
  by (induction v acc m rule: checkProtoVersion_loop.induct) auto

lemma checkProtoVersion_loop_Inl:
  "map_of m v = None \<Longrightarrow>
     checkProtoVersion_loop v acc m =
       Inl (Errorf ''incompatible API version with plugin. Plugin version: %d, Client versions: %v''
              [FInt v, FInts (acc @ map fst m)])"
  by (induction v acc m rule: checkProtoVersion_loop.induct) (auto split: if_splits)

lemma checkProtoVersion_Inr:
  "checkProtoVersion cfg s = Inr (v, ps) \<longleftrightarrow> Atoi s = Inr v \<and> map_of (host_plugins cfg) v = Some ps"
  by (auto simp: checkProtoVersion_def checkProtoVersion_loop_Inr split: sum.splits)

lemma host_plugins_register:
  "map_of (host_plugins (register_versions cfg)) v =
     (if v = sint (ProtocolVersion (cc_Handshake cfg)) \<and> map_of (host_plugins cfg) v = None
         \<and> cc_Plugins cfg \<noteq> None
      then Some (cc_Plugins cfg) else map_of (host_plugins cfg) v)"
  by (auto simp: register_versions_def default_version_def host_plugins_def Let_def split: option.splits)

lemma parse_versions_Itoa: "\<forall>v \<in> set vs. is_int64 v \<Longrightarrow> parse_versions (map Itoa vs) = vs"
  by (induction vs) (auto simp: Atoi_Itoa)

text \<open>What the host offers is exactly what the plugin reads.\<close>

lemma offered_versions_roundtrip:
  assumes "\<forall>v \<in> fst ` set (host_plugins cfg). is_int64 v"
    and "E ''PLUGIN_PROTOCOL_VERSIONS'' = join_with '','' (versionStrings cfg)"
  shows "clientVersionsFromEnv E = map fst (host_plugins cfg)"
proof (cases "host_plugins cfg = []")
  case True
  with assms(2) show ?thesis by (simp add: clientVersionsFromEnv_def versionStrings_def)
next
  case False
  have vs: "versionStrings cfg = map Itoa (map fst (host_plugins cfg))"
    by (auto simp: versionStrings_def)
  have ne: "versionStrings cfg \<noteq> []" using False by (simp add: versionStrings_def)
  have "split_on (CHR '','') (join_with '','' (versionStrings cfg)) = versionStrings cfg"
    by (rule split_join) (use ne in \<open>auto simp: vs\<close>)
  moreover have "join_with '','' (versionStrings cfg) \<noteq> []"
    using False by (cases "host_plugins cfg") (auto simp: versionStrings_def join_with_Cons_nonempty)
  ultimately show ?thesis
    using assms parse_versions_Itoa [of "map fst (host_plugins cfg)"]
    by (simp add: clientVersionsFromEnv_def Let_def vs)
qed

section \<open>Properties\<close>

text \<open>
  C5: \<open>protocolVersion\<close> implements the specification of the choice: the highest version that both
  sides know, else the lowest version served, else the handshake's; and the plugin set it returns is
  the one registered for the chosen version.
\<close>
theorem protocolVersion_correct:
  "fst (fst (protocolVersion E opts)) =
     negotiated_version (sint (ProtocolVersion (sc_Handshake opts)))
       (fst ` set (served_plugins opts)) (set (clientVersionsFromEnv E))
   \<and> (served_plugins opts \<noteq> [] \<longrightarrow>
        snd (snd (fst (protocolVersion E opts))) =
          amap_get (served_plugins opts) (fst (fst (protocolVersion E opts))))"
  using protocolVersion_refines protocolVersion_plugin_set by blast

definition demo_versions :: serve_config where
  "demo_versions =
     \<lparr>sc_Handshake = \<lparr>ProtocolVersion = 1, MagicCookieKey = [], MagicCookieValue = []\<rparr>, sc_TLSProvider = None,
      sc_Plugins = None, sc_VersionedPlugins = Some [(2, Some []), (3, None)], sc_GRPCServer = False,
      sc_Logger = None, sc_Test = None\<rparr>"

theorem protocolVersion_correct_witness:
  "served_plugins demo_versions \<noteq> [] \<and> fst (fst (protocolVersion (\<lambda>_. []) demo_versions)) = 2
   \<and> snd (snd (fst (protocolVersion (\<lambda>_. []) demo_versions))) = Some []"
  using protocolVersion_correct [of "\<lambda>_. []" demo_versions]
  by (simp add: demo_versions_def served_plugins_def negotiated_version_def clientVersionsFromEnv_def amap_get_def)

text \<open>
  Go iterates over a map in any order; the version and the plugin set that \<open>protocolVersion\<close>
  chooses do not depend on it.
\<close>
theorem protocolVersion_order:
  assumes "amap_ok m" and "amap_ok m'" and "set m = set m'"
  shows "fst (fst (protocolVersion E (opts\<lparr>sc_VersionedPlugins := Some m\<rparr>))) =
           fst (fst (protocolVersion E (opts\<lparr>sc_VersionedPlugins := Some m'\<rparr>)))
     \<and> snd (snd (fst (protocolVersion E (opts\<lparr>sc_VersionedPlugins := Some m\<rparr>)))) =
           snd (snd (fst (protocolVersion E (opts\<lparr>sc_VersionedPlugins := Some m'\<rparr>))))"
proof -
  define r where "r = fst (protocolVersion E (opts\<lparr>sc_VersionedPlugins := Some m\<rparr>))"
  define r' where "r' = fst (protocolVersion E (opts\<lparr>sc_VersionedPlugins := Some m'\<rparr>))"
  let ?s = "served_plugins (opts\<lparr>sc_VersionedPlugins := Some m\<rparr>)"
    and ?s' = "served_plugins (opts\<lparr>sc_VersionedPlugins := Some m'\<rparr>)"
  have keys: "fst ` set ?s = fst ` set ?s'"
    using assms(3) by (simp add: served_plugins_def split: option.split)
  have look: "map_of ?s = map_of ?s'"
    using map_of_iteration_order [OF assms(1-3)] by (simp add: served_plugins_def split: option.split)
  have v: "fst r = fst r'"
    unfolding r_def r'_def protocolVersion_refines keys by simp
  have "snd (snd r) = snd (snd r')"
  proof (cases "?s = []")
    case True
    moreover from True keys have "?s' = []" by simp
    ultimately show ?thesis by (simp add: r_def r'_def protocolVersion_def Let_def)
  next
    case False
    moreover from False keys have "?s' \<noteq> []" by (metis image_is_empty set_empty)
    ultimately have "snd (snd r) = amap_get ?s (fst r)" "snd (snd r') = amap_get ?s' (fst r')"
      by (simp_all add: r_def r'_def protocolVersion_plugin_set)
    with v look show ?thesis by (simp add: amap_get_def)
  qed
  with v show ?thesis by (simp add: r_def r'_def)
qed

theorem protocolVersion_order_witness:
  "fst (fst (protocolVersion (\<lambda>_. []) (demo_versions\<lparr>sc_VersionedPlugins := Some [(3, None), (2, Some [])]\<rparr>))) =
   fst (fst (protocolVersion (\<lambda>_. []) (demo_versions\<lparr>sc_VersionedPlugins := Some [(2, Some []), (3, None)]\<rparr>)))"
  using protocolVersion_order [of "[(3, None), (2, Some [])]" "[(2, Some []), (3, None)]" "\<lambda>_. []" demo_versions]
  by (auto simp: amap_ok_def)

text \<open>
  \<open>checkProtoVersion\<close>, which loops over the host's versions, is a look-up: it accepts exactly a
  version that the host registered, returns the plugins registered for it, and otherwise reports all
  of the host's versions.
\<close>
theorem checkProtoVersion_lookup:
  "checkProtoVersion cfg s =
     (case Atoi s of
        Inl e \<Rightarrow> Inl (Errorf ''error parsing protocol version %q: %w'' [FStr s, FErr (num_err e)])
      | Inr v \<Rightarrow>
          (case map_of (host_plugins cfg) v of
             Some ps \<Rightarrow> Inr (v, ps)
           | None \<Rightarrow> Inl (Errorf ''incompatible API version with plugin. Plugin version: %d, Client versions: %v''
                             [FInt v, FInts (map fst (host_plugins cfg))])))"
  using checkProtoVersion_loop_Inr checkProtoVersion_loop_Inl
  by (simp add: checkProtoVersion_def split: sum.split option.split)

end
