(* ===== verification/CmdRunner.thy ===== *)
theory CmdRunner
  imports Config
begin

text \<open>
  The default runner (\<open>internal/cmdrunner\<close>): a plugin as a child process. Modelled are the
  construction and the start of a \<open>CmdRunner\<close>, the process group set-up, the two stages of
  \<open>Kill\<close> for both platforms, the liveness poll \<open>pidWait\<close>, reattachment by process id, the
  identity address translation and the diagnostic text. Operating system calls are arguments.
\<close>

section \<open>Operating system interface\<close>

datatype platform = Posix | Windows

text \<open>A signal that was sent: to a process group or to one process.\<close>

datatype signal = KillGroup int | KillProcess int

text \<open>
  What the runner asks of the operating system: the process id of a started command, the
  results of signalling a process group and of signalling one process, and how a child ended.
\<close>

record proc_ops =
  os_start :: "exec_cmd \<Rightarrow> int res"
  os_kill :: "int \<Rightarrow> goerror option"
  os_process_kill :: "int \<Rightarrow> goerror option"
  os_wait :: "int \<Rightarrow> goerror option"

section \<open>Address translation\<close>

definition cmd_PluginToHost :: addr_translation where
  "cmd_PluginToHost pluginNet pluginAddr = Inr (pluginNet, pluginAddr)"

definition cmd_HostToPlugin :: addr_translation where
  "cmd_HostToPlugin hostNet hostAddr = Inr (hostNet, hostAddr)"

text \<open>
  What a translator owes its users: an address of the host that was translated for the plugin
  comes back as itself.
\<close>

locale addr_translator =
  fixes p2h h2p :: addr_translation
  assumes translate_back: "h2p n a = Inr (n', a') \<Longrightarrow> p2h n' a' = Inr (n, a)"
begin

lemma translation_inj: "h2p n a = Inr x \<Longrightarrow> h2p m b = Inr x \<Longrightarrow> n = m \<and> a = b"
  using translate_back [of n a] translate_back [of m b] by (cases x) fastforce

end

interpretation cmd_tr: addr_translator cmd_PluginToHost cmd_HostToPlugin
  by unfold_locales (simp add: cmd_PluginToHost_def cmd_HostToPlugin_def)

section \<open>CmdRunner\<close>

record cmd_runner =
  cr_cmd :: exec_cmd
  cr_path :: string
  cr_pid :: int
  cr_disableProcessGroup :: bool

text \<open>
  \<open>exec.Cmd.StdoutPipe\<close> and \<open>StderrPipe\<close> refuse a command that was started already; any other
  failure is the argument's.
\<close>

definition cmd_pipe :: "goerror option \<Rightarrow> exec_cmd \<Rightarrow> goerror option" where
  "cmd_pipe fails cmd =
     (if cmd_Process cmd \<noteq> None then Some (ErrStd ''exec: pipe after process started'') else fails)"

definition NewCmdRunner :: "goerror option \<Rightarrow> goerror option \<Rightarrow> exec_cmd \<Rightarrow> cmd_runner res" where
  "NewCmdRunner stdout_fails stderr_fails cmd =
     (case cmd_pipe stdout_fails cmd of
        Some e \<Rightarrow> Inl e
      | None \<Rightarrow>
          (case cmd_pipe stderr_fails cmd of
             Some e \<Rightarrow> Inl e
           | None \<Rightarrow> Inr \<lparr>cr_cmd = cmd, cr_path = cmd_Path cmd, cr_pid = 0, cr_disableProcessGroup = False\<rparr>))"

definition SetDisableProcessGroup :: "bool \<Rightarrow> cmd_runner \<Rightarrow> cmd_runner" where
  "SetDisableProcessGroup v c = c\<lparr>cr_disableProcessGroup := v\<rparr>"

definition configureProcessGroup_posix :: "exec_cmd \<Rightarrow> exec_cmd" where
  "configureProcessGroup_posix cmd =
     (let attr = (case cmd_SysProcAttr cmd of None \<Rightarrow> \<lparr>Setsid = False, Setpgid = False\<rparr> | Some a \<Rightarrow> a)
      in cmd\<lparr>cmd_SysProcAttr := Some (if Setsid attr then attr else attr\<lparr>Setpgid := True\<rparr>)\<rparr>)"

definition configureProcessGroup_windows :: "exec_cmd \<Rightarrow> exec_cmd" where
  "configureProcessGroup_windows cmd = cmd"

definition configureProcessGroup :: "platform \<Rightarrow> exec_cmd \<Rightarrow> exec_cmd" where
  "configureProcessGroup os cmd =
     (case os of Posix \<Rightarrow> configureProcessGroup_posix cmd | Windows \<Rightarrow> configureProcessGroup_windows cmd)"

definition errProcessGroupNotSupported :: goerror where
  "errProcessGroupNotSupported = ErrNew ''process group kill not supported on windows''"

definition killProcessGroup_posix :: "proc_ops \<Rightarrow> int \<Rightarrow> goerror option \<times> signal list" where
  "killProcessGroup_posix ops pid = (os_kill ops (- pid), [KillGroup pid])"

definition killProcessGroup_windows :: "int \<Rightarrow> goerror option \<times> signal list" where
  "killProcessGroup_windows pid = (Some errProcessGroupNotSupported, [])"

definition killProcessGroup :: "platform \<Rightarrow> proc_ops \<Rightarrow> int \<Rightarrow> goerror option \<times> signal list" where
  "killProcessGroup os ops pid =
     (case os of Posix \<Rightarrow> killProcessGroup_posix ops pid | Windows \<Rightarrow> killProcessGroup_windows pid)"

definition CmdRunner_Start :: "platform \<Rightarrow> proc_ops \<Rightarrow> cmd_runner \<Rightarrow> goerror option \<times> cmd_runner" where
  "CmdRunner_Start os ops c =
     (let cmd = (if \<not> cr_disableProcessGroup c then configureProcessGroup os (cr_cmd c) else cr_cmd c)
      in case os_start ops cmd of
           Inl e \<Rightarrow> (Some e, c\<lparr>cr_cmd := cmd\<rparr>)
         | Inr pid \<Rightarrow> (None, c\<lparr>cr_cmd := cmd\<lparr>cmd_Process := Some pid\<rparr>, cr_pid := pid\<rparr>))"

text \<open>\<open>Kill\<close>: the result and the signals it sent, in order.\<close>

definition CmdRunner_Kill :: "platform \<Rightarrow> proc_ops \<Rightarrow> cmd_runner \<Rightarrow> goerror option \<times> signal list" where
  "CmdRunner_Kill os ops c =
     (case cmd_Process (cr_cmd c) of
        None \<Rightarrow> (None, [])
      | Some proc \<Rightarrow>
          (let (gerr, gsigs) = killProcessGroup os ops (cr_pid c)
           in if \<not> cr_disableProcessGroup c \<and> gerr = None then (None, gsigs)
              else let sigs = (if cr_disableProcessGroup c then [] else gsigs) @ [KillProcess proc]
                   in case os_process_kill ops proc of
                        None \<Rightarrow> (None, sigs)
                      | Some err \<Rightarrow> (if \<not> errors_Is err os_ErrProcessDone then (Some err, sigs) else (None, sigs))))"

definition CmdRunner_Wait :: "proc_ops \<Rightarrow> cmd_runner \<Rightarrow> goerror option" where
  "CmdRunner_Wait ops c = os_wait ops (cr_pid c)"

definition CmdRunner_Name :: "cmd_runner \<Rightarrow> string" where
  "CmdRunner_Name c = cr_path c"

definition CmdRunner_ID :: "cmd_runner \<Rightarrow> string" where
  "CmdRunner_ID c = Itoa (cr_pid c)"

section \<open>Diagnostics\<close>

text \<open>
  What \<open>additionalNotesAboutCommand\<close> looks up: the file's mode, its owner when the file system
  gives one, the names of users and groups, and the machine types that the three object file
  readers report.
\<close>

record file_stat =
  stat_mode :: string
  stat_owner :: "(nat \<times> nat) option"

record note_ops =
  os_Stat :: "string \<Rightarrow> file_stat option"
  os_Getuid :: nat
  os_Getgid :: nat
  user_name :: "nat \<Rightarrow> string option"
  group_name :: "nat \<Rightarrow> string option"
  elf_machine :: "string \<Rightarrow> string option"
  macho_cpu :: "string \<Rightarrow> string option"
  pe_machine :: "string \<Rightarrow> nat option"
  goarch :: string

definition peTypes :: "nat \<Rightarrow> string option" where
  "peTypes m = map_of [(0x14c, ''386''), (0x1c0, ''arm''), (0x6264, ''loong64''),
                       (0x8664, ''amd64''), (0xaa64, ''arm64'')] m"

definition nl :: string where "nl = [CHR 0x0A]"

definition or_unknown :: "string \<Rightarrow> string option \<Rightarrow> string" where
  "or_unknown dflt x = (case x of None \<Rightarrow> dflt | Some s \<Rightarrow> s)"

definition owner_note :: "string \<Rightarrow> nat \<Rightarrow> string \<Rightarrow> nat \<Rightarrow> string \<Rightarrow> string" where
  "owner_note what i nam cur curname =
     ''  '' @ what @ '': '' @ show_nat i @ '' ['' @ nam @ ''] (current: '' @ show_nat cur
       @ '' ['' @ curname @ ''])'' @ nl"

definition arch_note :: "string \<Rightarrow> string \<Rightarrow> string \<Rightarrow> string" where
  "arch_note kind mach cur =
     ''  '' @ kind @ '' architecture: '' @ mach @ '' (current architecture: '' @ cur @ '')'' @ nl"

definition additionalNotesAboutCommand :: "note_ops \<Rightarrow> string \<Rightarrow> string" where
  "additionalNotesAboutCommand W path =
     (case os_Stat W path of
        None \<Rightarrow> []
      | Some st \<Rightarrow>
          nl @ ''Additional notes about plugin:'' @ nl
          @ ''  Path: '' @ path @ nl
          @ ''  Mode: '' @ stat_mode st @ nl
          @ (case stat_owner st of
               None \<Rightarrow> []
             | Some (uid, gid) \<Rightarrow>
                 owner_note ''Owner'' uid (or_unknown ''?'' (user_name W uid))
                   (os_Getuid W) (or_unknown ''?'' (user_name W (os_Getuid W)))
                 @ owner_note ''Group'' gid (or_unknown ''?'' (group_name W gid))
                   (os_Getgid W) (or_unknown ''?'' (group_name W (os_Getgid W))))
          @ (case elf_machine W path of
               Some m \<Rightarrow> arch_note ''ELF'' m (goarch W)
             | None \<Rightarrow>
                 (case macho_cpu W path of
                    Some m \<Rightarrow> arch_note ''MachO'' m (goarch W)
                  | None \<Rightarrow>
                      (case pe_machine W path of
                         Some m \<Rightarrow> arch_note ''PE'' (or_unknown ''unknown'' (peTypes m)) (goarch W)
                       | None \<Rightarrow> []))))"

text \<open>On Windows there are no owners to report.\<close>

definition additionalNotesAboutCommand_windows :: "note_ops \<Rightarrow> string \<Rightarrow> string" where
  "additionalNotesAboutCommand_windows W path =
     (case os_Stat W path of
        None \<Rightarrow> []
      | Some st \<Rightarrow>
          nl @ ''Additional notes about plugin:'' @ nl
          @ ''  Path: '' @ path @ nl
          @ ''  Mode: '' @ stat_mode st @ nl
          @ (case elf_machine W path of
               Some m \<Rightarrow> arch_note ''ELF'' m (goarch W)
             | None \<Rightarrow>
                 (case macho_cpu W path of
                    Some m \<Rightarrow> arch_note ''MachO'' m (goarch W)
                  | None \<Rightarrow>
                      (case pe_machine W path of
                         Some m \<Rightarrow> arch_note ''PE'' (or_unknown ''unknown'' (peTypes m)) (goarch W)
                       | None \<Rightarrow> []))))"

definition unrecognizedRemotePluginMessage :: string where
  "unrecognizedRemotePluginMessage =
     ''This usually means'' @ nl
     @ ''  the plugin was not compiled for this architecture,'' @ nl
     @ ''  the plugin is missing dynamic-link libraries necessary to run,'' @ nl
     @ ''  the plugin is not executable by this process due to file permissions, or'' @ nl
     @ ''  the plugin failed to negotiate the initial go-plugin protocol handshake'' @ nl"

definition CmdRunner_Diagnose :: "note_ops \<Rightarrow> cmd_runner \<Rightarrow> string" where
  "CmdRunner_Diagnose W c =
     unrecognizedRemotePluginMessage @ additionalNotesAboutCommand W (cmd_Path (cr_cmd c))"

section \<open>Waiting for a process that is not a child\<close>

text \<open>
  \<open>_pidAlive\<close> on POSIX: \<open>FindProcess\<close> and, if that succeeds, signal 0; on Windows, the exit code
  of an opened process handle.
\<close>

definition pidAlive_posix :: "goerror option \<Rightarrow> goerror option \<Rightarrow> bool" where
  "pidAlive_posix find_err signal_err =
     (let err = (if find_err = None then signal_err else find_err) in err = None)"

definition exit_STILL_ACTIVE :: nat where "exit_STILL_ACTIVE = 259"

definition pidAlive_windows :: "goerror option \<Rightarrow> nat res \<Rightarrow> bool" where
  "pidAlive_windows open_err exit_code =
     (if open_err \<noteq> None then False
      else (case exit_code of Inl _ \<Rightarrow> False | Inr ec \<Rightarrow> ec = exit_STILL_ACTIVE))"

text \<open>
  \<open>pidWait\<close> polls once per tick; \<open>alive n\<close> is what the poll at tick \<open>n\<close> finds. The value is the
  tick at which it returned; \<open>None\<close> is never returning.
\<close>

partial_function (option) pidWait :: "(nat \<Rightarrow> bool) \<Rightarrow> nat \<Rightarrow> nat option" where
  "pidWait alive n = (if \<not> alive n then Some n else pidWait alive (Suc n))"

section \<open>Reattaching\<close>

record cmd_attached_runner =
  at_pid :: int

definition ReattachFunc ::
  "(int \<Rightarrow> goerror option) \<Rightarrow> (net_addr \<Rightarrow> goerror option) \<Rightarrow> int \<Rightarrow> net_addr \<Rightarrow> cmd_attached_runner res" where
  "ReattachFunc find_process dial pid addr =
     (case find_process pid of
        Some _ \<Rightarrow> Inl (Sentinel ErrProcessNotFound)
      | None \<Rightarrow>
          (case dial addr of
             Some _ \<Rightarrow> Inl (Sentinel ErrProcessNotFound)
           | None \<Rightarrow> Inr \<lparr>at_pid = pid\<rparr>))"

definition CmdAttachedRunner_Kill :: "proc_ops \<Rightarrow> cmd_attached_runner \<Rightarrow> goerror option \<times> signal list" where
  "CmdAttachedRunner_Kill ops c = (os_process_kill ops (at_pid c), [KillProcess (at_pid c)])"

definition CmdAttachedRunner_ID :: "cmd_attached_runner \<Rightarrow> string" where
  "CmdAttachedRunner_ID c = Itoa (at_pid c)"

section \<open>The interface as the client sees it\<close>

definition cmd_as_attached :: "platform \<Rightarrow> proc_ops \<Rightarrow> cmd_runner \<Rightarrow> attached_runner" where
  "cmd_as_attached os ops c =
     \<lparr>runner_ID = CmdRunner_ID c, PluginToHost = cmd_PluginToHost, HostToPlugin = cmd_HostToPlugin,
      runner_Wait = CmdRunner_Wait ops c, runner_Kill = fst (CmdRunner_Kill os ops c)\<rparr>"

definition cmd_as_runner :: "platform \<Rightarrow> proc_ops \<Rightarrow> note_ops \<Rightarrow> cmd_runner \<Rightarrow> runner" where
  "cmd_as_runner os ops W c =
     \<lparr>attached = cmd_as_attached os ops c,
      runner_Start = (case CmdRunner_Start os ops c of
                        (Some e, _) \<Rightarrow> Inl e
                      | (None, c') \<Rightarrow> Inr (cmd_as_attached os ops c')),
      runner_Name = CmdRunner_Name c,
      runner_Diagnose = CmdRunner_Diagnose W c\<rparr>"

text \<open>\<open>Wait\<close> of a reattached process polls until it is gone and reports no error.\<close>

definition reattached_as_attached :: "proc_ops \<Rightarrow> cmd_attached_runner \<Rightarrow> attached_runner" where
  "reattached_as_attached ops c =
     \<lparr>runner_ID = CmdAttachedRunner_ID c, PluginToHost = cmd_PluginToHost, HostToPlugin = cmd_HostToPlugin,
      runner_Wait = None, runner_Kill = fst (CmdAttachedRunner_Kill ops c)\<rparr>"

section \<open>Facts\<close>

text \<open>
  The invariant of a runner: it has a process exactly when it was started, and then its process
  id is the process's.
\<close>

definition runner_inv :: "cmd_runner \<Rightarrow> bool" where
  "runner_inv c \<longleftrightarrow> (case cmd_Process (cr_cmd c) of None \<Rightarrow> cr_pid c = 0 | Some p \<Rightarrow> cr_pid c = p)"

lemma NewCmdRunner_inv: "NewCmdRunner e1 e2 cmd = Inr c \<Longrightarrow> runner_inv c"
  by (auto simp: NewCmdRunner_def cmd_pipe_def runner_inv_def split: option.splits if_splits)

lemma SetDisable_inv: "runner_inv c \<Longrightarrow> runner_inv (SetDisableProcessGroup v c)"
  by (simp add: runner_inv_def SetDisableProcessGroup_def split: option.splits)

lemma configure_keeps [simp]: "cmd_Process (configureProcessGroup os cmd) = cmd_Process cmd"
  by (simp add: configureProcessGroup_def configureProcessGroup_posix_def configureProcessGroup_windows_def
      Let_def split: platform.splits)

lemma Start_inv: "runner_inv c \<Longrightarrow> runner_inv (snd (CmdRunner_Start os ops c))"
  by (auto simp: runner_inv_def CmdRunner_Start_def Let_def split: sum.splits option.splits if_splits)

text \<open>On POSIX the child leads a process group of its own unless the caller opted out.\<close>

lemma Start_group_leader:
  assumes "\<not> cr_disableProcessGroup c"
  shows "\<exists>a. cmd_SysProcAttr (cr_cmd (snd (CmdRunner_Start Posix ops c))) = Some a \<and> (Setsid a \<or> Setpgid a)"
  using assms
  by (auto simp: CmdRunner_Start_def configureProcessGroup_def configureProcessGroup_posix_def Let_def
      split: sum.splits option.splits)

lemma pidWait_step [simp]: "\<not> alive n \<Longrightarrow> pidWait alive n = Some n"
  by (subst pidWait.simps) simp

lemma pidWait_alive: "alive n \<Longrightarrow> pidWait alive n = pidWait alive (Suc n)"
  by (subst pidWait.simps) simp

lemma pidWait_first_dead:
  assumes "\<not> alive m" and "n \<le> m"
  shows "pidWait alive n = Some (LEAST k. n \<le> k \<and> \<not> alive k)"
  using assms(2)
proof (induction rule: inc_induct)
  case base
  have "(LEAST k. m \<le> k \<and> \<not> alive k) = m" using assms(1) by (intro Least_equality) auto
  with assms(1) show ?case by simp
next
  case (step n)
  show ?case
  proof (cases "alive n")
    case True
    then have "(LEAST k. Suc n \<le> k \<and> \<not> alive k) = (LEAST k. n \<le> k \<and> \<not> alive k)"
      by (metis Suc_leD Suc_leI le_neq_implies_less)
    with True step show ?thesis by (simp add: pidWait_alive)
  next
    case False
    then have "(LEAST k. n \<le> k \<and> \<not> alive k) = n" by (intro Least_equality) auto
    with False show ?thesis by simp
  qed
qed

section \<open>Properties\<close>


definition demo_ops :: proc_ops where
  "demo_ops = \<lparr>os_start = (\<lambda>c. Inr 42), os_kill = (\<lambda>p. None), os_process_kill = (\<lambda>p. Some os_ErrProcessDone), os_wait = (\<lambda>p. None)\<rparr>"

definition demo_runner :: cmd_runner where
  "demo_runner =
     \<lparr>cr_cmd = \<lparr>cmd_Path = ''/p'', cmd_Env = [], cmd_Stdin = True, cmd_SysProcAttr = None, cmd_Process = None\<rparr>,
      cr_path = ''/p'', cr_pid = 0, cr_disableProcessGroup = False\<rparr>"


text \<open>
  On POSIX, unless the caller opted out, a started plugin leads a process group of its own, and
  \<open>Kill\<close> signals that group first, so the plugin's children die with it.
\<close>
theorem cmd_kill_group:
  assumes "\<not> cr_disableProcessGroup c" and "CmdRunner_Start Posix ops c = (None, c')"
  shows "(\<exists>a. cmd_SysProcAttr (cr_cmd c') = Some a \<and> (Setsid a \<or> Setpgid a))
    \<and> (\<exists>sigs. snd (CmdRunner_Kill Posix ops c') = KillGroup (cr_pid c') # sigs)"
proof
  show "\<exists>a. cmd_SysProcAttr (cr_cmd c') = Some a \<and> (Setsid a \<or> Setpgid a)"
    using Start_group_leader [OF assms(1), of ops] assms(2) by simp
  have "\<not> cr_disableProcessGroup c'" "cmd_Process (cr_cmd c') \<noteq> None"
    using assms by (auto simp: CmdRunner_Start_def Let_def split: sum.splits)
  then show "\<exists>sigs. snd (CmdRunner_Kill Posix ops c') = KillGroup (cr_pid c') # sigs"
    by (auto simp: CmdRunner_Kill_def killProcessGroup_def killProcessGroup_posix_def Let_def split: option.splits)
qed

theorem cmd_kill_group_witness:
  "\<exists>c' sigs. CmdRunner_Start Posix demo_ops demo_runner = (None, c')
     \<and> snd (CmdRunner_Kill Posix demo_ops c') = KillGroup 42 # sigs"
proof -
  obtain c' where c': "CmdRunner_Start Posix demo_ops demo_runner = (None, c')" "cr_pid c' = 42"
    by (simp add: CmdRunner_Start_def demo_ops_def Let_def)
  moreover have "\<not> cr_disableProcessGroup demo_runner" by (simp add: demo_runner_def)
  ultimately show ?thesis using cmd_kill_group [OF _ c'(1)] by auto
qed

lemma pidWait_dead: "pidWait alive n = Some k \<Longrightarrow> \<not> alive k"
  by (rule pidWait.raw_induct [where P = "\<lambda>alive n k. \<not> alive k"]) (auto split: if_splits)

text \<open>
  C35: \<open>pidWait\<close> returns exactly when the process is gone at some poll, and then at the first poll
  that finds it gone; for a process that never ends it never returns.
\<close>
theorem pidWait_correct:
  "pidWait alive 0 = Some k \<longleftrightarrow> \<not> alive k \<and> (\<forall>j. alive j \<or> k \<le> j)"
proof
  assume r: "pidWait alive 0 = Some k"
  then have k: "\<not> alive k" by (rule pidWait_dead)
  then have "k = (LEAST j. \<not> alive j)" using pidWait_first_dead [of alive k 0] r by simp
  with k show "\<not> alive k \<and> (\<forall>j. alive j \<or> k \<le> j)" by (auto intro: Least_le)
next
  assume k: "\<not> alive k \<and> (\<forall>j. alive j \<or> k \<le> j)"
  then have "(LEAST j. \<not> alive j) = k" by (intro Least_equality) auto
  with k pidWait_first_dead [of alive k 0] show "pidWait alive 0 = Some k" by simp
qed

end
