(* ===== verification/Listener.thy ===== *)
theory Listener
  imports Negotiation
begin

text \<open>
  The listeners of the plugin (\<open>server.go\<close>): the search for a free TCP port in a range taken from
  the environment, the Unix socket with its temporary file name and its group permissions, and
  \<open>rmListener\<close>. Results of system calls are arguments; the files and the open listeners are an
  explicit state, so that what is left behind on an error path can be stated.
\<close>

section \<open>Group permissions\<close>

record perm_ops =
  user_LookupGroup :: "string \<Rightarrow> string res"
  os_Chown :: "string \<Rightarrow> int \<Rightarrow> goerror option"
  os_Chmod :: "string \<Rightarrow> nat \<Rightarrow> goerror option"

text \<open>The group of a path that was changed, and the mode set after it.\<close>

datatype perm_op = Chown string int | Chmod string nat

text \<open>The file modes that the source writes in octal.\<close>

definition mode_0660 :: nat where "mode_0660 = 6 * 64 + 6 * 8"

definition mode_0770 :: nat where "mode_0770 = 7 * 64 + 7 * 8"

definition group_id :: "perm_ops \<Rightarrow> string \<Rightarrow> int res" where
  "group_id ops groupString =
     (case Atoi groupString of
        Inr groupID \<Rightarrow> Inr groupID
      | Inl _ \<Rightarrow>
          (case user_LookupGroup ops groupString of
             Inl err \<Rightarrow> Inl (Errorf ''failed to find gid from %q: %w'' [FStr groupString, FErr err])
           | Inr gid \<Rightarrow>
               (case Atoi gid of
                  Inl err \<Rightarrow> Inl (Errorf ''failed to parse %q group's gid as an integer: %w''
                                    [FStr groupString, FErr (num_err err)])
                | Inr groupID \<Rightarrow> Inr groupID)))"

definition setGroupWritable :: "perm_ops \<Rightarrow> string \<Rightarrow> string \<Rightarrow> nat \<Rightarrow> goerror option \<times> perm_op list" where
  "setGroupWritable ops path groupString mode =
     (case group_id ops groupString of
        Inl err \<Rightarrow> (Some err, [])
      | Inr groupID \<Rightarrow>
          (case os_Chown ops path groupID of
             Some err \<Rightarrow> (Some err, [])
           | None \<Rightarrow>
               (case os_Chmod ops path mode of
                  Some err \<Rightarrow> (Some err, [Chown path groupID])
                | None \<Rightarrow> (None, [Chown path groupID, Chmod path mode]))))"

section \<open>TCP\<close>

definition port_from_env :: "env \<Rightarrow> string \<Rightarrow> int res" where
  "port_from_env E name =
     (let v = E name
      in if length v = 0 then Inr 0
         else (case ParseInt 32 v of
                 Inl err \<Rightarrow> Inl (Errorf (''couldn't get value from '' @ name @ '': %w'') [FErr (num_err err)])
               | Inr p \<Rightarrow> Inr p))"

definition loopback :: "int \<Rightarrow> string" where
  "loopback port = ''127.0.0.1:'' @ Itoa port"

text \<open>The loop over the ports; \<open>listen\<close> is the result of \<open>net.Listen\<close> on an address.\<close>

function tcp_port_loop :: "(string \<Rightarrow> goerror option) \<Rightarrow> int \<Rightarrow> int \<Rightarrow> int res" where
  "tcp_port_loop listen port maxPort =
     (if port \<le> maxPort
      then (if listen (loopback port) = None then Inr port else tcp_port_loop listen (port + 1) maxPort)
      else Inl (ErrNew ''couldn't bind plugin TCP listener''))"
  by pat_completeness auto
termination
  by (relation "measure (\<lambda>(listen, port, maxPort). nat (maxPort + 1 - port))") auto

declare tcp_port_loop.simps [simp del]

definition serverListenerTCP :: "(string \<Rightarrow> goerror option) \<Rightarrow> env \<Rightarrow> int res" where
  "serverListenerTCP listen E =
     (case port_from_env E ''PLUGIN_MIN_PORT'' of
        Inl err \<Rightarrow> Inl err
      | Inr minPort \<Rightarrow>
          (case port_from_env E ''PLUGIN_MAX_PORT'' of
             Inl err \<Rightarrow> Inl err
           | Inr maxPort \<Rightarrow>
               (if minPort > maxPort
                then Inl (Errorf ''PLUGIN_MIN_PORT value of %d is greater than PLUGIN_MAX_PORT value of %d''
                            [FInt minPort, FInt maxPort])
                else tcp_port_loop listen minPort maxPort)))"

section \<open>Unix sockets\<close>

record fs_state =
  fs_files :: "string list"
  fs_listening :: "string list"

record unix_ops =
  os_CreateTemp :: "string \<Rightarrow> string res"
  tf_Close :: "goerror option"
  os_Remove :: "string \<Rightarrow> goerror option"
  net_Listen_unix :: "string \<Rightarrow> goerror option"
  unix_perms :: perm_ops

definition add_file :: "string \<Rightarrow> fs_state \<Rightarrow> fs_state" where
  "add_file p s = s\<lparr>fs_files := p # removeAll p (fs_files s)\<rparr>"

definition del_file :: "string \<Rightarrow> fs_state \<Rightarrow> fs_state" where
  "del_file p s = s\<lparr>fs_files := removeAll p (fs_files s)\<rparr>"

text \<open>\<open>serverListenerUnix\<close>: the path of the socket, and the state of the file system.\<close>

definition serverListenerUnix :: "unix_ops \<Rightarrow> unix_socket_config \<Rightarrow> fs_state \<Rightarrow> string res \<times> fs_state" where
  "serverListenerUnix ops cfg s =
     (case os_CreateTemp ops (us_socketDir cfg) of
        Inl err \<Rightarrow> (Inl err, s)
      | Inr path \<Rightarrow>
          (let s1 = add_file path s
           in case tf_Close ops of
                Some err \<Rightarrow> (Inl err, s1)
              | None \<Rightarrow>
                  (case os_Remove ops path of
                     Some err \<Rightarrow> (Inl err, s1)
                   | None \<Rightarrow>
                       (let s2 = del_file path s1
                        in case net_Listen_unix ops path of
                             Some err \<Rightarrow> (Inl err, s2)
                           | None \<Rightarrow>
                               (let s3 = (add_file path s2)\<lparr>fs_listening := path # fs_listening s2\<rparr>
                                in if us_Group cfg \<noteq> []
                                   then (case fst (setGroupWritable (unix_perms ops) path (us_Group cfg) mode_0660) of
                                           Some err \<Rightarrow> (Inl err, s3)
                                         | None \<Rightarrow> (Inr path, s3))
                                   else (Inr path, s3))))))"

datatype listen_result = TCPListener int | UnixListener string

definition serverListener ::
  "bool \<Rightarrow> (string \<Rightarrow> goerror option) \<Rightarrow> unix_ops \<Rightarrow> env \<Rightarrow> unix_socket_config \<Rightarrow> fs_state
   \<Rightarrow> listen_result res \<times> fs_state" where
  "serverListener windows listen ops E cfg s =
     (if windows then (map_sum id TCPListener (serverListenerTCP listen E), s)
      else map_prod (map_sum id UnixListener) id (serverListenerUnix ops cfg s))"

section \<open>rmListener\<close>

text \<open>
  A wrapped listener: the inner \<open>Close\<close> and the additional close function, both on the state.
  \<open>Close\<close> stops at an error of the inner one.
\<close>

record 's rm_listener =
  inner_close :: "'s \<Rightarrow> goerror option \<times> 's"
  extra_close :: "'s \<Rightarrow> goerror option \<times> 's"

definition rmListener_Close :: "'s rm_listener \<Rightarrow> 's \<Rightarrow> goerror option \<times> 's" where
  "rmListener_Close l s =
     (case inner_close l s of
        (Some err, s') \<Rightarrow> (Some err, s')
      | (None, s') \<Rightarrow> extra_close l s')"

text \<open>
  \<open>os.Remove\<close> of a path that does not exist is an error. A \<open>net.UnixListener\<close> that \<open>net.Listen\<close>
  created removes its socket file when it is closed.
\<close>

definition fs_remove :: "string \<Rightarrow> fs_state \<Rightarrow> goerror option \<times> fs_state" where
  "fs_remove p s =
     (if p \<in> set (fs_files s) then (None, del_file p s)
      else (Some (ErrStd ''no such file or directory''), s))"

definition unix_listener_close :: "string \<Rightarrow> fs_state \<Rightarrow> goerror option \<times> fs_state" where
  "unix_listener_close p s =
     (if p \<in> set (fs_listening s)
      then (None, (del_file p s)\<lparr>fs_listening := removeAll p (fs_listening s)\<rparr>)
      else (Some net_ErrClosed, s))"

definition newDeleteFileListener :: "string \<Rightarrow> fs_state rm_listener" where
  "newDeleteFileListener path = \<lparr>inner_close = unix_listener_close path, extra_close = fs_remove path\<rparr>"

section \<open>Facts\<close>

lemma tcp_port_loop_Inr:
  "tcp_port_loop listen p mx = Inr q \<longleftrightarrow>
     p \<le> q \<and> q \<le> mx \<and> listen (loopback q) = None \<and> (\<forall>r. p \<le> r \<and> r < q \<longrightarrow> listen (loopback r) \<noteq> None)"
proof (induction listen p mx rule: tcp_port_loop.induct)
  case (1 listen p mx)
  show ?case
  proof (cases "p \<le> mx \<and> listen (loopback p) \<noteq> None")
    case True
    then have "tcp_port_loop listen p mx = tcp_port_loop listen (p + 1) mx"
      by (subst tcp_port_loop.simps) auto
    moreover have "(p + 1 \<le> q \<and> (\<forall>r. p + 1 \<le> r \<and> r < q \<longrightarrow> listen (loopback r) \<noteq> None)) \<longleftrightarrow>
        (p \<le> q \<and> q \<noteq> p \<and> (\<forall>r. p \<le> r \<and> r < q \<longrightarrow> listen (loopback r) \<noteq> None))"
      using True by (smt (verit))
    ultimately show ?thesis using 1 True by auto
  next
    case False
    then show ?thesis by (subst tcp_port_loop.simps) force
  qed
qed

lemma tcp_port_loop_Inl:
  "tcp_port_loop listen p mx = Inl e \<Longrightarrow>
     e = ErrNew ''couldn't bind plugin TCP listener'' \<and> (\<forall>r. p \<le> r \<and> r \<le> mx \<longrightarrow> listen (loopback r) \<noteq> None)"
proof (induction listen p mx rule: tcp_port_loop.induct)
  case (1 listen p mx)
  show ?case
  proof (cases "p \<le> mx")
    case True
    with 1(2) have ne: "listen (loopback p) \<noteq> None" and rest: "tcp_port_loop listen (p + 1) mx = Inl e"
      by (simp_all add: tcp_port_loop.simps [of listen p mx] split: if_splits)
    with 1(1) True show ?thesis by (smt (verit))
  next
    case False
    with 1(2) show ?thesis by (auto simp: tcp_port_loop.simps [of listen p mx])
  qed
qed

lemma setGroupWritable_ok:
  "fst (setGroupWritable ops path g mode) = None \<longleftrightarrow>
     (\<exists>gid. group_id ops g = Inr gid \<and> os_Chown ops path gid = None \<and> os_Chmod ops path mode = None)"
  by (auto simp: setGroupWritable_def split: sum.splits option.splits)

lemma serverListenerUnix_ok:
  "serverListenerUnix ops cfg s = (Inr path, s') \<Longrightarrow>
     path \<in> set (fs_files s') \<and> path \<in> set (fs_listening s')"
  by (auto simp: serverListenerUnix_def add_file_def Let_def split: sum.splits option.splits if_splits)

section \<open>Properties\<close>

text \<open>
  \<open>serverListenerTCP\<close> returns the lowest port of the configured range that can be bound, and
  fails when the range is malformed or every port of it is taken.
\<close>
theorem tcp_listener_correct:
  "serverListenerTCP listen E = Inr q \<longleftrightarrow>
     (\<exists>lo hi. port_from_env E ''PLUGIN_MIN_PORT'' = Inr lo \<and> port_from_env E ''PLUGIN_MAX_PORT'' = Inr hi
        \<and> lo \<le> q \<and> q \<le> hi \<and> listen (loopback q) = None
        \<and> (\<forall>r. lo \<le> r \<and> r < q \<longrightarrow> listen (loopback r) \<noteq> None))"
proof -
  consider e where "port_from_env E ''PLUGIN_MIN_PORT'' = Inl e"
    | lo e where "port_from_env E ''PLUGIN_MIN_PORT'' = Inr lo" "port_from_env E ''PLUGIN_MAX_PORT'' = Inl e"
    | lo hi where "port_from_env E ''PLUGIN_MIN_PORT'' = Inr lo" "port_from_env E ''PLUGIN_MAX_PORT'' = Inr hi"
    by (metis sum.exhaust)
  then show ?thesis
    by cases (auto simp: serverListenerTCP_def tcp_port_loop_Inr)
qed

theorem tcp_listener_correct_witness: "serverListenerTCP (\<lambda>_. None) (\<lambda>_. []) = Inr 0"
  using tcp_listener_correct [of "\<lambda>_. None" "\<lambda>_. []" 0] by (simp add: port_from_env_def)

text \<open>
  The port bounds that are read from the environment are 32-bit integers, so the search for a
  port runs over at most \<open>2 ^ 32\<close> ports and ends.
\<close>
theorem tcp_port_bounds:
  assumes "port_from_env E name = Inr p"
  shows "- (2 ^ 31) \<le> p \<and> p < 2 ^ 31"
  using assms ParseInt_bounds [of 32 "E name" p]
  by (auto simp: port_from_env_def Let_def split: if_splits sum.splits)

theorem tcp_port_bounds_witness:
  "port_from_env (\<lambda>_. []) ''PLUGIN_MIN_PORT'' = Inr 0 \<and> - (2 ^ 31) \<le> (0 :: int) \<and> (0 :: int) < 2 ^ 31"
  using tcp_port_bounds [of "\<lambda>_. []" "''PLUGIN_MIN_PORT''" 0] by (simp add: port_from_env_def)

text \<open>
  When the group permissions of a new Unix socket cannot be set, \<open>serverListenerUnix\<close> returns
  the error and leaves the listener open and the socket file in place.
\<close>
theorem unix_listener_leak:
  assumes "os_CreateTemp ops (us_socketDir cfg) = Inr path" and "tf_Close ops = None"
    and "os_Remove ops path = None" and "net_Listen_unix ops path = None"
    and "us_Group cfg \<noteq> []"
    and "fst (setGroupWritable (unix_perms ops) path (us_Group cfg) mode_0660) = Some err"
  shows "fst (serverListenerUnix ops cfg s) = Inl err
    \<and> path \<in> set (fs_listening (snd (serverListenerUnix ops cfg s)))
    \<and> path \<in> set (fs_files (snd (serverListenerUnix ops cfg s)))"
  using assms by (simp add: serverListenerUnix_def add_file_def del_file_def Let_def)

theorem unix_listener_leak_witness:
  "''/s'' \<in> set (fs_listening (snd (serverListenerUnix
      \<lparr>os_CreateTemp = (\<lambda>d. Inr ''/s''), tf_Close = None, os_Remove = (\<lambda>p. None), net_Listen_unix = (\<lambda>p. None),
       unix_perms = \<lparr>user_LookupGroup = (\<lambda>g. Inl (ErrExt ''unknown group'')), os_Chown = (\<lambda>p g. None), os_Chmod = (\<lambda>p m. None)\<rparr>\<rparr>
      \<lparr>us_Group = ''staff'', us_TempDir = [], us_socketDir = []\<rparr> \<lparr>fs_files = [], fs_listening = []\<rparr>)))"
proof -
  have a: "Atoi ''staff'' = Inl ErrSyntax"
    by (simp add: Atoi_def ParseInt_def ParseUint_def is_digit_char_def)
  show ?thesis
    by (rule unix_listener_leak [THEN conjunct2, THEN conjunct1])
       (simp_all add: setGroupWritable_def group_id_def a)
qed

text \<open>
  Closing the listener of a Unix socket removes its file and stops listening, but always
  reports an error: the inner listener has removed the file before the wrapper tries to.
\<close>
theorem unix_close_reports_error:
  assumes "path \<in> set (fs_listening s)"
  shows "fst (rmListener_Close (newDeleteFileListener path) s) = Some (ErrStd ''no such file or directory'')
    \<and> path \<notin> set (fs_files (snd (rmListener_Close (newDeleteFileListener path) s)))
    \<and> path \<notin> set (fs_listening (snd (rmListener_Close (newDeleteFileListener path) s)))"
  using assms
  by (simp add: rmListener_Close_def newDeleteFileListener_def unix_listener_close_def fs_remove_def del_file_def)

theorem unix_close_reports_error_witness:
  "fst (rmListener_Close (newDeleteFileListener ''/s'') \<lparr>fs_files = [''/s''], fs_listening = [''/s'']\<rparr>) \<noteq> None"
  using unix_close_reports_error [of "''/s''" "\<lparr>fs_files = [''/s''], fs_listening = [''/s'']\<rparr>"] by simp

end
