(* ===== verification/Mtls.thy ===== *)
theory Mtls
  imports Config
begin

text \<open>
  The one-time certificates of automatic mTLS (\<open>mtls.go\<close>). The cryptographic operations are
  arguments; the model has the certificate template, the order of the operations and every error
  return.
\<close>

datatype ext_key_usage = ExtKeyUsageClientAuth | ExtKeyUsageServerAuth

datatype key_usage = KeyUsageDigitalSignature | KeyUsageKeyEncipherment | KeyUsageKeyAgreement | KeyUsageCertSign

record cert_template =
  CommonName :: string
  Organization :: "string list"
  DNSNames :: "string list"
  ExtKeyUsage :: "ext_key_usage list"
  KeyUsage :: "key_usage list"
  BasicConstraintsValid :: bool
  SerialNumber :: nat
  NotBefore :: int
  NotAfter :: int
  IsCA :: bool

text \<open>
  The operations of \<open>crypto\<close>, \<open>encoding/pem\<close> and \<open>time\<close> that are used; \<open>time_Now i\<close> is the
  \<open>i\<close>th reading of the clock.
\<close>

record crypto_ops =
  ecdsa_GenerateKey :: "string res"
  rand_Int :: "nat \<Rightarrow> nat res"
  time_Now :: "nat \<Rightarrow> int"
  x509_CreateCertificate :: "cert_template \<Rightarrow> string \<Rightarrow> string res"
  pem_Encode :: "string \<Rightarrow> string \<Rightarrow> string res"
  x509_MarshalECPrivateKey :: "string \<Rightarrow> string res"
  tls_X509KeyPair :: "string \<Rightarrow> string \<Rightarrow> string list res"
  x509_ParseCertificate :: "string \<Rightarrow> string res"
  x509_AppendCertsFromPEM :: "string \<Rightarrow> string list option"

definition hour :: duration where "hour = 3600 * second"

definition serialNumberLimit :: nat where "serialNumberLimit = 2 ^ 128"

definition cert_template_for :: "crypto_ops \<Rightarrow> nat \<Rightarrow> cert_template" where
  "cert_template_for C sn =
     \<lparr>CommonName = ''localhost'', Organization = [''HashiCorp''], DNSNames = [''localhost''],
      ExtKeyUsage = [ExtKeyUsageClientAuth, ExtKeyUsageServerAuth],
      KeyUsage = [KeyUsageDigitalSignature, KeyUsageKeyEncipherment, KeyUsageKeyAgreement, KeyUsageCertSign],
      BasicConstraintsValid = True, SerialNumber = sn,
      NotBefore = time_Now C 0 - 30 * second, NotAfter = time_Now C 1 + 262980 * hour, IsCA = True\<rparr>"

definition generateCert :: "crypto_ops \<Rightarrow> (string \<times> string) res" where
  "generateCert C =
     (case ecdsa_GenerateKey C of
        Inl err \<Rightarrow> Inl err
      | Inr key \<Rightarrow>
          (case rand_Int C serialNumberLimit of
             Inl err \<Rightarrow> Inl err
           | Inr sn \<Rightarrow>
               (case x509_CreateCertificate C (cert_template_for C sn) key of
                  Inl err \<Rightarrow> Inl err
                | Inr der \<Rightarrow>
                    (case pem_Encode C ''CERTIFICATE'' der of
                       Inl err \<Rightarrow> Inl err
                     | Inr certOut \<Rightarrow>
                         (case x509_MarshalECPrivateKey C key of
                            Inl err \<Rightarrow> Inl err
                          | Inr keyBytes \<Rightarrow>
                              (case pem_Encode C ''EC PRIVATE KEY'' keyBytes of
                                 Inl err \<Rightarrow> Inl err
                               | Inr keyOut \<Rightarrow> Inr (certOut, keyOut)))))))"

lemma generateCert_Inr:
  "generateCert C = Inr (cert, key) \<longleftrightarrow>
     (\<exists>k sn der kb. ecdsa_GenerateKey C = Inr k \<and> rand_Int C serialNumberLimit = Inr sn
        \<and> x509_CreateCertificate C (cert_template_for C sn) k = Inr der
        \<and> pem_Encode C ''CERTIFICATE'' der = Inr cert
        \<and> x509_MarshalECPrivateKey C k = Inr kb
        \<and> pem_Encode C ''EC PRIVATE KEY'' kb = Inr key)"
  by (auto simp: generateCert_def split: sum.splits)

lemma template_valid_now:
  "NotBefore (cert_template_for C sn) < time_Now C 0 \<and> time_Now C 1 < NotAfter (cert_template_for C sn)"
  by (simp add: cert_template_for_def second_def hour_def)

text \<open>One instance of the operations, for examples.\<close>

definition demo_crypto :: crypto_ops where
  "demo_crypto =
     \<lparr>ecdsa_GenerateKey = Inr ''key'', rand_Int = (\<lambda>n. Inr 5), time_Now = (\<lambda>i. 0),
      x509_CreateCertificate = (\<lambda>t k. Inr (replicate 60 CHR ''d'')), pem_Encode = (\<lambda>ty b. Inr b),
      x509_MarshalECPrivateKey = Inr, tls_X509KeyPair = (\<lambda>c k. Inr [c]), x509_ParseCertificate = Inr,
      x509_AppendCertsFromPEM = (\<lambda>p. Some [p])\<rparr>"

end
