(* ===== verification/Base64.thy ===== *)
theory Base64
  imports GoStrings
begin

text \<open>
  \<open>base64.RawStdEncoding\<close>, with which the plugin puts its certificate into the handshake line and
  the host takes it out: encoding without padding, decoding that skips line breaks, refuses bytes
  outside the alphabet and a lone last symbol, and accepts any trailing bits.
\<close>

definition b64_alphabet :: string where
  "b64_alphabet = ''ABCDEFGHIJKLMNOPQRSTUVWXYZabcdefghijklmnopqrstuvwxyz0123456789+/''"

definition enc6 :: "nat \<Rightarrow> char" where
  "enc6 n = b64_alphabet ! (n mod 64)"

definition dec6 :: "char \<Rightarrow> nat option" where
  "dec6 c = map_of (zip b64_alphabet [0..<64]) c"

definition byte_of :: "char \<Rightarrow> nat" where
  "byte_of c = of_char c"

fun b64_encode :: "string \<Rightarrow> string" where
  "b64_encode [] = []"
| "b64_encode [a] = (let v = byte_of a * 16 in [enc6 (v div 64), enc6 v])"
| "b64_encode [a, b] =
     (let v = (byte_of a * 256 + byte_of b) * 4 in [enc6 (v div 4096), enc6 (v div 64), enc6 v])"
| "b64_encode (a # b # c # bs) =
     (let v = byte_of a * 65536 + byte_of b * 256 + byte_of c
      in enc6 (v div 262144) # enc6 (v div 4096) # enc6 (v div 64) # enc6 v # b64_encode bs)"

fun b64_symbols :: "string \<Rightarrow> nat list option" where
  "b64_symbols [] = Some []"
| "b64_symbols (c # cs) =
     (if c = CHR 0x0A \<or> c = CHR 0x0D then b64_symbols cs
      else case dec6 c of
             None \<Rightarrow> None
           | Some d \<Rightarrow> map_option (\<lambda>ds. d # ds) (b64_symbols cs))"

fun b64_bytes :: "nat list \<Rightarrow> string option" where
  "b64_bytes [] = Some []"
| "b64_bytes [w] = None"
| "b64_bytes [w, x] = Some [byte_char ((w * 64 + x) div 16)]"
| "b64_bytes [w, x, y] =
     (let v = (w * 64 + x) * 64 + y in Some [byte_char (v div 1024), byte_char (v div 4)])"
| "b64_bytes (w # x # y # z # ds) =
     (let v = ((w * 64 + x) * 64 + y) * 64 + z
      in map_option (\<lambda>bs. byte_char (v div 65536) # byte_char (v div 256) # byte_char v # bs) (b64_bytes ds))"

definition b64_DecodeString :: "string \<Rightarrow> string res" where
  "b64_DecodeString s =
     (case Option.bind (b64_symbols s) b64_bytes of
        None \<Rightarrow> Inl (ErrStd ''illegal base64 data'')
      | Some bs \<Rightarrow> Inr bs)"

section \<open>The round trip\<close>

lemma alphabet_roundtrip: "\<forall>n \<in> set [0..<64]. dec6 (b64_alphabet ! n) = Some n"
  by code_simp

lemma alphabet_chars: "\<forall>c \<in> set b64_alphabet. c \<noteq> CHR 0x0A \<and> c \<noteq> CHR 0x0D \<and> c \<noteq> CHR ''|'' \<and> c \<noteq> CHR '' ''"
  by (simp add: b64_alphabet_def)

lemma length_alphabet [simp]: "length b64_alphabet = 64"
  by (simp add: b64_alphabet_def)

lemma enc6_in: "enc6 n \<in> set b64_alphabet"
  by (simp add: enc6_def)

lemma dec6_enc6 [simp]: "dec6 (enc6 n) = Some (n mod 64)"
  using alphabet_roundtrip by (simp add: enc6_def)

lemma enc6_not_break [simp]: "enc6 n \<noteq> CHR 0x0A" "enc6 n \<noteq> CHR 0x0D"
  using alphabet_chars enc6_in [of n] by auto

lemma byte_char_byte_of [simp]: "byte_char (byte_of c) = c"
  by (simp add: byte_char_def byte_of_def)

lemma byte_char_mod: "byte_char (n mod 256) = byte_char n"
  by (simp add: byte_char_def)

lemma byte_of_bound: "byte_of c < 256"
  by (simp add: byte_of_def)

lemma div_mod_64: "v div k = 64 * (v div (64 * k)) + v div k mod 64" for v k :: nat
  by (metis div_mult2_eq mult.commute mult_div_mod_eq)

lemma regroup2:
  assumes "a < 256"
  shows "((a * 16) div 64 mod 64 * 64 + a * 16 mod 64) div 16 = (a :: nat)"
proof -
  have "(a * 16) div 64 < 64" using assms by simp
  moreover have "a * 16 = 64 * ((a * 16) div 64) + a * 16 mod 64" by (rule mult_div_mod_eq [symmetric])
  ultimately have "(a * 16) div 64 mod 64 * 64 + a * 16 mod 64 = a * 16"
    by (metis mod_less mult.commute)
  then show ?thesis by (metis nonzero_mult_div_cancel_right zero_neq_numeral)
qed

lemma base256:
  assumes "c < 256"
  shows "(x * 256 + c) div 256 = (x :: nat)" and "(x * 256 + c) mod 256 = c"
  using assms by simp_all

lemma combine3: "x = 64 * y + r \<Longrightarrow> v = 64 * x + s \<Longrightarrow> (y * 64 + r) * 64 + s = (v :: nat)"
  by simp

lemma regroup3:
  assumes "v < 2 ^ 18"
  shows "(v div 4096 mod 64 * 64 + v div 64 mod 64) * 64 + v mod 64 = (v :: nat)"
proof -
  have b: "v div 4096 mod 64 = v div 4096" using assms by simp
  have "v div 64 = 64 * (v div 4096) + v div 64 mod 64" using div_mod_64 [of v 64] by simp
  moreover have "v = 64 * (v div 64) + v mod 64" by (rule mult_div_mod_eq [symmetric])
  ultimately show ?thesis unfolding b by (rule combine3)
qed

lemma regroup4:
  assumes "v < 2 ^ 24"
  shows "((v div 262144 mod 64 * 64 + v div 4096 mod 64) * 64 + v div 64 mod 64) * 64 + v mod 64 = (v :: nat)"
proof -
  have b: "v div 262144 mod 64 = v div 262144" using assms by simp
  have "v div 4096 = 64 * (v div 262144) + v div 4096 mod 64" using div_mod_64 [of v 4096] by simp
  moreover have "v div 64 = 64 * (v div 4096) + v div 64 mod 64" using div_mod_64 [of v 64] by simp
  ultimately have "(v div 262144 * 64 + v div 4096 mod 64) * 64 + v div 64 mod 64 = v div 64"
    by (rule combine3)
  then show ?thesis unfolding b by (simp only: div_mult_mod_eq)
qed

text \<open>The symbols of one group and the bytes of one group, as rewrite rules.\<close>

lemma b64_symbols_enc6 [simp]:
  "b64_symbols (enc6 n # cs) = map_option (\<lambda>ds. n mod 64 # ds) (b64_symbols cs)"
  by simp

lemma b64_group1: "b64_bytes [(byte_of a * 16) div 64 mod 64, byte_of a * 16 mod 64] = Some [a]"
  unfolding b64_bytes.simps regroup2 [OF byte_of_bound] by simp

lemma b64_group2:
  fixes a b :: char
  defines "v \<equiv> (byte_of a * 256 + byte_of b) * 4"
  shows "b64_bytes [v div 4096 mod 64, v div 64 mod 64, v mod 64] = Some [a, b]"
proof -
  have bnd: "v < 2 ^ 18"
    using byte_of_bound [of a] byte_of_bound [of b] by (simp add: v_def)
  have "v div 1024 = byte_of a" "v div 4 = byte_of a * 256 + byte_of b"
    using byte_of_bound [of b] by (simp_all add: v_def)
  moreover have "(byte_of a * 256 + byte_of b) mod 256 = byte_of b"
    using byte_of_bound [of b] by simp
  ultimately have "byte_char (v div 1024) = a" "byte_char (v div 4) = b"
    by (simp, metis byte_char_byte_of byte_char_mod)
  then show ?thesis unfolding b64_bytes.simps Let_def regroup3 [OF bnd] by simp
qed

lemma b64_group3:
  fixes a b c :: char
  defines "v \<equiv> byte_of a * 65536 + byte_of b * 256 + byte_of c"
  shows "b64_bytes (v div 262144 mod 64 # v div 4096 mod 64 # v div 64 mod 64 # v mod 64 # ds) =
           map_option (\<lambda>bs. a # b # c # bs) (b64_bytes ds)"
proof -
  have bnd: "v < 2 ^ 24"
    using byte_of_bound [of a] byte_of_bound [of b] byte_of_bound [of c] by (simp add: v_def)
  have v: "v = (byte_of a * 256 + byte_of b) * 256 + byte_of c" by (simp add: v_def)
  have d: "v div 256 = byte_of a * 256 + byte_of b" "v mod 256 = byte_of c"
    unfolding v by (rule base256 [OF byte_of_bound])+
  have "v div 65536 = v div 256 div 256" by (simp add: div_mult2_eq [symmetric])
  then have "v div 65536 = byte_of a" "v div 256 mod 256 = byte_of b"
    unfolding d using byte_of_bound [of b] by simp_all
  with d(2) have "byte_char (v div 65536) = a" "byte_char (v div 256) = b" "byte_char v = c"
    by (metis byte_char_byte_of byte_char_mod)+
  then show ?thesis unfolding b64_bytes.simps Let_def regroup4 [OF bnd] by simp
qed

lemma b64_roundtrip_symbols: "\<exists>ds. b64_symbols (b64_encode bs) = Some ds \<and> b64_bytes ds = Some bs"
proof (induction bs rule: b64_encode.induct)
  case 1
  then show ?case by simp
next
  case (2 a)
  show ?case
    unfolding b64_encode.simps Let_def b64_symbols_enc6 b64_symbols.simps(1) option.map
    using b64_group1 by blast
next
  case (3 a b)
  show ?case
    unfolding b64_encode.simps Let_def b64_symbols_enc6 b64_symbols.simps(1) option.map
    using b64_group2 by blast
next
  case (4 a b c bs)
  then obtain ds where ds: "b64_symbols (b64_encode bs) = Some ds" "b64_bytes ds = Some bs" by blast
  show ?case
    unfolding b64_encode.simps Let_def b64_symbols_enc6 ds(1) option.map
    using b64_group3 [of a b c ds] ds(2) by simp
qed

lemma b64_roundtrip: "b64_DecodeString (b64_encode bs) = Inr bs"
  using b64_roundtrip_symbols [of bs] by (auto simp: b64_DecodeString_def)

lemma b64_encode_chars: "c \<in> set (b64_encode bs) \<Longrightarrow> c \<in> set b64_alphabet"
  by (induction bs rule: b64_encode.induct) (auto simp: Let_def enc6_in)

lemma b64_encode_clean: "CHR ''|'' \<notin> set (b64_encode bs)" "CHR 0x0A \<notin> set (b64_encode bs)"
  using alphabet_chars [rule_format, OF b64_encode_chars] by metis+

lemma b64_encode_length: "3 * length (b64_encode bs) \<ge> 4 * length bs"
  by (induction bs rule: b64_encode.induct) (simp_all add: Let_def)

end
