(* ===== verification/ClientStart.thy ===== *)
theory ClientStart
  imports Negotiation CmdRunner Listener Mtls Base64
begin

text \<open>
  Starting a plugin from the host: \<open>NewClient\<close>, \<open>SecureConfig.Check\<close> and \<open>Client.Start\<close> with its
  stages in the order of the code (option checks, versions and environment, checksum, automatic
  mTLS, choice and start of the runner, the handshake line), \<open>loadServerCert\<close> and \<open>reattach\<close>
  (\<open>client.go\<close>). The client is a record; the world outside (operating system, cryptography, name
  resolution, the event that ends the wait for the first line) is a record of results.
\<close>

section \<open>The client\<close>

text \<open>
  The type argument is the type of values of the interface \<open>ClientProtocol\<close>. \<open>doneCtx\<close> is
  \<open>None\<close> before the context exists and afterwards whether it is cancelled; the wait groups are
  their counters.
\<close>

record 'p client =
  config :: client_config
  exited :: bool
  address :: "net_addr option"
  c_runner :: "attached_runner option"
  c_client :: "'p option"
  c_protocol :: protocol
  doneCtx :: "bool option"
  negotiatedVersion :: int
  clientWaitGroup :: nat
  pipesWaitGroup :: nat
  processKilled :: bool
  killOnce :: bool
  killBodyRuns :: nat
  unixSocketCfg :: unix_socket_config
  grpcMuxerOnce :: bool
  grpcMuxer :: "nat option"
  grpcMuxerErr :: "goerror option"

definition empty_unix_cfg :: unix_socket_config where
  "empty_unix_cfg = \<lparr>us_Group = [], us_TempDir = [], us_socketDir = []\<rparr>"

definition new_client :: "client_config \<Rightarrow> 'p client" where
  "new_client cfg =
     \<lparr>config = cfg, exited = False, address = None, c_runner = None, c_client = None,
      c_protocol = ProtocolInvalid, doneCtx = None, negotiatedVersion = 0, clientWaitGroup = 0,
      pipesWaitGroup = 0, processKilled = False, killOnce = False, killBodyRuns = 0,
      unixSocketCfg = empty_unix_cfg, grpcMuxerOnce = False, grpcMuxer = None, grpcMuxerErr = None\<rparr>"

text \<open>The defaults \<open>NewClient\<close> fills in; \<open>defaultLogger\<close> names the logger it creates.\<close>

definition with_defaults :: "nat \<Rightarrow> client_config \<Rightarrow> client_config" where
  "with_defaults defaultLogger cfg =
     (let c1 = (if cc_MinPort cfg = 0 \<and> cc_MaxPort cfg = 0
                then cfg\<lparr>cc_MinPort := 10000, cc_MaxPort := 25000\<rparr> else cfg);
          c2 = (if cc_StartTimeout c1 = 0 then c1\<lparr>cc_StartTimeout := 60 * second\<rparr> else c1);
          c3 = (if cc_Stderr c2 = None then c2\<lparr>cc_Stderr := Some Discard\<rparr> else c2);
          c4 = (if cc_SyncStdout c3 = None then c3\<lparr>cc_SyncStdout := Some Discard\<rparr> else c3);
          c5 = (if cc_SyncStderr c4 = None then c4\<lparr>cc_SyncStderr := Some Discard\<rparr> else c4);
          c6 = (if cc_AllowedProtocols c5 = None
                then c5\<lparr>cc_AllowedProtocols := Some [ProtocolNetRPC]\<rparr> else c5);
          c7 = (if cc_Logger c6 = None then c6\<lparr>cc_Logger := Some defaultLogger\<rparr> else c6)
      in if cc_PluginLogBufferSize c7 = 0
         then c7\<lparr>cc_PluginLogBufferSize := defaultPluginLogBufferSize\<rparr> else c7)"

text \<open>
  \<open>NewClient\<close>: the client, and the managed clients, known by reference, with the new reference
  appended when the configuration says so.
\<close>

definition NewClient :: "nat \<Rightarrow> client_config \<Rightarrow> nat \<Rightarrow> nat list \<Rightarrow> 'p client \<times> nat list" where
  "NewClient defaultLogger cfg ref managedClients =
     (let cfg' = with_defaults defaultLogger cfg
      in (new_client cfg', if cc_Managed cfg' then managedClients @ [ref] else managedClients))"

section \<open>The world outside\<close>

text \<open>What ends the wait for the first line; a closed channel gives the empty line and \<open>False\<close>.\<close>

datatype first_event = StartTimeoutFired | ProcessExited | FirstLine string bool

record start_world =
  w_platform :: platform
  w_Environ :: "string list"
  w_open :: "string \<Rightarrow> (string \<times> goerror option) res"
  w_crypto :: crypto_ops
  w_perms :: perm_ops
  w_MkdirTemp :: "string \<Rightarrow> string res"
  w_StdoutPipe :: "goerror option"
  w_StderrPipe :: "goerror option"
  w_proc :: proc_ops
  w_notes :: note_ops
  w_event :: first_event
  w_ResolveTCPAddr :: "string \<Rightarrow> net_addr res"
  w_ResolveUnixAddr :: "string \<Rightarrow> net_addr res"
  w_FindProcess :: "int \<Rightarrow> goerror option"
  w_Dial :: "net_addr \<Rightarrow> goerror option"

section \<open>SecureConfig.Check\<close>

text \<open>
  Opening a file gives its contents up to the first read error, if there is one. What is read is
  written to the hash, whose state stays with the configuration.
\<close>

definition SecureConfig_Check ::
  "(string \<Rightarrow> (string \<times> goerror option) res) \<Rightarrow> secure_config \<Rightarrow> string \<Rightarrow> bool res \<times> secure_config" where
  "SecureConfig_Check open s filePath =
     (if length (Checksum s) = 0 then (Inl (Sentinel ErrSecureConfigNoChecksum), s)
      else case Hash s of
             None \<Rightarrow> (Inl (Sentinel ErrSecureConfigNoHash), s)
           | Some h \<Rightarrow>
               (case open filePath of
                  Inl err \<Rightarrow> (Inl err, s)
                | Inr (contents, read_err) \<Rightarrow>
                    (let h' = h\<lparr>hash_written := hash_written h @ contents\<rparr>;
                         s' = s\<lparr>Hash := Some h'\<rparr>
                     in case read_err of
                          Some err \<Rightarrow> (Inl err, s')
                        | None \<Rightarrow>
                            (let sum = hash_fun h' (hash_written h')
                             in (Inr (sum = Checksum s), s')))))"

section \<open>The stages of Start\<close>

definition start_options :: "client_config \<Rightarrow> goerror option" where
  "start_options cfg =
     (let mutuallyExclusiveOptions =
            (if cc_Cmd cfg \<noteq> None then 1 else 0) + (if cc_Reattach cfg \<noteq> None then 1 else 0)
            + (if cc_RunnerFunc cfg \<noteq> None then 1 else (0::nat))
      in if mutuallyExclusiveOptions \<noteq> 1
         then Some (ErrNew ''exactly one of Cmd, or Reattach, or RunnerFunc must be set'')
         else if cc_SecureConfig cfg \<noteq> None \<and> cc_Reattach cfg \<noteq> None
         then Some (Sentinel ErrSecureConfigAndReattach)
         else if cc_GRPCBrokerMultiplex cfg \<and> cc_Reattach cfg \<noteq> None
         then Some (ErrNew ''gRPC broker multiplexing is not supported with Reattach config'')
         else case cc_Reattach cfg of
                None \<Rightarrow> None
              | Some ra \<Rightarrow>
                  (if ra_Addr ra = None then Some (ErrNew ''ReattachConfig.Addr is required'')
                   else if ra_ReattachFunc ra = None \<and> ra_Pid ra = 0
                   then Some (ErrNew ''ReattachConfig requires Pid or ReattachFunc'')
                   else None))"

definition start_env :: "client_config \<Rightarrow> string list" where
  "start_env cfg =
     [MagicCookieKey (cc_Handshake cfg) @ ''='' @ MagicCookieValue (cc_Handshake cfg),
      ''PLUGIN_MIN_PORT='' @ show_nat (unat (cc_MinPort cfg)),
      ''PLUGIN_MAX_PORT='' @ show_nat (unat (cc_MaxPort cfg)),
      ''PLUGIN_PROTOCOL_VERSIONS='' @ join_with '','' (versionStrings cfg)]
     @ (if cc_GRPCBrokerMultiplex cfg then [envMultiplexGRPC @ ''=true''] else [])"

definition exec_Command_empty :: exec_cmd where
  "exec_Command_empty =
     \<lparr>cmd_Path = [], cmd_Env = [], cmd_Stdin = False, cmd_SysProcAttr = None, cmd_Process = None\<rparr>"

definition start_cmd :: "string list \<Rightarrow> client_config \<Rightarrow> exec_cmd" where
  "start_cmd environ cfg =
     (let cmd = (case cc_Cmd cfg of Some cmd \<Rightarrow> cmd | None \<Rightarrow> exec_Command_empty);
          inherited = (if \<not> cc_SkipHostEnv cfg then environ else [])
      in cmd\<lparr>cmd_Env := cmd_Env cmd @ inherited @ start_env cfg, cmd_Stdin := True\<rparr>)"

definition add_env :: "string \<Rightarrow> string \<Rightarrow> exec_cmd \<Rightarrow> exec_cmd" where
  "add_env k v cmd = cmd\<lparr>cmd_Env := cmd_Env cmd @ [k @ ''='' @ v]\<rparr>"

text \<open>The command is shared with the configuration when it came from there.\<close>

definition store_cmd :: "exec_cmd \<Rightarrow> client_config \<Rightarrow> client_config" where
  "store_cmd cmd cfg = (case cc_Cmd cfg of Some _ \<Rightarrow> cfg\<lparr>cc_Cmd := Some cmd\<rparr> | None \<Rightarrow> cfg)"

definition start_secure :: "start_world \<Rightarrow> exec_cmd \<Rightarrow> client_config \<Rightarrow> goerror option \<times> client_config" where
  "start_secure W cmd cfg =
     (case cc_SecureConfig cfg of
        None \<Rightarrow> (None, cfg)
      | Some s \<Rightarrow>
          (case SecureConfig_Check (w_open W) s (cmd_Path cmd) of
             (Inl err, s') \<Rightarrow> (Some (Errorf ''error verifying checksum: %w'' [FErr err]), cfg\<lparr>cc_SecureConfig := Some s'\<rparr>)
           | (Inr ok, s') \<Rightarrow>
               (if ok then None else Some (Sentinel ErrChecksumsDoNotMatch), cfg\<lparr>cc_SecureConfig := Some s'\<rparr>)))"

text \<open>Automatic mTLS: the certificate for the plugin's environment and the host's TLS settings.\<close>

definition start_mtls :: "crypto_ops \<Rightarrow> exec_cmd \<Rightarrow> client_config \<Rightarrow> (exec_cmd \<times> client_config) res" where
  "start_mtls C cmd cfg =
     (if cc_AutoMTLS cfg
      then (case generateCert C of
              Inl err \<Rightarrow> Inl err
            | Inr (certPEM, keyPEM) \<Rightarrow>
                (case tls_X509KeyPair C certPEM keyPEM of
                   Inl err \<Rightarrow> Inl err
                 | Inr cert \<Rightarrow>
                     Inr (add_env ''PLUGIN_CLIENT_CERT'' certPEM cmd,
                          cfg\<lparr>cc_TLSConfig :=
                                Some \<lparr>Certificates = cert, RequireAndVerifyClientCert = True,
                                      MinVersionTLS12 = True, ServerName = ''localhost'',
                                      RootCAs = None, ClientCAs = None\<rparr>\<rparr>)))
      else Inr (cmd, cfg))"

text \<open>
  The runner: the caller's with a socket directory of its own, or the default one. The result is
  the runner and, for the default one, its state; the socket directory and the command are kept
  whatever happens.
\<close>

definition choose_runner ::
  "start_world \<Rightarrow> client_config \<Rightarrow> unix_socket_config \<Rightarrow> exec_cmd
   \<Rightarrow> (runner \<times> cmd_runner option) res \<times> unix_socket_config \<times> exec_cmd" where
  "choose_runner W cfg us cmd =
     (case cc_RunnerFunc cfg of
        Some runnerFunc \<Rightarrow>
          (case w_MkdirTemp W (us_TempDir us) of
             Inl err \<Rightarrow> (Inl err, us\<lparr>us_socketDir := []\<rparr>, cmd)
           | Inr dir \<Rightarrow>
               (let us' = us\<lparr>us_socketDir := dir\<rparr>;
                    perm_err = (if us_Group us' \<noteq> []
                                then fst (setGroupWritable (w_perms W) dir (us_Group us') mode_0770) else None)
                in case perm_err of
                     Some err \<Rightarrow> (Inl err, us', cmd)
                   | None \<Rightarrow>
                       (let cmd' = add_env EnvUnixSocketDir dir cmd
                        in case runnerFunc cmd' dir of
                             Inl err \<Rightarrow> (Inl err, us', cmd')
                           | Inr r \<Rightarrow> (Inr (r, None), us', cmd'))))
      | None \<Rightarrow>
          (case NewCmdRunner (w_StdoutPipe W) (w_StderrPipe W) cmd of
             Inl err \<Rightarrow> (Inl err, us, cmd)
           | Inr cr \<Rightarrow>
               (let cr' = (if cc_DisableProcessGroupKill cfg then SetDisableProcessGroup True cr else cr)
                in (Inr (cmd_as_runner (w_platform W) (w_proc W) (w_notes W) cr', Some cr'), us, cmd))))"

section \<open>The handshake line\<close>

text \<open>
  \<open>loadServerCert\<close>. The two assignments go through the pointer \<open>c.config.TLSConfig\<close>: when it is
  nil they panic.
\<close>

definition nil_deref :: string where
  "nil_deref = ''invalid memory address or nil pointer dereference''"

definition loadServerCert :: "crypto_ops \<Rightarrow> string \<Rightarrow> client_config \<Rightarrow> (goerror option \<times> client_config) outcome" where
  "loadServerCert C cert cfg =
     (case b64_DecodeString cert of
        Inl err \<Rightarrow> Ret (Some err, cfg)
      | Inr asn1 \<Rightarrow>
          (case x509_ParseCertificate C asn1 of
             Inl err \<Rightarrow> Ret (Some err, cfg)
           | Inr x509Cert \<Rightarrow>
               (case cc_TLSConfig cfg of
                  None \<Rightarrow> Panic nil_deref
                | Some t \<Rightarrow>
                    Ret (None, cfg\<lparr>cc_TLSConfig := Some (t\<lparr>RootCAs := Some [x509Cert], ClientCAs := Some [x509Cert]\<rparr>)\<rparr>))))"

datatype hs_result = HsErr "net_addr option" goerror | HsOk net_addr | HsPanic string

definition resolve_addr :: "start_world \<Rightarrow> string \<Rightarrow> string \<Rightarrow> net_addr res" where
  "resolve_addr W network addr =
     (if network = ''tcp'' then w_ResolveTCPAddr W addr
      else if network = ''unix'' then w_ResolveUnixAddr W addr
      else Inl (Errorf ''unknown address type: %s'' [FStr addr]))"

text \<open>The last checks of the line: the certificate of the plugin and the multiplexing segment.\<close>

definition check_mux :: "'p client \<Rightarrow> string list \<Rightarrow> goerror option" where
  "check_mux c parts =
     (if cc_GRPCBrokerMultiplex (config c) \<and> c_protocol c = ProtocolGRPC
      then (if length parts \<le> 6
            then Some (Errorf (''%w; for Go plugins, you will need to update the ''
                               @ ''github.com/arloliu/go-plugin dependency and recompile'')
                         [FErr (Sentinel ErrGRPCBrokerMuxNotSupported)])
            else (case ParseBool (parts ! 6) of
                    Inl _ \<Rightarrow> Some (Errorf ''error parsing %q as a boolean for gRPC broker multiplexing support''
                                      [FStr (parts ! 6)])
                  | Inr muxSupported \<Rightarrow>
                      (if \<not> muxSupported then Some (Sentinel ErrGRPCBrokerMuxNotSupported) else None)))
      else None)"

definition handshake_tail ::
  "start_world \<Rightarrow> string list \<Rightarrow> net_addr \<Rightarrow> 'p client \<Rightarrow> 'p client \<times> hs_result" where
  "handshake_tail W parts addr c =
     (case (if length parts \<ge> 6 \<and> length (parts ! 5) > 50
            then loadServerCert (w_crypto W) (parts ! 5) (config c) else Ret (None, config c)) of
        Panic m \<Rightarrow> (c, HsPanic m)
      | Ret (Some err, cfg) \<Rightarrow> (c, HsErr None (Errorf ''error parsing server cert: %w'' [FErr err]))
      | Ret (None, cfg) \<Rightarrow>
          (let c' = c\<lparr>config := cfg\<rparr>
           in case check_mux c' parts of
                Some err \<Rightarrow> (c', HsErr None err)
              | None \<Rightarrow> (c', HsOk addr)))"

definition unrecognized_message :: "runner \<Rightarrow> string \<Rightarrow> bool \<Rightarrow> goerror" where
  "unrecognized_message r line ok =
     ErrNew (''Unrecognized remote plugin message: '' @ line
             @ (if \<not> ok then nl @ ''Failed to read any lines from plugin's stdout'' else [])
             @ (if runner_Diagnose r \<noteq> [] then nl @ runner_Diagnose r else []))"

definition handshake ::
  "start_world \<Rightarrow> runner \<Rightarrow> attached_runner \<Rightarrow> string \<Rightarrow> bool \<Rightarrow> 'p client \<Rightarrow> 'p client \<times> hs_result" where
  "handshake W r started rawline ok c =
     (let line = TrimSpace rawline;
          parts = split_on (CHR ''|'') line
      in if length parts < 4 then (c, HsErr None (unrecognized_message r line ok))
         else case Atoi (parts ! 0) of
                Inl err \<Rightarrow> (c, HsErr None (Errorf ''error parsing core protocol version: %w'' [FErr (num_err err)]))
              | Inr coreProtocol \<Rightarrow>
                  (if coreProtocol \<noteq> CoreProtocolVersion
                   then (c, HsErr None (Errorf (''incompatible core API version with plugin. Plugin version: %s, Core version: %d'' @ nl @ nl
                                            @ ''To fix this, the plugin usually only needs to be recompiled.'' @ nl
                                            @ ''Please report this to the plugin author'')
                                          [FStr (parts ! 0), FInt CoreProtocolVersion]))
                   else case checkProtoVersion (config c) (parts ! 1) of
                          Inl err \<Rightarrow> (c, HsErr None err)
                        | Inr (version, pluginSet) \<Rightarrow>
                            (let c1 = c\<lparr>config := (config c)\<lparr>cc_Plugins := pluginSet\<rparr>, negotiatedVersion := version\<rparr>
                             in case PluginToHost started (parts ! 2) (parts ! 3) of
                                  Inl err \<Rightarrow> (c1, HsErr None err)
                                | Inr (network, addr) \<Rightarrow>
                                    (case resolve_addr W network addr of
                                       Inl err \<Rightarrow> (c1, HsErr None err)
                                     | Inr a \<Rightarrow>
                                         (let proto = (if length parts \<ge> 5 then parts ! 4 else ProtocolNetRPC);
                                              c2 = c1\<lparr>c_protocol := proto\<rparr>;
                                              allowed = (case cc_AllowedProtocols (config c2) of None \<Rightarrow> [] | Some ps \<Rightarrow> ps)
                                          in if proto \<notin> set allowed
                                             then (c2, HsErr (Some a) (Errorf ''unsupported plugin protocol %q. Supported: %v''
                                                                         [FStr proto, FStrs allowed]))
                                             else handshake_tail W parts a c2)))))"

section \<open>reattach\<close>

text \<open>
  The result of \<open>Start\<close>: the client, the two return values, whether a process was started,
  whether the runner was killed on the way out, and the panic that left the call, if any.
\<close>

record 'p start_result =
  sr_client :: "'p client"
  sr_addr :: "net_addr option"
  sr_err :: "goerror option"
  sr_started :: bool
  sr_killed :: bool
  sr_panic :: "string option"

definition sr_ret :: "'p client \<Rightarrow> net_addr option \<Rightarrow> goerror option \<Rightarrow> 'p start_result" where
  "sr_ret c a e = \<lparr>sr_client = c, sr_addr = a, sr_err = e, sr_started = False, sr_killed = False, sr_panic = None\<rparr>"

definition reattach_runner :: "start_world \<Rightarrow> reattach_config \<Rightarrow> net_addr \<Rightarrow> attached_runner res" where
  "reattach_runner W ra addr =
     (case ra_ReattachFunc ra of
        Some r \<Rightarrow> r
      | None \<Rightarrow> map_sum id (reattached_as_attached (w_proc W))
                  (ReattachFunc (w_FindProcess W) (w_Dial W) (ra_Pid ra) addr))"

text \<open>The plugins of the declared version become the client's plugins.\<close>

definition reattach_plugins :: "int \<Rightarrow> client_config \<Rightarrow> client_config" where
  "reattach_plugins version cfg =
     (let cfg' = default_version version cfg
      in case map_of (host_plugins cfg') version of
           None \<Rightarrow> cfg'
         | Some plugins \<Rightarrow> cfg'\<lparr>cc_Plugins := plugins\<rparr>)"

definition reattach :: "start_world \<Rightarrow> reattach_config \<Rightarrow> net_addr \<Rightarrow> 'p client \<Rightarrow> 'p start_result" where
  "reattach W ra addr c =
     (case reattach_runner W ra addr of
        Inl err \<Rightarrow> sr_ret c None (Some err)
      | Inr r \<Rightarrow>
          (let c1 = c\<lparr>doneCtx := Some False, clientWaitGroup := clientWaitGroup c + 1,
                      address := Some addr,
                      c_protocol := (if ra_Protocol ra = ProtocolInvalid then ProtocolNetRPC else ra_Protocol ra),
                      negotiatedVersion := ra_ProtocolVersion ra,
                      config := reattach_plugins (ra_ProtocolVersion ra) (config c)\<rparr>;
               c2 = (if \<not> ra_Test ra then c1\<lparr>c_runner := Some r\<rparr> else c1)
           in sr_ret c2 (address c2) None))"

section \<open>Start\<close>

text \<open>
  From the running process to the result: the context and the four goroutines exist, the first
  event decides, and an error or a panic kills the runner.
\<close>

definition start_wait ::
  "start_world \<Rightarrow> runner \<Rightarrow> attached_runner \<Rightarrow> 'p client \<Rightarrow> 'p start_result" where
  "start_wait W r started c =
     (let c1 = c\<lparr>doneCtx := Some False, pipesWaitGroup := pipesWaitGroup c + 2,
                 clientWaitGroup := clientWaitGroup c + 4\<rparr>;
          res = (\<lambda>cl a e pn. \<lparr>sr_client = cl, sr_addr = a, sr_err = e, sr_started = True,
                              sr_killed = (e \<noteq> None \<or> pn \<noteq> None), sr_panic = pn\<rparr>)
      in case w_event W of
           StartTimeoutFired \<Rightarrow>
             res (c1\<lparr>address := None\<rparr>) None (Some (ErrNew ''timeout while waiting for plugin to start'')) None
         | ProcessExited \<Rightarrow>
             res (c1\<lparr>address := None\<rparr>) None (Some (ErrNew ''plugin exited before we could connect'')) None
         | FirstLine line ok \<Rightarrow>
             (case handshake W r started line ok c1 of
                (c2, HsErr a err) \<Rightarrow> res c2 a (Some err) None
              | (c2, HsPanic m) \<Rightarrow> res c2 None None (Some m)
              | (c2, HsOk a) \<Rightarrow> res (c2\<lparr>address := Some a\<rparr>) (Some a) None None))"

text \<open>The runner is recorded before it is started; the default runner's command is the configuration's.\<close>

definition start_launch ::
  "start_world \<Rightarrow> runner \<Rightarrow> cmd_runner option \<Rightarrow> 'p client \<Rightarrow> 'p start_result" where
  "start_launch W r cr c =
     (let c1 = c\<lparr>c_runner := Some (attached r),
                 config := (case cr of
                              None \<Rightarrow> config c
                            | Some cr0 \<Rightarrow> store_cmd (cr_cmd (snd (CmdRunner_Start (w_platform W) (w_proc W) cr0))) (config c))\<rparr>
      in case runner_Start r of
           Inl err \<Rightarrow> sr_ret c1 None (Some err)
         | Inr started \<Rightarrow> start_wait W r started (c1\<lparr>c_runner := Some started\<rparr>))"

definition start_prepare ::
  "start_world \<Rightarrow> 'p client \<Rightarrow> 'p client \<times> (runner \<times> cmd_runner option) res" where
  "start_prepare W c =
     (let cfg1 = register_versions (config c);
          cmd1 = start_cmd (w_Environ W) cfg1
      in case start_secure W cmd1 (store_cmd cmd1 cfg1) of
           (Some err, cfg2) \<Rightarrow> (c\<lparr>config := cfg2\<rparr>, Inl err)
         | (None, cfg2) \<Rightarrow>
             (case start_mtls (w_crypto W) cmd1 cfg2 of
                Inl err \<Rightarrow> (c\<lparr>config := cfg2\<rparr>, Inl err)
              | Inr (cmd2, cfg3) \<Rightarrow>
                  (let us = (case cc_UnixSocketConfig cfg3 of None \<Rightarrow> unixSocketCfg c | Some u \<Rightarrow> u);
                       cmd3 = (if us_Group us \<noteq> [] then add_env EnvUnixSocketGroup (us_Group us) cmd2 else cmd2)
                   in case choose_runner W cfg3 us cmd3 of
                        (r, us', cmd4) \<Rightarrow> (c\<lparr>config := store_cmd cmd4 cfg3, unixSocketCfg := us'\<rparr>, r))))"

definition Start :: "start_world \<Rightarrow> 'p client \<Rightarrow> 'p start_result" where
  "Start W c =
     (case address c of
        Some a \<Rightarrow> sr_ret c (Some a) None
      | None \<Rightarrow>
          (case start_options (config c) of
             Some err \<Rightarrow> sr_ret c None (Some err)
           | None \<Rightarrow>
               (case cc_Reattach (config c) of
                  Some ra \<Rightarrow>
                    (case ra_Addr ra of
                       None \<Rightarrow> sr_ret c None (Some (ErrNew ''ReattachConfig.Addr is required''))
                     | Some addr \<Rightarrow> reattach W ra addr c)
                | None \<Rightarrow>
                    (case start_prepare W c of
                       (c1, Inl err) \<Rightarrow> sr_ret c1 None (Some err)
                     | (c1, Inr (r, cr)) \<Rightarrow> start_launch W r cr c1))))"

section \<open>Facts on the result of Start\<close>

lemmas start_defs = Start_def start_launch_def start_wait_def reattach_def sr_ret_def

lemma sr_ret_simps [simp]:
  "sr_client (sr_ret c a e) = c" "sr_addr (sr_ret c a e) = a" "sr_err (sr_ret c a e) = e"
  "sr_started (sr_ret c a e) = False" "sr_killed (sr_ret c a e) = False" "sr_panic (sr_ret c a e) = None"
  by (simp_all add: sr_ret_def)

text \<open>A start succeeded when it returned without error and without panic.\<close>

definition start_ok :: "'p start_result \<Rightarrow> bool" where
  "start_ok r \<longleftrightarrow> sr_err r = None \<and> sr_panic r = None"

lemma start_wait_killed:
  "sr_started (start_wait W r st c) \<and> (sr_killed (start_wait W r st c) \<longleftrightarrow> \<not> start_ok (start_wait W r st c))"
  by (auto simp: start_wait_def start_ok_def Let_def split: first_event.splits prod.splits hs_result.splits)

lemma start_launch_killed:
  "sr_killed (start_launch W r cr c) \<longleftrightarrow> sr_started (start_launch W r cr c) \<and> \<not> start_ok (start_launch W r cr c)"
  using start_wait_killed by (auto simp: start_launch_def Let_def split: sum.splits)

lemma reattach_simps:
  "sr_started (reattach W ra a c) = False" "sr_killed (reattach W ra a c) = False"
  "sr_panic (reattach W ra a c) = None"
  by (auto simp: reattach_def Let_def split: sum.splits)

lemma start_killed:
  "sr_killed (Start W c) \<longleftrightarrow> sr_started (Start W c) \<and> \<not> start_ok (Start W c)"
  by (auto simp: Start_def reattach_simps start_launch_killed split: option.splits prod.splits sum.splits)

text \<open>No stage before the end of the wait touches the address.\<close>

lemma handshake_address: "address (fst (handshake W r st l ok c)) = address c"
  by (auto simp: handshake_def handshake_tail_def Let_def
      split: sum.splits prod.splits outcome.splits option.splits if_splits)

definition address_set :: "'p start_result \<Rightarrow> bool" where
  "address_set r \<longleftrightarrow>
     address (sr_client r) = (if start_ok r then sr_addr r else None) \<and> (start_ok r \<longrightarrow> sr_addr r \<noteq> None)"

lemma handshake_address_eq: "handshake W r st l ok c = (c2, h) \<Longrightarrow> address c2 = address c"
  using handshake_address [of W r st l ok c] by simp

lemma start_wait_address: "address c = None \<Longrightarrow> address_set (start_wait W r st c)"
  by (auto simp: start_wait_def address_set_def start_ok_def Let_def handshake_address_eq
      split: first_event.splits prod.splits hs_result.splits)

lemma ret_err_address: "address c = None \<Longrightarrow> address_set (sr_ret c a (Some e))"
  by (simp add: address_set_def start_ok_def)

lemma reattach_address: "address c = None \<Longrightarrow> address_set (reattach W ra a c)"
  by (simp add: reattach_def address_set_def start_ok_def Let_def split: sum.splits)

lemma start_launch_address: "address c = None \<Longrightarrow> address_set (start_launch W r cr c)"
  unfolding start_launch_def Let_def
  by (auto split: sum.splits intro!: start_wait_address ret_err_address)

lemma start_prepare_address: "address (fst (start_prepare W c)) = address c"
  by (auto simp: start_prepare_def Let_def split: prod.splits option.splits sum.splits)

lemma start_address:
  "address (sr_client (Start W c)) =
     (if start_ok (Start W c) then sr_addr (Start W c) else address c)
   \<and> (start_ok (Start W c) \<longrightarrow> sr_addr (Start W c) \<noteq> None)"
proof (cases "address c")
  case None
  have prep: "address c1 = None" if "start_prepare W c = (c1, x)" for c1 x
    using start_prepare_address [of W c] that None by simp
  have "address_set (Start W c)"
    unfolding Start_def None
    by (auto split: option.splits prod.splits sum.splits
        intro!: ret_err_address reattach_address start_launch_address None dest: prep)
  with None show ?thesis by (simp add: address_set_def)
qed (simp add: Start_def start_ok_def)

section \<open>Facts on the checksum\<close>

lemma SecureConfig_Check_True:
  "fst (SecureConfig_Check open s path) = Inr True \<longleftrightarrow>
     Checksum s \<noteq> [] \<and> (\<exists>h contents. Hash s = Some h \<and> open path = Inr (contents, None)
        \<and> hash_fun h (hash_written h @ contents) = Checksum s)"
  by (auto simp: SecureConfig_Check_def Let_def split: option.splits sum.splits prod.splits)

lemma SecureConfig_Check_state:
  assumes "Checksum s \<noteq> []" and "Hash s = Some h" and "open path = Inr (contents, None)"
  shows "snd (SecureConfig_Check open s path) = s\<lparr>Hash := Some (h\<lparr>hash_written := hash_written h @ contents\<rparr>)\<rparr>"
  using assms by (simp add: SecureConfig_Check_def Let_def)

lemma start_prepare_secure:
  assumes "start_prepare W c = (c1, Inr x)" and "cc_SecureConfig (config c) = Some s"
  shows "fst (SecureConfig_Check (w_open W) s (cmd_Path (start_cmd (w_Environ W) (config c)))) = Inr True"
proof -
  have sc: "cc_SecureConfig (store_cmd cmd (register_versions (config c))) = Some s" for cmd
    using assms(2)
    by (simp add: store_cmd_def register_versions_def default_version_def Let_def split: option.splits)
  have pth: "cmd_Path (start_cmd E (register_versions (config c))) = cmd_Path (start_cmd E (config c))" for E
    by (simp add: start_cmd_def register_versions_def default_version_def Let_def split: option.splits)
  show ?thesis
    using assms(1) sc
    by (auto simp: start_prepare_def start_secure_def Let_def pth split: prod.splits option.splits sum.splits if_splits)
qed

lemma start_secure_started:
  assumes "sr_started (Start W c)" and "cc_SecureConfig (config c) = Some s"
  shows "fst (SecureConfig_Check (w_open W) s (cmd_Path (start_cmd (w_Environ W) (config c)))) = Inr True"
  using assms start_prepare_secure [of W c _ _ s]
  by (auto simp: Start_def reattach_simps split: option.splits prod.splits sum.splits)

section \<open>Properties\<close>

text \<open>
  C7: \<open>Start\<close> cleans up after itself: it kills the runner on its way out exactly when a process was
  started and the start did not succeed, by an error or by a panic. The client's address is set
  exactly by a successful start, to the address that is returned.
\<close>
theorem start_outcome:
  "(sr_killed (Start W c) \<longleftrightarrow> sr_started (Start W c) \<and> \<not> start_ok (Start W c))
   \<and> address (sr_client (Start W c)) = (if start_ok (Start W c) then sr_addr (Start W c) else address c)
   \<and> (start_ok (Start W c) \<longrightarrow> sr_addr (Start W c) \<noteq> None)"
  using start_killed start_address by blast

text \<open>
  A started client stays started: after a successful \<open>Start\<close>, calling it again returns the same
  address and changes nothing, whatever happens outside.
\<close>
theorem start_idempotent:
  assumes "start_ok (Start W c)"
  shows "Start W' (sr_client (Start W c)) = sr_ret (sr_client (Start W c)) (sr_addr (Start W c)) None"
  using assms start_address [of W c] by (auto simp: Start_def [of W'])

text \<open>
  C22: With a \<open>SecureConfig\<close>, no process is started unless the hash of what was written to it, with
  the file's contents last, is the configured checksum.
\<close>
theorem start_checksum:
  assumes "sr_started (Start W c)" and "cc_SecureConfig (config c) = Some s"
  shows "\<exists>h contents. Hash s = Some h
    \<and> w_open W (cmd_Path (start_cmd (w_Environ W) (config c))) = Inr (contents, None)
    \<and> hash_fun h (hash_written h @ contents) = Checksum s"
  using start_secure_started [OF assms] by (auto simp: SecureConfig_Check_True)

text \<open>
  \<open>SecureConfig.Check\<close> does not reset the hash: a second check of the same configuration, as in
  a second \<open>Start\<close> after a failed one, hashes the file's contents after the first copy of them, and
  compares that with the checksum.
\<close>
theorem secure_check_again:
  assumes "Checksum s \<noteq> []" and "Hash s = Some h" and "open path = Inr (contents, None)"
  shows "fst (SecureConfig_Check open (snd (SecureConfig_Check open s path)) path) =
    Inr (hash_fun h (hash_written h @ contents @ contents) = Checksum s)"
  using assms by (simp add: SecureConfig_Check_state SecureConfig_Check_def Let_def)

theorem secure_check_again_witness:
  "fst (SecureConfig_Check (\<lambda>p. Inr (''bin'', None)) \<lparr>Checksum = ''bin'', Hash = Some \<lparr>hash_fun = (\<lambda>s. s), hash_written = []\<rparr>\<rparr> ''/p'') = Inr True
   \<and> fst (SecureConfig_Check (\<lambda>p. Inr (''bin'', None))
       (snd (SecureConfig_Check (\<lambda>p. Inr (''bin'', None)) \<lparr>Checksum = ''bin'', Hash = Some \<lparr>hash_fun = (\<lambda>s. s), hash_written = []\<rparr>\<rparr> ''/p'')) ''/p'') = Inr False"
proof
  let ?s = "\<lparr>Checksum = ''bin'', Hash = Some \<lparr>hash_fun = (\<lambda>s. s), hash_written = []\<rparr>\<rparr>"
  show "fst (SecureConfig_Check (\<lambda>p. Inr (''bin'', None)) ?s ''/p'') = Inr True"
    by (simp add: SecureConfig_Check_def)
  have "Hash ?s = Some \<lparr>hash_fun = (\<lambda>s. s), hash_written = []\<rparr>" by simp
  from secure_check_again [OF _ this, of "\<lambda>p. Inr (''bin'', None)" "''/p''" "''bin''"]
  show "fst (SecureConfig_Check (\<lambda>p. Inr (''bin'', None)) (snd (SecureConfig_Check (\<lambda>p. Inr (''bin'', None)) ?s ''/p'')) ''/p'') = Inr False"
    by simp
qed

text \<open>
  A plugin can crash its host: a handshake line with a certificate that parses makes a host
  without TLS settings panic with a nil dereference.
\<close>
theorem unsolicited_cert_panics:
  assumes "length parts \<ge> 6" and "parts ! 5 = b64_encode der" and "length der \<ge> 38"
    and "x509_ParseCertificate (w_crypto W) der = Inr x" and "cc_TLSConfig (config c) = None"
  shows "handshake_tail W parts addr c = (c, HsPanic nil_deref)"
proof -
  have "50 < length (b64_encode der)" using b64_encode_length [of der] assms(3) by linarith
  with assms show ?thesis by (simp add: handshake_tail_def loadServerCert_def b64_roundtrip)
qed


section \<open>A concrete host\<close>

definition demo_attached :: attached_runner where
  "demo_attached = \<lparr>runner_ID = ''42'', PluginToHost = cmd_PluginToHost, HostToPlugin = cmd_HostToPlugin,
                    runner_Wait = None, runner_Kill = None\<rparr>"

definition demo_run :: runner where
  "demo_run = \<lparr>attached = demo_attached, runner_Start = Inr demo_attached, runner_Name = ''/p'', runner_Diagnose = []\<rparr>"

definition demo_hash :: hash_state where
  "demo_hash = \<lparr>hash_fun = (\<lambda>s. s), hash_written = []\<rparr>"

definition demo_config :: client_config where
  "demo_config =
     \<lparr>cc_Handshake = \<lparr>ProtocolVersion = 1, MagicCookieKey = ''COOKIE'', MagicCookieValue = ''hello''\<rparr>,
      cc_Plugins = Some [(''kv'', \<lparr>plugin_impl = 0, is_GRPCPlugin = True\<rparr>)], cc_VersionedPlugins = None,
      cc_Cmd = None, cc_Reattach = None, cc_RunnerFunc = Some (\<lambda>cmd dir. Inr demo_run),
      cc_SecureConfig = Some \<lparr>Checksum = ''bin'', Hash = Some demo_hash\<rparr>,
      cc_TLSConfig = None, cc_Managed = False, cc_MinPort = 0, cc_MaxPort = 0, cc_StartTimeout = 0, cc_Stderr = None,
      cc_SyncStdout = None, cc_SyncStderr = None, cc_AllowedProtocols = Some [ProtocolGRPC], cc_Logger = None,
      cc_PluginLogBufferSize = 0, cc_AutoMTLS = False, cc_GRPCDialOptions = [], cc_GRPCBrokerMultiplex = False,
      cc_SkipHostEnv = True, cc_UnixSocketConfig = None, cc_PingTimeout = 0, cc_ShutdownTimeout = 0,
      cc_DisableProcessGroupKill = False\<rparr>"

definition demo_notes :: note_ops where
  "demo_notes = \<lparr>os_Stat = (\<lambda>p. None), os_Getuid = 0, os_Getgid = 0, user_name = (\<lambda>u. None), group_name = (\<lambda>g. None),
                 elf_machine = (\<lambda>p. None), macho_cpu = (\<lambda>p. None), pe_machine = (\<lambda>p. None), goarch = ''amd64''\<rparr>"

definition demo_client :: "nat client" where "demo_client = new_client demo_config"

definition demo_start :: start_world where
  "demo_start =
     \<lparr>w_platform = Posix, w_Environ = [], w_open = (\<lambda>p. Inr (''bin'', None)), w_crypto = demo_crypto,
      w_perms = \<lparr>user_LookupGroup = (\<lambda>g. Inr ''0''), os_Chown = (\<lambda>p g. None), os_Chmod = (\<lambda>p m. None)\<rparr>,
      w_MkdirTemp = (\<lambda>d. Inr ''/tmp/d''), w_StdoutPipe = None, w_StderrPipe = None, w_proc = demo_ops,
      w_notes = demo_notes, w_event = FirstLine ''1|1|unix|/plugin1|grpc|'' True,
      w_ResolveTCPAddr = (\<lambda>a. Inr \<lparr>addr_Network = ''tcp'', addr_String = a\<rparr>),
      w_ResolveUnixAddr = (\<lambda>a. Inr \<lparr>addr_Network = ''unix'', addr_String = a\<rparr>),
      w_FindProcess = (\<lambda>p. None), w_Dial = (\<lambda>a. None)\<rparr>"

lemma Atoi_one: "Atoi ''1'' = Inr 1"
proof -
  have "Itoa 1 = ''1''" by code_simp
  with Atoi_Itoa [of 1] show ?thesis by (simp add: is_int64_def)
qed

lemma demo_line: "split_on (CHR ''|'') (TrimSpace ''1|1|unix|/plugin1|grpc|'') = [''1'', ''1'', ''unix'', ''/plugin1'', ''grpc'', []]"
  by (simp add: TrimSpace_printable printable_def)

lemma demo_handshake_ok:
  assumes "host_plugins (config c) = [(1, cc_Plugins demo_config)]" "cc_AllowedProtocols (config c) = Some [ProtocolGRPC]"
    "cc_GRPCBrokerMultiplex (config c) = False"
  shows "snd (handshake demo_start r demo_attached ''1|1|unix|/plugin1|grpc|'' True c)
    = HsOk \<lparr>addr_Network = ''unix'', addr_String = ''/plugin1''\<rparr>"
  using assms
  by (simp add: handshake_def demo_line Atoi_one CoreProtocolVersion_def checkProtoVersion_def demo_attached_def
      cmd_PluginToHost_def resolve_addr_def demo_start_def handshake_tail_def check_mux_def Let_def protocol_defs)

lemma demo_start_ok: "start_ok (Start demo_start demo_client) \<and> sr_started (Start demo_start demo_client)"
proof -
  obtain c1 where p: "start_prepare demo_start demo_client = (c1, Inr (demo_run, None))"
    and c1: "host_plugins (config c1) = [(1, cc_Plugins demo_config)]"
      "cc_AllowedProtocols (config c1) = Some [ProtocolGRPC]" "cc_GRPCBrokerMultiplex (config c1) = False"
    by (simp add: start_prepare_def start_secure_def SecureConfig_Check_def start_mtls_def choose_runner_def
        demo_client_def new_client_def register_versions_def default_version_def host_plugins_def store_cmd_def
        demo_config_def demo_hash_def demo_start_def empty_unix_cfg_def Let_def)
  have "address demo_client = None" "cc_Reattach (config demo_client) = None" "start_options (config demo_client) = None"
    by (simp_all add: demo_client_def new_client_def demo_config_def start_options_def)
  then have S: "Start demo_start demo_client = start_launch demo_start demo_run None c1" by (simp add: Start_def p)
  let ?c2 = "c1\<lparr>c_runner := Some demo_attached, doneCtx := Some False, pipesWaitGroup := pipesWaitGroup c1 + 2,
               clientWaitGroup := clientWaitGroup c1 + 4\<rparr>"
  obtain c3 where "handshake demo_start demo_run demo_attached ''1|1|unix|/plugin1|grpc|'' True ?c2
      = (c3, HsOk \<lparr>addr_Network = ''unix'', addr_String = ''/plugin1''\<rparr>)"
    using demo_handshake_ok [of ?c2 demo_run] c1
    by (cases "handshake demo_start demo_run demo_attached ''1|1|unix|/plugin1|grpc|'' True ?c2") auto
  moreover have "runner_Start demo_run = Inr demo_attached" "attached demo_run = demo_attached"
    "w_event demo_start = FirstLine ''1|1|unix|/plugin1|grpc|'' True"
    by (simp_all add: demo_run_def demo_start_def)
  ultimately show ?thesis by (simp add: S start_launch_def start_wait_def start_ok_def)
qed

theorem start_outcome_witness: "sr_addr (Start demo_start demo_client) \<noteq> None \<and> \<not> sr_killed (Start demo_start demo_client)"
  using start_outcome [of demo_start demo_client] demo_start_ok by blast

theorem start_idempotent_witness:
  "Start demo_start (sr_client (Start demo_start demo_client)) =
     sr_ret (sr_client (Start demo_start demo_client)) (sr_addr (Start demo_start demo_client)) None"
  by (rule start_idempotent) (simp add: demo_start_ok)

theorem start_checksum_witness:
  "\<exists>contents. w_open demo_start (cmd_Path (start_cmd (w_Environ demo_start) (config demo_client))) = Inr (contents, None)
     \<and> contents = ''bin''"
proof -
  have "cc_SecureConfig (config demo_client) = Some \<lparr>Checksum = ''bin'', Hash = Some demo_hash\<rparr>"
    by (simp add: demo_client_def new_client_def demo_config_def)
  with start_checksum [of demo_start demo_client] demo_start_ok show ?thesis by (auto simp: demo_hash_def)
qed

theorem unsolicited_cert_panics_witness:
  "handshake_tail demo_start [''1'', ''1'', ''unix'', ''/plugin1'', ''grpc'', b64_encode (replicate 60 CHR ''d'')]
     \<lparr>addr_Network = ''unix'', addr_String = ''/plugin1''\<rparr> demo_client = (demo_client, HsPanic nil_deref)"
  by (rule unsolicited_cert_panics [where der = "replicate 60 CHR ''d''"])
     (simp_all add: demo_start_def demo_crypto_def demo_client_def new_client_def demo_config_def)


end
