(* ===== verification/Serve.thy ===== *)
theory Serve
  imports Negotiation Listener Mtls Base64
begin

text \<open>
  The plugin's \<open>main\<close>: \<open>Serve\<close> (\<open>server.go\<close>) from the cookie check to the deferred clean-up, with
  the handshake line it prints, the registration of plugins in \<open>GRPCServer.Init\<close>
  (\<open>grpc_server.go\<close>), and \<open>ServeMux\<close> (\<open>server_mux.go\<close>). Everything outside the process is a record
  of results; the effects are collected in a record.
\<close>

section \<open>The world outside\<close>

datatype serve_end = ContextDone | ServerDone

record serve_world =
  sv_env :: env
  sv_windows :: bool
  sv_listen :: "string \<Rightarrow> goerror option"
  sv_unix :: unix_ops
  sv_crypto :: crypto_ops
  sv_stdout_pipe :: "goerror option"
  sv_stderr_pipe :: "goerror option"
  sv_GRPCServer :: "plugin \<Rightarrow> goerror option"
  sv_pid :: int
  sv_end :: serve_end

section \<open>Listeners as Serve holds them\<close>

text \<open>
  The variable \<open>listener\<close>: what \<open>serverListener\<close> returned, the same behind TLS, or the multiplexer,
  which keeps only its address.
\<close>

datatype serve_listener = PlainListener listen_result | TLSListener tls_config listen_result | MuxListener listen_result

fun listen_addr :: "listen_result \<Rightarrow> net_addr" where
  "listen_addr (TCPListener port) = \<lparr>addr_Network = ''tcp'', addr_String = loopback port\<rparr>"
| "listen_addr (UnixListener path) = \<lparr>addr_Network = ''unix'', addr_String = path\<rparr>"

fun serve_addr :: "serve_listener \<Rightarrow> net_addr" where
  "serve_addr (PlainListener l) = listen_addr l"
| "serve_addr (TLSListener t l) = listen_addr l"
| "serve_addr (MuxListener l) = listen_addr l"

fun close_listen :: "listen_result \<Rightarrow> fs_state \<Rightarrow> fs_state" where
  "close_listen (TCPListener port) s = s"
| "close_listen (UnixListener path) s = snd (rmListener_Close (newDeleteFileListener path) s)"

text \<open>
  \<open>listener.Close()\<close>. A TLS listener closes the one it wraps; the multiplexer closes its session
  only.
\<close>

fun close_serve_listener :: "serve_listener \<Rightarrow> fs_state \<Rightarrow> fs_state" where
  "close_serve_listener (PlainListener l) s = close_listen l s"
| "close_serve_listener (TLSListener t l) s = close_listen l s"
| "close_serve_listener (MuxListener l) s = s"

section \<open>Servers\<close>

text \<open>The server that is built: plugins, TLS settings of the server itself, multiplexing.\<close>

datatype server_protocol =
    RPCServer_of "plugin_set option"
  | GRPCServer_of "plugin_set option" "tls_config option" bool

text \<open>The loop of \<open>GRPCServer.Init\<close> over the plugins; the net/rpc server has nothing to initialise.\<close>

fun register_plugins :: "(plugin \<Rightarrow> goerror option) \<Rightarrow> plugin_set \<Rightarrow> goerror option" where
  "register_plugins reg [] = None"
| "register_plugins reg ((k, raw) # ps) =
     (if \<not> is_GRPCPlugin raw then Some (Errorf ''%q is not a GRPC-compatible plugin'' [FStr k])
      else case reg raw of
             Some err \<Rightarrow> Some (Errorf ''error registering %q: %w'' [FStr k, FErr err])
           | None \<Rightarrow> register_plugins reg ps)"

fun server_Init :: "(plugin \<Rightarrow> goerror option) \<Rightarrow> server_protocol \<Rightarrow> goerror option" where
  "server_Init reg (RPCServer_of ps) = None"
| "server_Init reg (GRPCServer_of None t m) = None"
| "server_Init reg (GRPCServer_of (Some ps) t m) = register_plugins reg ps"

section \<open>The result of Serve\<close>

text \<open>
  Besides how it ended: the file system, what was printed, the reattach configuration sent to the
  test, the server and listener that ran, whether interrupts were being ignored, whether the
  process's standard output and error were the pipes while it served and whether they still are
  afterwards, and whether the test's channel was closed.
\<close>

datatype serve_exit = Returned | Exited int | Panicked goerror | PanickedMsg string

record serve_out =
  so_exit :: serve_exit
  so_fs :: fs_state
  so_stdout :: "string list"
  so_reattach :: "reattach_config option"
  so_served :: "(server_protocol \<times> serve_listener) option"
  so_interrupts_ignored :: bool
  so_stdio_synced :: bool
  so_stdio_after :: bool
  so_CloseCh :: bool

text \<open>
  The first deferred function, which runs last: leave the process with the exit code, or close the
  test's channel. \<open>exitCode\<close> is negative as long as no error set it.
\<close>

definition serve_exit_code :: "serve_config \<Rightarrow> int \<Rightarrow> serve_out \<Rightarrow> serve_out" where
  "serve_exit_code opts exitCode r =
     (if sc_Test opts = None \<and> exitCode \<ge> 0 then r\<lparr>so_exit := Exited exitCode\<rparr>
      else r\<lparr>so_CloseCh := (case sc_Test opts of None \<Rightarrow> False | Some t \<Rightarrow> test_CloseCh t)\<rparr>)"

definition out_at :: "fs_state \<Rightarrow> serve_out" where
  "out_at s = \<lparr>so_exit = Returned, so_fs = s, so_stdout = [], so_reattach = None, so_served = None,
     so_interrupts_ignored = False, so_stdio_synced = False, so_stdio_after = False, so_CloseCh = False\<rparr>"

text \<open>Leaving once the listener exists: it is closed first.\<close>

definition serve_leave :: "serve_config \<Rightarrow> int \<Rightarrow> serve_listener \<Rightarrow> serve_out \<Rightarrow> serve_out" where
  "serve_leave opts exitCode l r = serve_exit_code opts exitCode (r\<lparr>so_fs := close_serve_listener l (so_fs r)\<rparr>)"

section \<open>Stages\<close>

definition check_cookie :: "env \<Rightarrow> serve_config \<Rightarrow> bool" where
  "check_cookie E opts \<longleftrightarrow>
     (case sc_Test opts of
        Some _ \<Rightarrow> True
      | None \<Rightarrow> MagicCookieKey (sc_Handshake opts) \<noteq> [] \<and> MagicCookieValue (sc_Handshake opts) \<noteq> []
                 \<and> E (MagicCookieKey (sc_Handshake opts)) = MagicCookieValue (sc_Handshake opts))"

text \<open>
  Automatic mTLS on the plugin's side: the TLS settings and the server's certificate for the
  handshake line. An error of the cryptography panics.
\<close>

definition serve_mtls :: "crypto_ops \<Rightarrow> string \<Rightarrow> goerror + (tls_config \<times> string)" where
  "serve_mtls C clientCert =
     (let clientCertPool = (case x509_AppendCertsFromPEM C clientCert of None \<Rightarrow> [] | Some certs \<Rightarrow> certs)
      in case generateCert C of
           Inl err \<Rightarrow> Inl err
         | Inr (certPEM, keyPEM) \<Rightarrow>
             (case tls_X509KeyPair C certPEM keyPEM of
                Inl err \<Rightarrow> Inl err
              | Inr cert \<Rightarrow>
                  Inr (\<lparr>Certificates = cert, RequireAndVerifyClientCert = True, MinVersionTLS12 = True,
                        ServerName = ''localhost'', RootCAs = Some clientCertPool, ClientCAs = Some clientCertPool\<rparr>,
                       b64_encode (cert ! 0))))"

definition build_server ::
  "env \<Rightarrow> protocol \<Rightarrow> plugin_set option \<Rightarrow> tls_config option \<Rightarrow> listen_result
   \<Rightarrow> (server_protocol \<times> serve_listener) option" where
  "build_server E protoType pluginSet tls l =
     (if protoType = ProtocolNetRPC
      then Some (RPCServer_of pluginSet, case tls of Some t \<Rightarrow> TLSListener t l | None \<Rightarrow> PlainListener l)
      else if protoType = ProtocolGRPC
      then (let multiplex = (case ParseBool (E envMultiplexGRPC) of Inr b \<Rightarrow> b | Inl _ \<Rightarrow> False)
            in Some (GRPCServer_of pluginSet tls multiplex, if multiplex then MuxListener l else PlainListener l))
      else None)"

definition protocolLine :: "env \<Rightarrow> int \<Rightarrow> net_addr \<Rightarrow> protocol \<Rightarrow> string \<Rightarrow> string" where
  "protocolLine E protoVersion addr protoType serverCert =
     Itoa CoreProtocolVersion @ ''|'' @ Itoa protoVersion @ ''|'' @ addr_Network addr @ ''|''
       @ addr_String addr @ ''|'' @ protoType @ ''|'' @ serverCert
       @ (if E envMultiplexGRPC \<noteq> [] then ''|true'' else [])"

text \<open>Announcing the address: the handshake line, or the test's reattach configuration.\<close>

definition announce :: "serve_world \<Rightarrow> serve_config \<Rightarrow> int \<Rightarrow> net_addr \<Rightarrow> protocol \<Rightarrow> string \<Rightarrow> serve_out \<Rightarrow> serve_out" where
  "announce W opts protoVersion addr protoType serverCert r =
     (case sc_Test opts of
        None \<Rightarrow> r\<lparr>so_stdout := so_stdout r @ [protocolLine (sv_env W) protoVersion addr protoType serverCert]\<rparr>
      | Some t \<Rightarrow>
          (if test_ReattachConfigCh t
           then r\<lparr>so_reattach := Some \<lparr>ra_Protocol = protoType, ra_ProtocolVersion = protoVersion, ra_Addr = Some addr,
                                        ra_Pid = sv_pid W, ra_ReattachFunc = None, ra_Test = True\<rparr>\<rparr>
           else r))"

text \<open>
  Interrupts are ignored outside of tests. The standard streams are replaced by the pipes outside of
  tests and in tests that ask for it, where a deferred function puts the old ones back.
\<close>

definition sync_stdio :: "serve_config \<Rightarrow> serve_out \<Rightarrow> serve_out" where
  "sync_stdio opts r =
     (let synced = (case sc_Test opts of None \<Rightarrow> True | Some t \<Rightarrow> test_SyncStdio t)
      in r\<lparr>so_interrupts_ignored := (sc_Test opts = None), so_stdio_synced := synced,
           so_stdio_after := (synced \<and> sc_Test opts = None)\<rparr>)"

text \<open>
  From the pipes to the end. \<open>os.Exit\<close> in the middle runs no deferred function. When the context
  of a test ends, the listener is closed before the deferred function closes it again.
\<close>

definition serve_run ::
  "serve_world \<Rightarrow> serve_config \<Rightarrow> int \<Rightarrow> protocol \<Rightarrow> plugin_set option \<Rightarrow> tls_config option \<Rightarrow> string
   \<Rightarrow> listen_result \<Rightarrow> fs_state \<Rightarrow> serve_out" where
  "serve_run W opts protoVersion protoType pluginSet tls serverCert l s =
     (if sv_stdout_pipe W \<noteq> None \<or> sv_stderr_pipe W \<noteq> None then (out_at s)\<lparr>so_exit := Exited 1\<rparr>
      else case build_server (sv_env W) protoType pluginSet tls l of
             None \<Rightarrow> (serve_leave opts (-1) (PlainListener l) (out_at s))
                       \<lparr>so_exit := PanickedMsg (''unknown server protocol: '' @ protoType)\<rparr>
           | Some (server, listener) \<Rightarrow>
               (case server_Init (sv_GRPCServer W) server of
                  Some err \<Rightarrow> serve_leave opts (-1) listener (out_at s)
                | None \<Rightarrow>
                    (let r = announce W opts protoVersion (serve_addr listener) protoType serverCert (out_at s);
                         r1 = (sync_stdio opts r)\<lparr>so_served := Some (server, listener)\<rparr>;
                         cancelled = (case sc_Test opts of None \<Rightarrow> False
                                      | Some t \<Rightarrow> test_Context t \<and> sv_end W = ContextDone);
                         r2 = (if cancelled then r1\<lparr>so_fs := close_serve_listener listener (so_fs r1)\<rparr> else r1)
                     in serve_leave opts (-1) listener r2)))"

definition serve_tls ::
  "serve_world \<Rightarrow> serve_config \<Rightarrow> int \<Rightarrow> protocol \<Rightarrow> plugin_set option \<Rightarrow> listen_result \<Rightarrow> fs_state \<Rightarrow> serve_out" where
  "serve_tls W opts protoVersion protoType pluginSet l s =
     (case (case sc_TLSProvider opts of None \<Rightarrow> Inr None | Some r \<Rightarrow> r) of
        Inl err \<Rightarrow> serve_leave opts (-1) (PlainListener l) (out_at s)
      | Inr tls \<Rightarrow>
          (let clientCert = sv_env W ''PLUGIN_CLIENT_CERT''
           in if tls \<noteq> None \<and> clientCert \<noteq> []
              then serve_leave opts 1 (PlainListener l) (out_at s)
              else if clientCert \<noteq> []
              then (case serve_mtls (sv_crypto W) clientCert of
                      Inl err \<Rightarrow> (serve_leave opts (-1) (PlainListener l) (out_at s))\<lparr>so_exit := Panicked err\<rparr>
                    | Inr (tls', serverCert) \<Rightarrow>
                        serve_run W opts protoVersion protoType pluginSet (Some tls') serverCert l s)
              else serve_run W opts protoVersion protoType pluginSet tls [] l s))"

definition Serve :: "serve_world \<Rightarrow> serve_config \<Rightarrow> fs_state \<Rightarrow> serve_out" where
  "Serve W opts s =
     (if \<not> check_cookie (sv_env W) opts then serve_exit_code opts 1 (out_at s)
      else case protocolVersion (sv_env W) opts of
             ((protoVersion, protoType, pluginSet), opts') \<Rightarrow>
               (case serverListener (sv_windows W) (sv_listen W) (sv_unix W) (sv_env W)
                       (unixSocketConfigFromEnv (sv_env W)) s of
                  (Inl err, s') \<Rightarrow> serve_exit_code opts' (-1) (out_at s')
                | (Inr l, s') \<Rightarrow> serve_tls W opts' protoVersion protoType pluginSet l s'))"

text \<open>\<open>ServeMux\<close>: the configuration that the command line names.\<close>

definition ServeMux :: "serve_world \<Rightarrow> string list \<Rightarrow> (string \<rightharpoonup> serve_config) \<Rightarrow> fs_state \<Rightarrow> serve_out" where
  "ServeMux W args m s =
     (if length args \<noteq> 2 then (out_at s)\<lparr>so_exit := Exited 1\<rparr>
      else case m (args ! 1) of
             None \<Rightarrow> (out_at s)\<lparr>so_exit := Exited 1\<rparr>
           | Some opts \<Rightarrow> Serve W opts s)"

section \<open>Facts\<close>

lemma sync_stdio_simps [simp]:
  "so_exit (sync_stdio opts r) = so_exit r" "so_fs (sync_stdio opts r) = so_fs r"
  "so_stdout (sync_stdio opts r) = so_stdout r" "so_reattach (sync_stdio opts r) = so_reattach r"
  "so_served (sync_stdio opts r) = so_served r" "so_CloseCh (sync_stdio opts r) = so_CloseCh r"
  by (simp_all add: sync_stdio_def Let_def)

text \<open>The TLS settings and the certificate that \<open>Serve\<close> goes on with, if it does.\<close>

definition tls_choice :: "serve_world \<Rightarrow> serve_config \<Rightarrow> (tls_config option \<times> string) option" where
  "tls_choice W opts =
     (case (case sc_TLSProvider opts of None \<Rightarrow> Inr None | Some r \<Rightarrow> r) of
        Inl err \<Rightarrow> None
      | Inr tls \<Rightarrow>
          (if sv_env W ''PLUGIN_CLIENT_CERT'' = [] then Some (tls, [])
           else if tls \<noteq> None then None
           else case serve_mtls (sv_crypto W) (sv_env W ''PLUGIN_CLIENT_CERT'') of
                  Inl err \<Rightarrow> None
                | Inr (t, cert) \<Rightarrow> Some (Some t, cert)))"

lemma serve_leave_simps [simp]:
  "so_stdout (serve_leave opts x l r) = so_stdout r" "so_served (serve_leave opts x l r) = so_served r"
  "so_reattach (serve_leave opts x l r) = so_reattach r"
  "so_fs (serve_leave opts x l r) = close_serve_listener l (so_fs r)"
  "so_stdout (serve_exit_code opts x r) = so_stdout r" "so_served (serve_exit_code opts x r) = so_served r"
  "so_fs (serve_exit_code opts x r) = so_fs r" "so_reattach (serve_exit_code opts x r) = so_reattach r"
  by (simp_all add: serve_leave_def serve_exit_code_def)

lemma out_at_simps [simp]:
  "so_stdout (out_at s) = []" "so_served (out_at s) = None" "so_fs (out_at s) = s" "so_exit (out_at s) = Returned"
  "so_reattach (out_at s) = None"
  by (simp_all add: out_at_def)

lemma announce_simps [simp]:
  "so_fs (announce W opts pv a pt c r) = so_fs r" "so_exit (announce W opts pv a pt c r) = so_exit r"
  "so_stdout (announce W opts pv a pt c r) =
     so_stdout r @ (if sc_Test opts = None then [protocolLine (sv_env W) pv a pt c] else [])"
  by (simp_all add: announce_def split: option.splits)

lemma serve_leave_exit [simp]:
  "so_exit (serve_exit_code opts x r) = (if sc_Test opts = None \<and> x \<ge> 0 then Exited x else so_exit r)"
  "so_exit (serve_leave opts x l r) = (if sc_Test opts = None \<and> x \<ge> 0 then Exited x else so_exit r)"
  by (simp_all add: serve_leave_def serve_exit_code_def)

lemma build_server_Some:
  "pt = ProtocolNetRPC \<or> pt = ProtocolGRPC \<Longrightarrow> build_server E pt ps tls l \<noteq> None"
  by (auto simp: build_server_def Let_def)

lemma serve_tls_choice:
  "tls_choice W opts = Some (tls, cert) \<Longrightarrow>
     serve_tls W opts pv pt ps l s = serve_run W opts pv pt ps tls cert l s"
  by (auto simp: serve_tls_def tls_choice_def Let_def split: sum.splits option.splits if_splits)

lemma serve_tls_none:
  assumes "tls_choice W opts = None"
  shows "so_stdout (serve_tls W opts pv pt ps l s) = []" "so_served (serve_tls W opts pv pt ps l s) = None"
    "so_fs (serve_tls W opts pv pt ps l s) = close_listen l s"
  using assms by (auto simp: serve_tls_def tls_choice_def Let_def split: sum.splits option.splits if_splits)

lemma Serve_reaches:
  assumes "check_cookie (sv_env W) opts"
    and "protocolVersion (sv_env W) opts = ((pv, pt, ps), opts')"
    and "serverListener (sv_windows W) (sv_listen W) (sv_unix W) (sv_env W) (unixSocketConfigFromEnv (sv_env W)) s = (Inr l, s')"
  shows "Serve W opts s = serve_tls W opts' pv pt ps l s'"
  using assms by (simp add: Serve_def)

lemma protocolVersion_opts:
  "snd (protocolVersion E opts) = opts\<lparr>sc_VersionedPlugins := Some (served_plugins opts)\<rparr>"
  by (simp add: protocolVersion_def Let_def)

lemma Serve_cases:
  obtains (early) "so_stdout (Serve W opts s) = []" "so_served (Serve W opts s) = None"
  | (run) pv pt ps opts' l s' tls cert where "check_cookie (sv_env W) opts"
      "protocolVersion (sv_env W) opts = ((pv, pt, ps), opts')"
      "serverListener (sv_windows W) (sv_listen W) (sv_unix W) (sv_env W) (unixSocketConfigFromEnv (sv_env W)) s = (Inr l, s')"
      "tls_choice W opts' = Some (tls, cert)" "Serve W opts s = serve_run W opts' pv pt ps tls cert l s'"
      "sc_Test opts' = sc_Test opts"
proof (cases "check_cookie (sv_env W) opts")
  case True
  obtain pv pt ps opts' where pv: "protocolVersion (sv_env W) opts = ((pv, pt, ps), opts')"
    by (metis prod_cases3 surj_pair)
  then have tst: "sc_Test opts' = sc_Test opts" using protocolVersion_opts [of "sv_env W" opts] by auto
  obtain x s' where sl: "serverListener (sv_windows W) (sv_listen W) (sv_unix W) (sv_env W)
      (unixSocketConfigFromEnv (sv_env W)) s = (x, s')" by fastforce
  show thesis
  proof (cases x)
    case (Inl e)
    with True pv sl show thesis by (intro early) (simp_all add: Serve_def)
  next
    case (Inr l)
    note S = Serve_reaches [OF True pv sl [unfolded Inr]]
    show thesis
    proof (cases "tls_choice W opts'")
      case None
      with S show thesis by (intro early) (simp_all add: serve_tls_none)
    next
      case (Some tc)
      then obtain tls cert where tc: "tls_choice W opts' = Some (tls, cert)" by (cases tc) auto
      with S show thesis by (intro run [OF True pv sl [unfolded Inr] tc _ tst]) (simp add: serve_tls_choice)
    qed
  qed
next
  case False
  then show thesis by (intro early) (simp_all add: Serve_def)
qed

lemma build_server_addr: "build_server E pt ps tls l = Some (srv, lis) \<Longrightarrow> serve_addr lis = listen_addr l"
  by (auto simp: build_server_def Let_def split: if_splits option.splits)

lemma serve_run_served:
  assumes "sv_stdout_pipe W = None" "sv_stderr_pipe W = None"
    and "build_server (sv_env W) pt ps tls l = Some (srv, lis)"
  shows "so_served (serve_run W opts pv pt ps tls cert l s) =
      (if server_Init (sv_GRPCServer W) srv = None then Some (srv, lis) else None)"
    and "so_stdout (serve_run W opts pv pt ps tls cert l s) =
      (if sc_Test opts = None \<and> server_Init (sv_GRPCServer W) srv = None
       then [protocolLine (sv_env W) pv (listen_addr l) pt cert] else [])"
  using assms by (simp_all add: serve_run_def Let_def build_server_addr split: option.split)

lemma serve_run_not:
  assumes "sv_stdout_pipe W \<noteq> None \<or> sv_stderr_pipe W \<noteq> None \<or> build_server (sv_env W) pt ps tls l = None"
  shows "so_served (serve_run W opts pv pt ps tls cert l s) = None" "so_stdout (serve_run W opts pv pt ps tls cert l s) = []"
  using assms by (auto simp: serve_run_def)

lemma serve_run_out:
  "so_served (serve_run W opts pv pt ps tls cert l s) = Some (srv, lis) \<longleftrightarrow>
     sv_stdout_pipe W = None \<and> sv_stderr_pipe W = None
     \<and> build_server (sv_env W) pt ps tls l = Some (srv, lis) \<and> server_Init (sv_GRPCServer W) srv = None" (is ?A)
  "so_stdout (serve_run W opts pv pt ps tls cert l s) =
     (if sc_Test opts = None \<and> so_served (serve_run W opts pv pt ps tls cert l s) \<noteq> None
      then [protocolLine (sv_env W) pv (listen_addr l) pt cert] else [])" (is ?B)
proof -
  have "?A \<and> ?B"
  proof (cases "sv_stdout_pipe W \<noteq> None \<or> sv_stderr_pipe W \<noteq> None \<or> build_server (sv_env W) pt ps tls l = None")
    case True
    then show ?thesis by (auto simp: serve_run_not)
  next
    case False
    then obtain srv' lis' where "build_server (sv_env W) pt ps tls l = Some (srv', lis')" by auto
    with False show ?thesis by (auto simp: serve_run_served)
  qed
  then show ?A ?B by blast+
qed

lemma protocolVersion_protocol:
  "fst (snd (fst (protocolVersion E opts))) \<in> {ProtocolNetRPC, ProtocolGRPC}"
proof -
  have "pt \<in> {ProtocolNetRPC, ProtocolGRPC} \<Longrightarrow>
      fst (snd (version_loop g cvs vps vs (v, pt, ps))) \<in> {ProtocolNetRPC, ProtocolGRPC}" for g cvs vps vs v pt ps
  proof (induction vs arbitrary: v pt ps)
    case (Cons w vs)
    have "set_protocol g x pt \<in> {ProtocolNetRPC, ProtocolGRPC}" for x
      using Cons.prems by (auto simp: set_protocol_def split: option.splits list.splits)
    with Cons.IH show ?case by (simp add: Let_def)
  qed simp
  then show ?thesis by (simp add: protocolVersion_def Let_def)
qed

section \<open>Properties\<close>

text \<open>
  C23: \<open>Serve\<close> prints nothing, or exactly one handshake line. It prints the line only outside test
  mode, after the magic cookie matched and with a server that serves, and the line carries the
  negotiated version, the address of the listener, and the transport.
\<close>
theorem serve_handshake_line:
  "so_stdout (Serve W opts s) = [] \<or>
   (\<exists>l s' cert. sc_Test opts = None \<and> check_cookie (sv_env W) opts
      \<and> serverListener (sv_windows W) (sv_listen W) (sv_unix W) (sv_env W) (unixSocketConfigFromEnv (sv_env W)) s = (Inr l, s')
      \<and> so_served (Serve W opts s) \<noteq> None
      \<and> so_stdout (Serve W opts s) =
          [protocolLine (sv_env W)
             (negotiated_version (sint (ProtocolVersion (sc_Handshake opts)))
                (fst ` set (served_plugins opts)) (set (clientVersionsFromEnv (sv_env W))))
             (listen_addr l) (fst (snd (fst (protocolVersion (sv_env W) opts)))) cert])"
proof (cases rule: Serve_cases [of W opts s])
  case (run pv pt ps opts' l s' tls cert)
  show ?thesis
  proof (cases "so_stdout (Serve W opts s) = []")
    case False
    then have "sc_Test opts = None" "so_served (Serve W opts s) \<noteq> None"
      "so_stdout (Serve W opts s) = [protocolLine (sv_env W) pv (listen_addr l) pt cert]"
      using serve_run_out(2) [of W opts' pv pt ps tls cert l s'] run(5,6) by (auto split: if_splits)
    moreover have "pv = negotiated_version (sint (ProtocolVersion (sc_Handshake opts)))
        (fst ` set (served_plugins opts)) (set (clientVersionsFromEnv (sv_env W)))"
      using protocolVersion_refines [of "sv_env W" opts] run(2) by simp
    ultimately show ?thesis using run(1-3) by auto
  qed simp
qed simp

text \<open>
  C24: When the host asks for automatic mTLS, a server that serves has TLS that requires a client
  certificate and trusts exactly the certificates the host sent.
\<close>
theorem serve_auto_mtls:
  assumes "so_served (Serve W opts s) = Some (srv, lis)"
    and "sv_env W ''PLUGIN_CLIENT_CERT'' \<noteq> []"
  shows "\<exists>t. RequireAndVerifyClientCert t \<and> MinVersionTLS12 t
      \<and> ClientCAs t = Some (case x509_AppendCertsFromPEM (sv_crypto W) (sv_env W ''PLUGIN_CLIENT_CERT'') of
                              None \<Rightarrow> [] | Some certs \<Rightarrow> certs)
      \<and> ((\<exists>ps l. srv = RPCServer_of ps \<and> lis = TLSListener t l) \<or> (\<exists>ps m. srv = GRPCServer_of ps (Some t) m))"
proof (cases rule: Serve_cases [of W opts s])
  case (run pv pt ps opts' l s' tls cert)
  have b: "build_server (sv_env W) pt ps tls l = Some (srv, lis)"
    using assms(1) run(5) serve_run_out(1) [of W opts' pv pt ps tls cert l s' srv lis] by simp
  obtain t where t: "tls = Some t" and m: "serve_mtls (sv_crypto W) (sv_env W ''PLUGIN_CLIENT_CERT'') = Inr (t, cert)"
    using run(4) assms(2) by (auto simp: tls_choice_def split: sum.splits option.splits if_splits)
  have "RequireAndVerifyClientCert t" "MinVersionTLS12 t"
    "ClientCAs t = Some (case x509_AppendCertsFromPEM (sv_crypto W) (sv_env W ''PLUGIN_CLIENT_CERT'') of
       None \<Rightarrow> [] | Some certs \<Rightarrow> certs)"
    using m by (auto simp: serve_mtls_def Let_def split: sum.splits)
  moreover have "(\<exists>ps l. srv = RPCServer_of ps \<and> lis = TLSListener t l) \<or> (\<exists>ps m. srv = GRPCServer_of ps (Some t) m)"
    using b t by (auto simp: build_server_def Let_def split: if_splits sum.splits)
  ultimately show ?thesis by blast
qed (use assms(1) in simp)

lemma close_listen_unix:
  assumes "path \<in> set (fs_listening s)"
  shows "path \<notin> set (fs_files (close_listen (UnixListener path) s))"
  using assms
  by (simp add: rmListener_Close_def newDeleteFileListener_def unix_listener_close_def fs_remove_def del_file_def)

lemma close_listen_files: "set (fs_files (close_listen l s)) \<subseteq> set (fs_files s)"
  by (cases l) (auto simp: rmListener_Close_def newDeleteFileListener_def unix_listener_close_def fs_remove_def
      del_file_def)

text \<open>A multiplexed gRPC server.\<close>

definition multiplexed :: "serve_world \<Rightarrow> serve_config \<Rightarrow> bool" where
  "multiplexed W opts \<longleftrightarrow> fst (snd (fst (protocolVersion (sv_env W) opts))) = ProtocolGRPC
     \<and> ParseBool (sv_env W envMultiplexGRPC) = Inr True"

lemma build_server_listener:
  assumes "build_server E pt ps tls l = Some (srv, lis)"
  shows "lis = MuxListener l \<longleftrightarrow> pt = ProtocolGRPC \<and> ParseBool (E envMultiplexGRPC) = Inr True"
    and "lis \<noteq> MuxListener l \<Longrightarrow> close_serve_listener lis = close_listen l"
  using assms
  by (auto simp: build_server_def protocol_defs fun_eq_iff Let_def split: if_splits option.splits sum.splits)

lemma serve_run_fs:
  assumes "pt \<in> {ProtocolNetRPC, ProtocolGRPC}" and "sv_stdout_pipe W = None" and "sv_stderr_pipe W = None"
    and path: "path \<in> set (fs_listening s)" "path \<in> set (fs_files s)"
  shows "path \<in> set (fs_files (so_fs (serve_run W opts pv pt ps tls cert (UnixListener path) s))) \<longleftrightarrow>
    pt = ProtocolGRPC \<and> ParseBool (sv_env W envMultiplexGRPC) = Inr True"
proof -
  let ?l = "UnixListener path"
  have "build_server (sv_env W) pt ps tls ?l \<noteq> None" using assms(1) by (auto simp: build_server_def Let_def)
  then obtain srv lis where b: "build_server (sv_env W) pt ps tls ?l = Some (srv, lis)" by auto
  have fs: "so_fs (serve_run W opts pv pt ps tls cert ?l s) \<in>
      {close_serve_listener lis s, close_serve_listener lis (close_serve_listener lis s)}"
    using assms(2,3) b by (auto simp: serve_run_def Let_def split: option.splits)
  show ?thesis
  proof (cases "lis = MuxListener ?l")
    case True
    with fs path build_server_listener(1) [OF b] show ?thesis by auto
  next
    case False
    have "path \<notin> set (fs_files (close_listen ?l s))" by (rule close_listen_unix [OF path(1)])
    with fs False build_server_listener [OF b] close_listen_files [of ?l "close_listen ?l s"] show ?thesis by auto
  qed
qed

text \<open>
  C25: When \<open>Serve\<close> on a Unix socket comes to its end with working pipes, the socket file is gone,
  except behind a multiplexed gRPC server: there the deferred \<open>listener.Close()\<close> closes the
  multiplexer's session and the socket file stays.
\<close>
theorem serve_socket_file:
  assumes "check_cookie (sv_env W) opts"
    and "serverListener (sv_windows W) (sv_listen W) (sv_unix W) (sv_env W) (unixSocketConfigFromEnv (sv_env W)) s
           = (Inr (UnixListener path), s')"
    and "sv_stdout_pipe W = None" and "sv_stderr_pipe W = None"
  shows "path \<in> set (fs_files (so_fs (Serve W opts s))) \<longleftrightarrow>
    multiplexed W opts \<and> tls_choice W opts \<noteq> None"
proof -
  obtain pv pt ps opts' where pv: "protocolVersion (sv_env W) opts = ((pv, pt, ps), opts')"
    by (metis prod_cases3 surj_pair)
  then have o: "opts' = opts\<lparr>sc_VersionedPlugins := Some (served_plugins opts)\<rparr>"
    using protocolVersion_opts [of "sv_env W" opts] by simp
  then have tc: "tls_choice W opts' = tls_choice W opts" by (simp add: tls_choice_def)
  have pt: "pt \<in> {ProtocolNetRPC, ProtocolGRPC}" using protocolVersion_protocol [of "sv_env W" opts] pv by simp
  have "serverListenerUnix (sv_unix W) (unixSocketConfigFromEnv (sv_env W)) s = (Inr path, s')"
    using assms(2)
    by (cases "serverListenerUnix (sv_unix W) (unixSocketConfigFromEnv (sv_env W)) s")
       (auto simp: serverListener_def map_sum_def split: if_splits sum.splits)
  then have path: "path \<in> set (fs_files s')" "path \<in> set (fs_listening s')"
    using serverListenerUnix_ok by blast+
  note S = Serve_reaches [OF assms(1) pv assms(2)]
  show ?thesis
  proof (cases "tls_choice W opts")
    case None
    with S tc close_listen_unix [OF path(2)] show ?thesis by (simp add: serve_tls_none)
  next
    case (Some x)
    then obtain tls cert where "tls_choice W opts' = Some (tls, cert)" using tc by (cases x) auto
    with S Some serve_run_fs [OF pt assms(3,4) path(2,1)] pv show ?thesis
      by (simp add: serve_tls_choice multiplexed_def)
  qed
qed

text \<open>\<open>Serve\<close> never meets an unknown protocol: its panic for that case is unreachable.\<close>
theorem serve_known_protocol: "so_exit (Serve W opts s) \<noteq> PanickedMsg m"
proof -
  obtain pv pt ps opts' where pv: "protocolVersion (sv_env W) opts = ((pv, pt, ps), opts')"
    by (metis prod_cases3 surj_pair)
  have pt: "pt \<in> {ProtocolNetRPC, ProtocolGRPC}" using protocolVersion_protocol [of "sv_env W" opts] pv by simp
  have "so_exit (serve_run W opts' pv pt ps tls cert l s') \<noteq> PanickedMsg m" for tls cert l s'
    using pt by (simp add: serve_run_def Let_def build_server_Some split: option.splits)
  then show ?thesis
    using pv by (simp add: Serve_def serve_tls_def Let_def split: prod.split sum.split option.split)
qed

section \<open>A concrete plugin\<close>

definition demo_unix :: unix_ops where
  "demo_unix =
     \<lparr>os_CreateTemp = (\<lambda>d. Inr (d @ ''/plugin1'')), tf_Close = None, os_Remove = (\<lambda>p. None), net_Listen_unix = (\<lambda>p. None),
      unix_perms = \<lparr>user_LookupGroup = (\<lambda>g. Inr ''0''), os_Chown = (\<lambda>p g. None), os_Chmod = (\<lambda>p m. None)\<rparr>\<rparr>"

definition demo_handshake :: handshake_config where
  "demo_handshake = \<lparr>ProtocolVersion = 1, MagicCookieKey = ''COOKIE'', MagicCookieValue = ''hello''\<rparr>"

definition demo_plugins :: plugin_set where
  "demo_plugins = [(''kv'', \<lparr>plugin_impl = 0, is_GRPCPlugin = True\<rparr>)]"

definition demo_serve :: serve_config where
  "demo_serve =
     \<lparr>sc_Handshake = demo_handshake, sc_TLSProvider = None, sc_Plugins = Some demo_plugins,
      sc_VersionedPlugins = None, sc_GRPCServer = True, sc_Logger = None, sc_Test = None\<rparr>"

definition demo_env :: env where
  "demo_env = env_of [''COOKIE=hello'', ''PLUGIN_CLIENT_CERT=cert'',
                      ''PLUGIN_MULTIPLEX_GRPC=true'']"

definition demo_world :: serve_world where
  "demo_world =
     \<lparr>sv_env = demo_env, sv_windows = False, sv_listen = (\<lambda>a. None), sv_unix = demo_unix,
      sv_crypto = demo_crypto, sv_stdout_pipe = None, sv_stderr_pipe = None,
      sv_GRPCServer = (\<lambda>p. None), sv_pid = 42, sv_end = ServerDone\<rparr>"

definition demo_fs :: fs_state where "demo_fs = \<lparr>fs_files = [], fs_listening = []\<rparr>"

lemma demo_env_values:
  "demo_env ''COOKIE'' = ''hello''" "demo_env ''PLUGIN_PROTOCOL_VERSIONS'' = []"
  "demo_env ''PLUGIN_CLIENT_CERT'' = ''cert''" "demo_env envMultiplexGRPC = ''true''"
  "demo_env EnvUnixSocketDir = []" "demo_env EnvUnixSocketGroup = []"
  by code_simp+

lemma demo_negotiated:
  "protocolVersion demo_env demo_serve =
     ((1, ProtocolGRPC, Some demo_plugins), demo_serve\<lparr>sc_VersionedPlugins := Some [(1, Some demo_plugins)]\<rparr>)"
  by (simp add: protocolVersion_def clientVersionsFromEnv_def demo_env_values Let_def served_plugins_def
      demo_serve_def demo_handshake_def set_protocol_def amap_get_def demo_plugins_def)

lemma demo_listens:
  "serverListener (sv_windows demo_world) (sv_listen demo_world) (sv_unix demo_world) (sv_env demo_world)
     (unixSocketConfigFromEnv (sv_env demo_world)) demo_fs =
   (Inr (UnixListener ''/plugin1''), \<lparr>fs_files = [''/plugin1''], fs_listening = [''/plugin1'']\<rparr>)"
  by (simp add: serverListener_def serverListenerUnix_def unixSocketConfigFromEnv_def demo_env_values demo_world_def
      demo_unix_def add_file_def del_file_def demo_fs_def)

lemma demo_cookie: "check_cookie (sv_env demo_world) demo_serve"
  by (simp add: check_cookie_def demo_serve_def demo_handshake_def demo_world_def demo_env_values)

lemma demo_tls: "tls_choice demo_world demo_serve \<noteq> None"
  by (simp add: tls_choice_def demo_serve_def demo_world_def demo_env_values serve_mtls_def generateCert_def demo_crypto_def Let_def)

lemma demo_multiplexed: "multiplexed demo_world demo_serve"
  by (simp add: multiplexed_def demo_world_def demo_negotiated demo_env_values ParseBool_def)

theorem serve_socket_file_witness:
  "''/plugin1'' \<in> set (fs_files (so_fs (Serve demo_world demo_serve demo_fs)))"
  using serve_socket_file [OF demo_cookie demo_listens] demo_multiplexed demo_tls by (simp add: demo_world_def)

lemma demo_served: "\<exists>srv lis. so_served (Serve demo_world demo_serve demo_fs) = Some (srv, lis)"
proof -
  obtain tls cert where tc: "tls_choice demo_world (demo_serve\<lparr>sc_VersionedPlugins := Some [(1, Some demo_plugins)]\<rparr>) = Some (tls, cert)"
    using demo_tls by (auto simp: tls_choice_def)
  obtain srv lis where b: "build_server (sv_env demo_world) ProtocolGRPC (Some demo_plugins) tls (UnixListener ''/plugin1'') = Some (srv, lis)"
    using build_server_Some [of ProtocolGRPC] by force
  have "server_Init (sv_GRPCServer demo_world) srv = None"
    using b by (auto simp: build_server_def protocol_defs demo_plugins_def demo_world_def Let_def)
  with Serve_reaches [OF demo_cookie _ demo_listens] demo_negotiated tc b show ?thesis
    by (auto simp: serve_tls_choice serve_run_out demo_world_def)
qed

theorem serve_auto_mtls_witness:
  "\<exists>srv lis (t :: tls_config). so_served (Serve demo_world demo_serve demo_fs) = Some (srv, lis) \<and> RequireAndVerifyClientCert t
     \<and> ClientCAs t = Some [''cert'']"
proof -
  obtain srv lis where s: "so_served (Serve demo_world demo_serve demo_fs) = Some (srv, lis)" using demo_served by blast
  have e: "sv_env demo_world ''PLUGIN_CLIENT_CERT'' = ''cert''"
    "x509_AppendCertsFromPEM (sv_crypto demo_world) ''cert'' = Some [''cert'']"
    by (simp_all add: demo_world_def demo_env_values demo_crypto_def)
  then obtain t :: tls_config where "RequireAndVerifyClientCert t" "ClientCAs t = Some [''cert'']"
    using serve_auto_mtls [OF s] by auto
  with s show ?thesis by blast
qed

end
