(* ===== verification/EndToEnd.thy ===== *)
theory EndToEnd
  imports ClientStart Serve
begin

text \<open>
  Host and plugin together. The environment that \<open>Client.Start\<close> gives the child is the environment
  in which \<open>Serve\<close> runs, and the line that \<open>Serve\<close> prints is the line that the host parses. The
  theorems say when the two agree, on which version, and what an inherited variable can do.
\<close>

section \<open>Trimming and splitting the handshake line\<close>

text \<open>The segments of a handshake line.\<close>

definition line_parts :: "env \<Rightarrow> int \<Rightarrow> net_addr \<Rightarrow> protocol \<Rightarrow> string \<Rightarrow> string list" where
  "line_parts E pv addr pt cert =
     [''1'', Itoa pv, addr_Network addr, addr_String addr, pt, cert] @ (if E envMultiplexGRPC \<noteq> [] then [''true''] else [])"

lemma Itoa_one: "Itoa 1 = ''1''"
  by code_simp

lemma protocolLine_join: "protocolLine E pv addr pt cert = join_with ''|'' (line_parts E pv addr pt cert)"
  by (simp add: protocolLine_def line_parts_def CoreProtocolVersion_def Itoa_one)

lemma b64_printable: "c \<in> set (b64_encode bs) \<Longrightarrow> printable c"
proof -
  have "\<forall>c \<in> set b64_alphabet. printable c" by code_simp
  then show "c \<in> set (b64_encode bs) \<Longrightarrow> printable c" using b64_encode_chars by blast
qed

text \<open>
  What the host reads from the line the plugin wrote, for an address and a transport without the
  separator and a certificate that is empty or encoded.
\<close>

lemma line_roundtrip:
  assumes "CHR ''|'' \<notin> set (addr_Network addr)" "CHR ''|'' \<notin> set (addr_String addr)" "CHR ''|'' \<notin> set pt"
    and cert: "cert = [] \<or> cert = b64_encode der"
  shows "split_on (CHR ''|'') (TrimSpace (protocolLine E pv addr pt cert)) = line_parts E pv addr pt cert"
proof -
  let ?l = "protocolLine E pv addr pt cert"
  have "hd ?l = CHR ''1''" by (simp add: protocolLine_def CoreProtocolVersion_def Itoa_one)
  moreover have "last ?l \<in> {CHR ''|'', CHR ''e''} \<or> cert \<noteq> [] \<and> last ?l = last cert"
    by (simp add: protocolLine_def)
  moreover have "cert \<noteq> [] \<Longrightarrow> printable (last cert)"
    using cert b64_printable [of "last cert" der] by auto
  moreover have "printable (CHR ''1'') \<and> printable (CHR ''|'') \<and> printable (CHR ''e'')" by code_simp
  ultimately have "TrimSpace ?l = ?l" by (intro TrimSpace_printable) auto
  moreover have "CHR ''|'' \<notin> set cert" using cert b64_encode_clean by auto
  then have "\<forall>w \<in> set (line_parts E pv addr pt cert). CHR ''|'' \<notin> set w"
    using assms by (auto simp: line_parts_def)
  then have "split_on (CHR ''|'') ?l = line_parts E pv addr pt cert"
    unfolding protocolLine_join by (intro split_join) (auto simp: line_parts_def)
  ultimately show ?thesis by simp
qed

section \<open>The environment of the child\<close>

text \<open>What \<open>Start\<close> adds after the variables it always sets.\<close>

definition extra_env :: "crypto_ops \<Rightarrow> client_config \<Rightarrow> unix_socket_config \<Rightarrow> string list" where
  "extra_env C cfg us =
     (if cc_AutoMTLS cfg then (case generateCert C of Inr (certPEM, keyPEM) \<Rightarrow> [''PLUGIN_CLIENT_CERT='' @ certPEM] | Inl _ \<Rightarrow> []) else [])
     @ (if us_Group us \<noteq> [] then [EnvUnixSocketGroup @ ''='' @ us_Group us] else [])"

lemma NewCmdRunner_cmd: "NewCmdRunner e1 e2 cmd = Inr cr \<Longrightarrow> cr_cmd cr = cmd"
  by (auto simp: NewCmdRunner_def split: option.splits)

lemma choose_runner_cmd:
  assumes "choose_runner W cfg us cmd = (Inr (r, Some cr), us', cmd')"
  shows "cr_cmd cr = cmd" "cmd' = cmd" "us' = us"
  using assms
  by (auto simp: choose_runner_def SetDisableProcessGroup_def Let_def dest: NewCmdRunner_cmd
      split: option.splits sum.splits if_splits)

lemma start_secure_config:
  assumes "start_secure W cmd cfg = (None, cfg')"
  shows "\<exists>s. cfg' = cfg\<lparr>cc_SecureConfig := s\<rparr>"
proof (cases "cc_SecureConfig cfg")
  case None
  then have "cfg' = cfg" using assms by (simp add: start_secure_def)
  with None show ?thesis by (intro exI [of _ None]) simp
qed (use assms in \<open>auto simp: start_secure_def split: prod.splits sum.splits\<close>)

lemma start_mtls_config:
  assumes "start_mtls C cmd cfg = Inr (cmd', cfg')"
  shows "cmd_Env cmd' = cmd_Env cmd @ extra_env C cfg \<lparr>us_Group = [], us_TempDir = [], us_socketDir = []\<rparr>"
    and "\<exists>t. cfg' = cfg\<lparr>cc_TLSConfig := t\<rparr> \<and> (cc_AutoMTLS cfg \<longrightarrow> t \<noteq> None) \<and> (\<not> cc_AutoMTLS cfg \<longrightarrow> t = cc_TLSConfig cfg)"
proof -
  show "cmd_Env cmd' = cmd_Env cmd @ extra_env C cfg \<lparr>us_Group = [], us_TempDir = [], us_socketDir = []\<rparr>"
    using assms by (auto simp: start_mtls_def extra_env_def add_env_def split: if_splits sum.splits)
  have "cfg' = cfg\<lparr>cc_TLSConfig := cc_TLSConfig cfg'\<rparr> \<and> (cc_AutoMTLS cfg \<longrightarrow> cc_TLSConfig cfg' \<noteq> None)
      \<and> (\<not> cc_AutoMTLS cfg \<longrightarrow> cc_TLSConfig cfg' = cc_TLSConfig cfg)"
    using assms by (auto simp: start_mtls_def split: if_splits sum.splits)
  then show "\<exists>t. cfg' = cfg\<lparr>cc_TLSConfig := t\<rparr> \<and> (cc_AutoMTLS cfg \<longrightarrow> t \<noteq> None) \<and> (\<not> cc_AutoMTLS cfg \<longrightarrow> t = cc_TLSConfig cfg)"
    by blast
qed

lemma store_cmd_keeps [simp]:
  "cc_TLSConfig (store_cmd cmd cfg) = cc_TLSConfig cfg" "host_plugins (store_cmd cmd cfg) = host_plugins cfg"
  "cc_AutoMTLS (store_cmd cmd cfg) = cc_AutoMTLS cfg" "cc_AllowedProtocols (store_cmd cmd cfg) = cc_AllowedProtocols cfg"
  "cc_GRPCBrokerMultiplex (store_cmd cmd cfg) = cc_GRPCBrokerMultiplex cfg"
  by (simp_all add: store_cmd_def host_plugins_def split: option.split)

lemma register_keeps [simp]:
  "cc_TLSConfig (register_versions cfg) = cc_TLSConfig cfg" "cc_AutoMTLS (register_versions cfg) = cc_AutoMTLS cfg"
  "cc_AllowedProtocols (register_versions cfg) = cc_AllowedProtocols cfg"
  "cc_GRPCBrokerMultiplex (register_versions cfg) = cc_GRPCBrokerMultiplex cfg"
  "cc_Handshake (register_versions cfg) = cc_Handshake cfg"
  by (simp_all add: register_versions_def default_version_def Let_def)

lemma start_prepare_child:
  assumes "start_prepare W c = (c1, Inr (r, Some cr))"
  shows "cmd_Env (cr_cmd cr) =
      cmd_Env (case cc_Cmd (config c) of Some cmd \<Rightarrow> cmd | None \<Rightarrow> exec_Command_empty)
      @ (if cc_SkipHostEnv (config c) then [] else w_Environ W)
      @ start_env (register_versions (config c))
      @ extra_env (w_crypto W) (config c) (case cc_UnixSocketConfig (config c) of None \<Rightarrow> unixSocketCfg c | Some u \<Rightarrow> u)"
    and "host_plugins (config c1) = host_plugins (register_versions (config c))"
    and "cc_AllowedProtocols (config c1) = cc_AllowedProtocols (config c)"
    and "cc_GRPCBrokerMultiplex (config c1) = cc_GRPCBrokerMultiplex (config c)"
    and "cc_TLSConfig (config c1) = None \<longleftrightarrow> \<not> cc_AutoMTLS (config c) \<and> cc_TLSConfig (config c) = None"
proof -
  define cfg1 where "cfg1 = register_versions (config c)"
  define cmd1 where "cmd1 = start_cmd (w_Environ W) cfg1"
  from assms obtain cfg2 where sec: "start_secure W cmd1 (store_cmd cmd1 cfg1) = (None, cfg2)"
    by (auto simp: start_prepare_def cfg1_def cmd1_def Let_def split: prod.splits option.splits)
  from assms sec obtain cmd2 cfg3 where mt: "start_mtls (w_crypto W) cmd1 cfg2 = Inr (cmd2, cfg3)"
    by (auto simp: start_prepare_def cfg1_def cmd1_def Let_def split: prod.splits option.splits sum.splits)
  define us where "us = (case cc_UnixSocketConfig cfg3 of None \<Rightarrow> unixSocketCfg c | Some u \<Rightarrow> u)"
  define cmd3 where "cmd3 = (if us_Group us \<noteq> [] then add_env EnvUnixSocketGroup (us_Group us) cmd2 else cmd2)"
  obtain x us' cmd4 where x: "choose_runner W cfg3 us cmd3 = (x, us', cmd4)" by (metis prod_cases3)
  have "start_prepare W c = (c\<lparr>config := store_cmd cmd4 cfg3, unixSocketCfg := us'\<rparr>, x)"
    unfolding start_prepare_def Let_def cfg1_def [symmetric] cmd1_def [symmetric]
    using x by (cases "us_Group us = []") (simp_all add: sec mt us_def [symmetric] cmd3_def)
  with assms x have ch: "choose_runner W cfg3 us cmd3 = (Inr (r, Some cr), us', cmd4)"
    and c1: "c1 = c\<lparr>config := store_cmd cmd4 cfg3, unixSocketCfg := us'\<rparr>" by simp_all
  obtain s where cfg2: "cfg2 = (store_cmd cmd1 cfg1)\<lparr>cc_SecureConfig := s\<rparr>"
    using start_secure_config [OF sec] by blast
  obtain t where cfg3: "cfg3 = cfg2\<lparr>cc_TLSConfig := t\<rparr>"
    and t: "cc_AutoMTLS cfg2 \<longrightarrow> t \<noteq> None" "\<not> cc_AutoMTLS cfg2 \<longrightarrow> t = cc_TLSConfig cfg2"
    using start_mtls_config(2) [OF mt] by blast
  have auto: "cc_AutoMTLS cfg2 = cc_AutoMTLS (config c)" "cc_TLSConfig cfg2 = cc_TLSConfig (config c)"
    by (simp_all add: cfg2 cfg1_def)
  have "cmd_Env cmd3 = cmd_Env cmd1 @ extra_env (w_crypto W) (config c) us"
    using start_mtls_config(1) [OF mt] auto by (simp add: cmd3_def add_env_def extra_env_def)
  moreover have "cmd_Env cmd1 = cmd_Env (case cc_Cmd (config c) of Some cmd \<Rightarrow> cmd | None \<Rightarrow> exec_Command_empty)
      @ (if cc_SkipHostEnv (config c) then [] else w_Environ W) @ start_env cfg1"
    by (simp add: cmd1_def start_cmd_def cfg1_def register_versions_def default_version_def Let_def)
  moreover have "us = (case cc_UnixSocketConfig (config c) of None \<Rightarrow> unixSocketCfg c | Some u \<Rightarrow> u)"
    by (simp add: us_def cfg3 cfg2 cfg1_def store_cmd_def register_versions_def default_version_def Let_def split: option.split)
  ultimately show "cmd_Env (cr_cmd cr) =
      cmd_Env (case cc_Cmd (config c) of Some cmd \<Rightarrow> cmd | None \<Rightarrow> exec_Command_empty)
      @ (if cc_SkipHostEnv (config c) then [] else w_Environ W)
      @ start_env (register_versions (config c))
      @ extra_env (w_crypto W) (config c) (case cc_UnixSocketConfig (config c) of None \<Rightarrow> unixSocketCfg c | Some u \<Rightarrow> u)"
    unfolding choose_runner_cmd(1) [OF ch] cfg1_def by simp
  show "host_plugins (config c1) = host_plugins (register_versions (config c))"
    by (simp add: c1 cfg3 cfg2 cfg1_def) (simp add: host_plugins_def store_cmd_def split: option.split)
  show "cc_AllowedProtocols (config c1) = cc_AllowedProtocols (config c)"
    "cc_GRPCBrokerMultiplex (config c1) = cc_GRPCBrokerMultiplex (config c)"
    by (simp_all add: c1 cfg3 cfg2 cfg1_def)
  show "cc_TLSConfig (config c1) = None \<longleftrightarrow> \<not> cc_AutoMTLS (config c) \<and> cc_TLSConfig (config c) = None"
    using t auto by (auto simp: c1 cfg3)
qed

lemma entry_other_lit:
  assumes "CHR ''='' \<notin> set k" "CHR ''='' \<notin> set k'" "k \<noteq> k'"
  shows "entry_value k (k' @ ''='' @ v) = None"
  using entry_value_other [OF assms, of v] by simp

lemmas env_names = EnvUnixSocketDir_def EnvUnixSocketGroup_def envMultiplexGRPC_def

lemma extra_env_entry:
  assumes "CHR ''='' \<notin> set k" "k \<noteq> EnvUnixSocketGroup"
    and "k \<noteq> ''PLUGIN_CLIENT_CERT'' \<or> \<not> cc_AutoMTLS cfg" and "e \<in> set (extra_env C cfg us)"
  shows "entry_value k e = None"
proof -
  have "cc_AutoMTLS cfg \<and> e = ''PLUGIN_CLIENT_CERT='' @ fst (projr (generateCert C)) \<or> e = EnvUnixSocketGroup @ ''='' @ us_Group us"
  proof (cases "generateCert C")
    case (Inl err)
    then have "extra_env C cfg us = (if us_Group us \<noteq> [] then [EnvUnixSocketGroup @ ''='' @ us_Group us] else [])"
      by (simp add: extra_env_def)
    with assms(4) show ?thesis by (simp split: if_splits)
  next
    case (Inr ck)
    then have "extra_env C cfg us = (if cc_AutoMTLS cfg then [''PLUGIN_CLIENT_CERT='' @ fst (projr (generateCert C))] else [])
        @ (if us_Group us \<noteq> [] then [EnvUnixSocketGroup @ ''='' @ us_Group us] else [])"
      by (cases ck) (simp add: extra_env_def)
    with assms(4) show ?thesis by (simp split: if_splits)
  qed
  moreover have "''PLUGIN_CLIENT_CERT='' @ x = ''PLUGIN_CLIENT_CERT'' @ ''='' @ x" for x by simp
  ultimately have "(\<exists>v. e = ''PLUGIN_CLIENT_CERT'' @ ''='' @ v \<and> cc_AutoMTLS cfg) \<or> (\<exists>v. e = EnvUnixSocketGroup @ ''='' @ v)"
    by metis
  then obtain k' v where e: "e = k' @ ''='' @ v"
    and k': "k' = ''PLUGIN_CLIENT_CERT'' \<and> cc_AutoMTLS cfg \<or> k' = EnvUnixSocketGroup" by blast
  show ?thesis
    unfolding e by (rule entry_other_lit [OF assms(1)]) (use k' assms(2,3) in \<open>auto simp: EnvUnixSocketGroup_def\<close>)
qed

lemma start_env_entry:
  assumes "f \<in> set (tl (start_env cfg))" and "CHR ''='' \<notin> set k"
    and "k \<notin> {''PLUGIN_MIN_PORT'', ''PLUGIN_MAX_PORT'', ''PLUGIN_PROTOCOL_VERSIONS'', envMultiplexGRPC}"
  shows "entry_value k f = None"
proof -
  have "f = ''PLUGIN_MIN_PORT'' @ ''='' @ show_nat (unat (cc_MinPort cfg))
      \<or> f = ''PLUGIN_MAX_PORT'' @ ''='' @ show_nat (unat (cc_MaxPort cfg))
      \<or> f = ''PLUGIN_PROTOCOL_VERSIONS'' @ ''='' @ join_with '','' (versionStrings cfg)
      \<or> f = envMultiplexGRPC @ ''='' @ ''true''"
    using assms(1) by (auto simp: start_env_def split: if_splits)
  then obtain k' v where f: "f = k' @ ''='' @ v"
    and k': "k' \<in> {''PLUGIN_MIN_PORT'', ''PLUGIN_MAX_PORT'', ''PLUGIN_PROTOCOL_VERSIONS'', envMultiplexGRPC}" by blast
  show ?thesis
    unfolding f by (rule entry_other_lit [OF assms(2)]) (use k' assms(3) in \<open>auto simp: envMultiplexGRPC_def\<close>)
qed

lemma child_versions:
  "env_of (pre @ start_env cfg @ extra_env C cfg' us) ''PLUGIN_PROTOCOL_VERSIONS'' = join_with '','' (versionStrings cfg)"
proof -
  let ?mux = "if cc_GRPCBrokerMultiplex cfg then [envMultiplexGRPC @ ''=true''] else []"
  have "entry_value ''PLUGIN_PROTOCOL_VERSIONS'' f = None" if "f \<in> set (?mux @ extra_env C cfg' us)" for f
    using that extra_env_entry [of "''PLUGIN_PROTOCOL_VERSIONS''" cfg' f C us]
      entry_other_lit [of "''PLUGIN_PROTOCOL_VERSIONS''" envMultiplexGRPC "''true''"]
    by (auto simp: env_names split: if_splits)
  then have "env_of ((pre @ take 3 (start_env cfg)) @ (''PLUGIN_PROTOCOL_VERSIONS'' @ CHR ''='' # join_with '','' (versionStrings cfg))
      # ?mux @ extra_env C cfg' us) ''PLUGIN_PROTOCOL_VERSIONS'' = join_with '','' (versionStrings cfg)"
    by (intro env_of_last) blast
  then show ?thesis by (simp add: start_env_def numeral_3_eq_3)
qed

lemma child_cookie:
  assumes "CHR ''='' \<notin> set (MagicCookieKey (cc_Handshake cfg))"
    and "MagicCookieKey (cc_Handshake cfg) \<notin> {''PLUGIN_MIN_PORT'', ''PLUGIN_MAX_PORT'', ''PLUGIN_PROTOCOL_VERSIONS'',
          envMultiplexGRPC, ''PLUGIN_CLIENT_CERT'', EnvUnixSocketGroup}"
  shows "env_of (pre @ start_env cfg @ extra_env C cfg' us) (MagicCookieKey (cc_Handshake cfg)) = MagicCookieValue (cc_Handshake cfg)"
proof -
  let ?k = "MagicCookieKey (cc_Handshake cfg)"
  have "entry_value ?k f = None" if "f \<in> set (tl (start_env cfg) @ extra_env C cfg' us)" for f
    using that assms extra_env_entry [of ?k cfg' f C us] start_env_entry [of f cfg ?k] by auto
  then have "env_of (pre @ (?k @ CHR ''='' # MagicCookieValue (cc_Handshake cfg)) # tl (start_env cfg) @ extra_env C cfg' us) ?k
      = MagicCookieValue (cc_Handshake cfg)"
    by (intro env_of_last) blast
  then show ?thesis by (simp add: start_env_def)
qed

lemma child_mux:
  assumes "cc_GRPCBrokerMultiplex cfg"
  shows "env_of (pre @ start_env cfg @ extra_env C cfg' us) envMultiplexGRPC = ''true''"
proof -
  have "env_of ((pre @ take 4 (start_env cfg)) @ (envMultiplexGRPC @ CHR ''='' # ''true'') # extra_env C cfg' us) envMultiplexGRPC = ''true''"
    using extra_env_entry [of envMultiplexGRPC cfg' _ C us] by (intro env_of_last) (auto simp: env_names)
  then show ?thesis using assms by (simp add: start_env_def numeral_eq_Suc)
qed

section \<open>The handshake\<close>

lemma handshake_line:
  assumes clean: "CHR ''|'' \<notin> set (addr_Network addr)" "CHR ''|'' \<notin> set (addr_String addr)" "CHR ''|'' \<notin> set pt"
    and cert: "cert = [] \<or> cert = b64_encode der"
    and pv: "is_int64 pv" "map_of (host_plugins (config c)) pv = Some ps"
    and st: "PluginToHost st = cmd_PluginToHost"
    and res: "resolve_addr W (addr_Network addr) (addr_String addr) = Inr a"
    and allowed: "pt \<in> set (case cc_AllowedProtocols (config c) of None \<Rightarrow> [] | Some ps \<Rightarrow> ps)"
  shows "handshake W r st (protocolLine E pv addr pt cert) ok c =
    handshake_tail W (line_parts E pv addr pt cert) a
      (c\<lparr>config := (config c)\<lparr>cc_Plugins := ps\<rparr>, negotiatedVersion := pv, c_protocol := pt\<rparr>)"
proof -
  have parts: "split_on (CHR ''|'') (TrimSpace (protocolLine E pv addr pt cert)) = line_parts E pv addr pt cert"
    by (rule line_roundtrip [OF clean cert])
  have chk: "checkProtoVersion (config c) (Itoa pv) = Inr (pv, ps)"
    using Atoi_Itoa [OF pv(1)] pv(2) by (simp add: checkProtoVersion_Inr)
  have nth: "line_parts E pv addr pt cert ! 0 = ''1''" "line_parts E pv addr pt cert ! Suc 0 = Itoa pv"
    "line_parts E pv addr pt cert ! 2 = addr_Network addr" "line_parts E pv addr pt cert ! 3 = addr_String addr"
    "line_parts E pv addr pt cert ! 4 = pt" "\<not> length (line_parts E pv addr pt cert) < 4"
    "5 \<le> length (line_parts E pv addr pt cert)"
    by (simp_all add: line_parts_def)
  obtain al where "cc_AllowedProtocols (config c) = Some al" "pt \<in> set al"
    using allowed by (cases "cc_AllowedProtocols (config c)") auto
  then show ?thesis
    using res
    by (simp add: handshake_def parts nth Atoi_one CoreProtocolVersion_def chk st cmd_PluginToHost_def Let_def)
qed

lemma listen_addr_network: "addr_Network (listen_addr l) \<in> {''tcp'', ''unix''}"
  by (cases l) auto

text \<open>A host without a certificate to load accepts the segments when they announce multiplexing if it asked for it.\<close>

lemma tail_plain:
  assumes "cc_GRPCBrokerMultiplex (config c) \<longrightarrow> E envMultiplexGRPC \<noteq> []"
  shows "handshake_tail W (line_parts E pv addr pt []) a c = (c, HsOk a)"
  using assms by (simp add: handshake_tail_def line_parts_def check_mux_def ParseBool_def Let_def)

lemma tail_cert:
  assumes "cc_GRPCBrokerMultiplex (config c) \<longrightarrow> E envMultiplexGRPC \<noteq> []"
    and "38 \<le> length der" and "x509_ParseCertificate (w_crypto W) der = Inr x" and "cc_TLSConfig (config c) = Some t"
  shows "handshake_tail W (line_parts E pv addr pt (b64_encode der)) a c =
    (c\<lparr>config := (config c)\<lparr>cc_TLSConfig := Some (t\<lparr>RootCAs := Some [x], ClientCAs := Some [x]\<rparr>)\<rparr>\<rparr>, HsOk a)"
proof -
  have "50 < length (b64_encode der)" using b64_encode_length [of der] assms(2) by linarith
  with assms show ?thesis
    by (simp add: handshake_tail_def line_parts_def loadServerCert_def b64_roundtrip check_mux_def ParseBool_def Let_def)
qed

text \<open>A host process, the plugin process it started, and the line the plugin printed.\<close>

definition connected ::
  "start_world \<Rightarrow> 'p client \<Rightarrow> 'p client \<Rightarrow> runner \<Rightarrow> serve_world \<Rightarrow> serve_config \<Rightarrow> fs_state \<Rightarrow> listen_result \<Rightarrow> string \<Rightarrow> bool" where
  "connected W c c1 r SW opts s l line \<longleftrightarrow>
     (\<exists>cr. start_prepare W c = (c1, Inr (r, Some cr)) \<and> sv_env SW = env_of (cmd_Env (cr_cmd cr)))
     \<and> fst (serverListener (sv_windows SW) (sv_listen SW) (sv_unix SW) (sv_env SW) (unixSocketConfigFromEnv (sv_env SW)) s) = Inr l
     \<and> so_stdout (Serve SW opts s) = [line]"

text \<open>The version both would choose, and the transport of its plugins.\<close>

definition agreed_version :: "serve_config \<Rightarrow> client_config \<Rightarrow> int" where
  "agreed_version opts cfg = Max (fst ` set (served_plugins opts) \<inter> fst ` set (host_plugins cfg))"

lemma connected_line:
  assumes con: "connected W c c1 r SW opts s l line"
    and ints: "\<forall>v \<in> fst ` set (host_plugins (config c1)). is_int64 v"
    and common: "fst ` set (served_plugins opts) \<inter> fst ` set (host_plugins (config c1)) \<noteq> {}"
  obtains tls cert ps where
    "line = protocolLine (sv_env SW) (agreed_version opts (config c1)) (listen_addr l)
        (fst (snd (fst (protocolVersion (sv_env SW) opts)))) cert"
    "tls_choice SW opts = Some (tls, cert)" "is_int64 (agreed_version opts (config c1))"
    "map_of (host_plugins (config c1)) (agreed_version opts (config c1)) = Some ps"
    "cc_GRPCBrokerMultiplex (config c1) \<longrightarrow> sv_env SW envMultiplexGRPC \<noteq> []"
proof -
  let ?h = "host_plugins (config c1)" and ?v = "agreed_version opts (config c1)"
  obtain cr where prep: "start_prepare W c = (c1, Inr (r, Some cr))" and env: "sv_env SW = env_of (cmd_Env (cr_cmd cr))"
    using con by (auto simp: connected_def)
  obtain pre us where E: "sv_env SW = env_of (pre @ start_env (register_versions (config c)) @ extra_env (w_crypto W) (config c) us)"
    using start_prepare_child(1) [OF prep] env by (metis append.assoc)
  have vers: "clientVersionsFromEnv (sv_env SW) = map fst ?h"
    using offered_versions_roundtrip [of "register_versions (config c)" "sv_env SW"] ints
    by (simp add: E child_versions start_prepare_child(2) [OF prep])
  have v: "?v \<in> fst ` set (served_plugins opts) \<inter> fst ` set ?h"
    unfolding agreed_version_def by (rule Max_in) (use common in auto)
  have "negotiated_version (sint (ProtocolVersion (sc_Handshake opts))) (fst ` set (served_plugins opts))
      (set (clientVersionsFromEnv (sv_env SW))) = ?v"
    using common by (auto simp: negotiated_version_def vers agreed_version_def)
  then have pv: "fst (fst (protocolVersion (sv_env SW) opts)) = ?v" by (simp add: protocolVersion_refines)
  obtain ps where ps: "map_of ?h ?v = Some ps" using v by (metis IntE map_of_eq_None_iff not_None_eq)
  have mux: "cc_GRPCBrokerMultiplex (config c1) \<longrightarrow> sv_env SW envMultiplexGRPC \<noteq> []"
    using child_mux [of "register_versions (config c)" pre] by (simp add: E start_prepare_child(4) [OF prep])
  show thesis
  proof (cases rule: Serve_cases [of SW opts s])
    case early
    with con show thesis by (simp add: connected_def)
  next
    case (run pv' pt ps' opts' l' s' tls cert)
    have "l' = l" using con run(3) by (simp add: connected_def)
    moreover have "so_stdout (serve_run SW opts' pv' pt ps' tls cert l' s') = [line]"
      using con run(5) by (simp add: connected_def)
    ultimately have "line = protocolLine (sv_env SW) pv' (listen_addr l) pt cert"
      using serve_run_out(2) [of SW opts' pv' pt ps' tls cert l' s'] by (simp split: if_splits)
    moreover have "tls_choice SW opts' = tls_choice SW opts"
      using protocolVersion_opts [of "sv_env SW" opts] run(2) by (simp add: tls_choice_def)
    ultimately show thesis
      using that [of cert tls ps] run(2,4) pv ps mux ints v by auto
  qed
qed

text \<open>The client before the last checks of the line.\<close>

definition accepted :: "serve_world \<Rightarrow> serve_config \<Rightarrow> 'p client \<Rightarrow> 'p client" where
  "accepted SW opts c1 =
     c1\<lparr>config := (config c1)\<lparr>cc_Plugins := the (map_of (host_plugins (config c1)) (agreed_version opts (config c1)))\<rparr>,
        negotiatedVersion := agreed_version opts (config c1),
        c_protocol := fst (snd (fst (protocolVersion (sv_env SW) opts)))\<rparr>"

definition announced :: "serve_world \<Rightarrow> serve_config \<Rightarrow> listen_result \<Rightarrow> 'p client \<Rightarrow> string \<Rightarrow> string list" where
  "announced SW opts l c1 cert = line_parts (sv_env SW) (agreed_version opts (config c1)) (listen_addr l)
     (fst (snd (fst (protocolVersion (sv_env SW) opts)))) cert"

lemma connected_handshake:
  assumes "connected W c c1 r SW opts s l line"
    and "\<forall>v \<in> fst ` set (host_plugins (config c1)). is_int64 v"
    and "fst ` set (served_plugins opts) \<inter> fst ` set (host_plugins (config c1)) \<noteq> {}"
    and "CHR ''|'' \<notin> set (addr_String (listen_addr l))"
    and "PluginToHost st = cmd_PluginToHost"
    and "resolve_addr W (addr_Network (listen_addr l)) (addr_String (listen_addr l)) = Inr a"
    and "fst (snd (fst (protocolVersion (sv_env SW) opts))) \<in> set (case cc_AllowedProtocols (config c1) of None \<Rightarrow> [] | Some ps \<Rightarrow> ps)"
  obtains tls cert where "tls_choice SW opts = Some (tls, cert)"
    "map_of (host_plugins (config c1)) (agreed_version opts (config c1)) \<noteq> None"
    "cc_GRPCBrokerMultiplex (config c1) \<longrightarrow> sv_env SW envMultiplexGRPC \<noteq> []"
    "\<And>der. cert = [] \<or> cert = b64_encode der \<Longrightarrow>
       handshake W r st line ok c1 = handshake_tail W (announced SW opts l c1 cert) a (accepted SW opts c1)"
proof -
  obtain tls cert ps where line: "line = protocolLine (sv_env SW) (agreed_version opts (config c1)) (listen_addr l)
        (fst (snd (fst (protocolVersion (sv_env SW) opts)))) cert"
    and tc: "tls_choice SW opts = Some (tls, cert)" and v: "is_int64 (agreed_version opts (config c1))"
    "map_of (host_plugins (config c1)) (agreed_version opts (config c1)) = Some ps"
    and mux: "cc_GRPCBrokerMultiplex (config c1) \<longrightarrow> sv_env SW envMultiplexGRPC \<noteq> []"
    by (rule connected_line [OF assms(1-3)]) blast
  have pt: "CHR ''|'' \<notin> set (fst (snd (fst (protocolVersion (sv_env SW) opts))))"
    using protocolVersion_protocol [of "sv_env SW" opts] by (auto simp: protocol_defs)
  have nw: "CHR ''|'' \<notin> set (addr_Network (listen_addr l))" using listen_addr_network [of l] by auto
  show thesis
    by (rule that [OF tc _ mux])
       (simp_all add: v(2) line handshake_line [OF nw assms(4) pt _ v assms(5-7)] announced_def accepted_def)
qed

lemma accepted_simps [simp]:
  "cc_GRPCBrokerMultiplex (config (accepted SW opts c1)) = cc_GRPCBrokerMultiplex (config c1)"
  "cc_TLSConfig (config (accepted SW opts c1)) = cc_TLSConfig (config c1)"
  "negotiatedVersion (accepted SW opts c1) = agreed_version opts (config c1)"
  "c_protocol (accepted SW opts c1) = fst (snd (fst (protocolVersion (sv_env SW) opts)))"
  "cc_Plugins (config (accepted SW opts c1)) = the (map_of (host_plugins (config c1)) (agreed_version opts (config c1)))"
  by (simp_all add: accepted_def)

section \<open>Properties\<close>


text \<open>
  C2: End to end with automatic mTLS: the certificate that the plugin generates arrives at the host
  through the line, and the accepted client trusts exactly the certificate that the plugin's server shows.
\<close>
theorem end_to_end_mtls:
  assumes "connected W c c1 r SW opts s l line"
    and "\<forall>v \<in> fst ` set (host_plugins (config c1)). is_int64 v"
    and "fst ` set (served_plugins opts) \<inter> fst ` set (host_plugins (config c1)) \<noteq> {}"
    and "CHR ''|'' \<notin> set (addr_String (listen_addr l))"
    and "PluginToHost st = cmd_PluginToHost"
    and "resolve_addr W (addr_Network (listen_addr l)) (addr_String (listen_addr l)) = Inr a"
    and "fst (snd (fst (protocolVersion (sv_env SW) opts))) \<in> set (case cc_AllowedProtocols (config c1) of None \<Rightarrow> [] | Some ps \<Rightarrow> ps)"
    and "cc_AutoMTLS (config c)" and "sv_env SW ''PLUGIN_CLIENT_CERT'' \<noteq> []"
    and "generateCert (sv_crypto SW) = Inr (pem, key)" and "tls_X509KeyPair (sv_crypto SW) pem key = Inr (der # chain)"
    and "38 \<le> length der" and "x509_ParseCertificate (w_crypto W) der = Inr x"
  shows "\<exists>t announced c2 t2. serve_mtls (sv_crypto SW) (sv_env SW ''PLUGIN_CLIENT_CERT'') = Inr (t, announced)
    \<and> Certificates t = der # chain \<and> handshake W r st line ok c1 = (c2, HsOk a)
    \<and> negotiatedVersion c2 = Max (fst ` set (served_plugins opts) \<inter> fst ` set (host_plugins (config c1)))
    \<and> cc_TLSConfig (config c2) = Some t2 \<and> RootCAs t2 = Some [x] \<and> ClientCAs t2 = Some [x]"
proof (rule connected_handshake [OF assms(1-7), of ok])
  fix tls cert
  assume tc: "tls_choice SW opts = Some (tls, cert)"
    and mux: "cc_GRPCBrokerMultiplex (config c1) \<longrightarrow> sv_env SW envMultiplexGRPC \<noteq> []"
    and hs: "\<And>der. cert = [] \<or> cert = b64_encode der \<Longrightarrow>
       handshake W r st line ok c1 = handshake_tail W (announced SW opts l c1 cert) a (accepted SW opts c1)"
  obtain t where t: "serve_mtls (sv_crypto SW) (sv_env SW ''PLUGIN_CLIENT_CERT'') = Inr (t, b64_encode der)" "Certificates t = der # chain"
    using assms(10,11) by (simp add: serve_mtls_def Let_def)
  have cert: "cert = b64_encode der"
    using tc assms(9) t(1) by (auto simp: tls_choice_def split: sum.splits option.splits if_splits)
  obtain t1 where t1: "cc_TLSConfig (config c1) = Some t1"
    using assms(1,8) start_prepare_child(5) [of W c c1 r] by (auto simp: connected_def)
  with hs [of der] cert mux t show ?thesis
    by (simp add: announced_def tail_cert [OF _ assms(12,13)] agreed_version_def)
qed

text \<open>
  C40: A host that is itself a plugin of an mTLS host can be crashed by its own plugins: unless it
  skips its environment, its children inherit \<open>PLUGIN_CLIENT_CERT\<close> and announce a certificate, and
  the host, which asked for none and has no TLS settings, panics with a nil dereference.
\<close>
theorem inherited_cert_panics:
  assumes "connected W c c1 r SW opts s l line"
    and "\<forall>v \<in> fst ` set (host_plugins (config c1)). is_int64 v"
    and "fst ` set (served_plugins opts) \<inter> fst ` set (host_plugins (config c1)) \<noteq> {}"
    and "CHR ''|'' \<notin> set (addr_String (listen_addr l))"
    and "PluginToHost st = cmd_PluginToHost"
    and "resolve_addr W (addr_Network (listen_addr l)) (addr_String (listen_addr l)) = Inr a"
    and "fst (snd (fst (protocolVersion (sv_env SW) opts))) \<in> set (case cc_AllowedProtocols (config c1) of None \<Rightarrow> [] | Some ps \<Rightarrow> ps)"
    and "\<not> cc_AutoMTLS (config c)" and "cc_TLSConfig (config c) = None"
    and "sv_env SW ''PLUGIN_CLIENT_CERT'' \<noteq> []"
    and "serve_mtls (sv_crypto SW) (sv_env SW ''PLUGIN_CLIENT_CERT'') = Inr (t, b64_encode der)"
    and "38 \<le> length der" and "x509_ParseCertificate (w_crypto W) der = Inr x"
  shows "snd (handshake W r st line ok c1) = HsPanic nil_deref"
proof (rule connected_handshake [OF assms(1-7), of ok])
  fix tls cert
  assume tc: "tls_choice SW opts = Some (tls, cert)"
    and hs: "\<And>der. cert = [] \<or> cert = b64_encode der \<Longrightarrow>
       handshake W r st line ok c1 = handshake_tail W (announced SW opts l c1 cert) a (accepted SW opts c1)"
  have cert: "cert = b64_encode der"
    using tc assms(10,11) by (auto simp: tls_choice_def split: sum.splits option.splits if_splits)
  have "cc_TLSConfig (config c1) = None"
    using assms(1,8,9) start_prepare_child(5) [of W c c1 r] by (auto simp: connected_def)
  moreover have "50 < length (b64_encode der)" using b64_encode_length [of der] assms(12) by linarith
  ultimately show ?thesis
    using hs [of der] cert assms(13)
    by (simp add: announced_def handshake_tail_def line_parts_def loadServerCert_def b64_roundtrip)
qed

section \<open>A concrete host and its plugin\<close>

definition e2e_config :: "bool \<Rightarrow> client_config" where
  "e2e_config auto =
     demo_config\<lparr>cc_RunnerFunc := None, cc_Cmd := Some \<lparr>cmd_Path = ''/p'', cmd_Env = [], cmd_Stdin = False,
       cmd_SysProcAttr = None, cmd_Process = None\<rparr>, cc_SecureConfig := None, cc_AutoMTLS := auto, cc_SkipHostEnv := False\<rparr>"

definition e2e_client :: "bool \<Rightarrow> nat client" where "e2e_client auto = new_client (e2e_config auto)"

definition e2e_host :: "string list \<Rightarrow> start_world" where
  "e2e_host env = demo_start\<lparr>w_Environ := env\<rparr>"

definition e2e_child :: "string list \<Rightarrow> bool \<Rightarrow> string list" where
  "e2e_child env auto =
     env @ [''COOKIE=hello'', ''PLUGIN_MIN_PORT=0'', ''PLUGIN_MAX_PORT=0'', ''PLUGIN_PROTOCOL_VERSIONS=1'']
     @ (if auto then [''PLUGIN_CLIENT_CERT='' @ replicate 60 CHR ''d''] else [])"

definition e2e_plugin :: "string list \<Rightarrow> bool \<Rightarrow> serve_world" where
  "e2e_plugin env auto = demo_world\<lparr>sv_env := env_of (e2e_child env auto)\<rparr>"

lemma e2e_start_env:
  "start_env (register_versions (e2e_config auto)) =
     [''COOKIE=hello'', ''PLUGIN_MIN_PORT=0'', ''PLUGIN_MAX_PORT=0'', ''PLUGIN_PROTOCOL_VERSIONS=1'']"
proof -
  have "show_nat 0 = ''0''" by code_simp
  then show ?thesis
    by (simp add: start_env_def register_versions_def default_version_def versionStrings_def host_plugins_def
        e2e_config_def demo_config_def Itoa_one Let_def)
qed

lemma demo_cert: "generateCert demo_crypto = Inr (replicate 60 CHR ''d'', ''key'')" "tls_X509KeyPair demo_crypto c k = Inr [c]"
  by (simp_all add: generateCert_def demo_crypto_def)

lemma e2e_host_simps [simp]:
  "w_Environ (e2e_host env) = env" "w_crypto (e2e_host env) = demo_crypto" "w_StdoutPipe (e2e_host env) = None"
  "w_StderrPipe (e2e_host env) = None" "cc_SecureConfig (e2e_config auto) = None" "cc_RunnerFunc (e2e_config auto) = None"
  "cc_AutoMTLS (e2e_config auto) = auto" "cc_UnixSocketConfig (e2e_config auto) = None"
  "config (e2e_client auto) = e2e_config auto" "unixSocketCfg (e2e_client auto) = empty_unix_cfg"
  "cc_SkipHostEnv (e2e_config auto) = False" "cc_AllowedProtocols (e2e_config auto) = Some [ProtocolGRPC]"
  "cc_TLSConfig (e2e_config auto) = None"
  by (simp_all add: e2e_host_def e2e_config_def e2e_client_def new_client_def demo_start_def demo_config_def)

lemma e2e_prepare:
  "\<exists>c1 r cr. start_prepare (e2e_host env) (e2e_client auto) = (c1, Inr (r, Some cr))
     \<and> cmd_Env (cr_cmd cr) = e2e_child env auto \<and> host_plugins (config c1) = [(1, cc_Plugins demo_config)]
     \<and> cc_AllowedProtocols (config c1) = Some [ProtocolGRPC]"
proof -
  have reg: "cc_SecureConfig (register_versions cfg) = cc_SecureConfig cfg" "cc_RunnerFunc (register_versions cfg) = cc_RunnerFunc cfg"
    "cc_UnixSocketConfig (register_versions cfg) = cc_UnixSocketConfig cfg" "cc_Cmd (register_versions cfg) = cc_Cmd cfg" for cfg
    by (simp_all add: register_versions_def default_version_def Let_def)
  have cmd: "cc_Cmd (e2e_config auto) = Some \<lparr>cmd_Path = ''/p'', cmd_Env = [], cmd_Stdin = False, cmd_SysProcAttr = None, cmd_Process = None\<rparr>" for auto
    by (simp add: e2e_config_def)
  obtain c1 r cr where p: "start_prepare (e2e_host env) (e2e_client auto) = (c1, Inr (r, Some cr))"
    by (cases auto)
       (simp_all add: start_prepare_def start_secure_def start_mtls_def choose_runner_def NewCmdRunner_def cmd_pipe_def
        store_cmd_def empty_unix_cfg_def demo_cert start_cmd_def add_env_def Let_def reg cmd)
  show ?thesis
    using start_prepare_child [OF p] p cmd [of auto]
    by (simp add: e2e_start_env e2e_child_def extra_env_def demo_cert empty_unix_cfg_def)
       (simp add: host_plugins_def register_versions_def default_version_def e2e_config_def demo_config_def)
qed

text \<open>The plugin in an environment that names version 1 and the cookie.\<close>

lemma demo_plugin_serves:
  assumes "E ''COOKIE'' = ''hello''" "E ''PLUGIN_PROTOCOL_VERSIONS'' = ''1''" "E envMultiplexGRPC = []"
    "E EnvUnixSocketDir = []" "E EnvUnixSocketGroup = []"
  defines "SW \<equiv> demo_world\<lparr>sv_env := E\<rparr>"
  shows "fst (serverListener (sv_windows SW) (sv_listen SW) (sv_unix SW) (sv_env SW) (unixSocketConfigFromEnv (sv_env SW)) demo_fs)
      = Inr (UnixListener ''/plugin1'')"
    and "fst (snd (fst (protocolVersion (sv_env SW) demo_serve))) = ProtocolGRPC"
    and "\<exists>line. so_stdout (Serve SW demo_serve demo_fs) = [line]"
    and "fst ` set (served_plugins demo_serve) = {1}"
proof -
  have cv: "clientVersionsFromEnv E = [1]" using assms(2) by (simp add: clientVersionsFromEnv_def Atoi_one)
  have pv: "protocolVersion E demo_serve =
      ((1, ProtocolGRPC, Some demo_plugins), demo_serve\<lparr>sc_VersionedPlugins := Some [(1, Some demo_plugins)]\<rparr>)"
    by (simp add: protocolVersion_def cv Let_def served_plugins_def demo_serve_def demo_handshake_def set_protocol_def
        amap_get_def demo_plugins_def)
  obtain s' where sl: "serverListener (sv_windows SW) (sv_listen SW) (sv_unix SW) (sv_env SW) (unixSocketConfigFromEnv (sv_env SW)) demo_fs
      = (Inr (UnixListener ''/plugin1''), s')"
    using assms(4,5) by (simp add: SW_def serverListener_def serverListenerUnix_def unixSocketConfigFromEnv_def demo_world_def
        demo_unix_def Let_def)
  then show "fst (serverListener (sv_windows SW) (sv_listen SW) (sv_unix SW) (sv_env SW) (unixSocketConfigFromEnv (sv_env SW)) demo_fs)
      = Inr (UnixListener ''/plugin1'')" by simp
  show "fst (snd (fst (protocolVersion (sv_env SW) demo_serve))) = ProtocolGRPC" by (simp add: SW_def pv)
  let ?o = "demo_serve\<lparr>sc_VersionedPlugins := Some [(1, Some demo_plugins)]\<rparr>"
  have ck: "check_cookie (sv_env SW) demo_serve" using assms(1) by (simp add: SW_def check_cookie_def demo_serve_def demo_handshake_def)
  have "tls_choice SW ?o \<noteq> None"
    by (simp add: SW_def tls_choice_def demo_serve_def serve_mtls_def demo_world_def demo_cert Let_def)
  then obtain tls cert where tc: "tls_choice SW ?o = Some (tls, cert)" by auto
  have "Serve SW demo_serve demo_fs = serve_run SW ?o 1 ProtocolGRPC (Some demo_plugins) tls cert (UnixListener ''/plugin1'') s'"
    using Serve_reaches [OF ck _ sl] pv tc by (simp add: SW_def serve_tls_choice)
  moreover obtain srv lis where b: "build_server (sv_env SW) ProtocolGRPC (Some demo_plugins) tls (UnixListener ''/plugin1'') = Some (srv, lis)"
    using build_server_Some [of ProtocolGRPC] by force
  moreover have "server_Init (sv_GRPCServer SW) srv = None"
    using b by (auto simp: SW_def build_server_def protocol_defs demo_plugins_def demo_world_def Let_def)
  moreover have "sv_stdout_pipe SW = None" "sv_stderr_pipe SW = None" "sc_Test ?o = None"
    by (simp_all add: SW_def demo_world_def demo_serve_def)
  ultimately show "\<exists>line. so_stdout (Serve SW demo_serve demo_fs) = [line]"
    using serve_run_served(2) [of SW, OF _ _ b, of ?o 1 cert s'] by simp
  show "fst ` set (served_plugins demo_serve) = {1}"
    by (simp add: served_plugins_def demo_serve_def demo_handshake_def)
qed

lemma e2e_env:
  assumes "env \<in> {[], [''PLUGIN_CLIENT_CERT=outer'']}"
  shows "env_of (e2e_child env auto) ''COOKIE'' = ''hello''" "env_of (e2e_child env auto) ''PLUGIN_PROTOCOL_VERSIONS'' = ''1''"
    "env_of (e2e_child env auto) envMultiplexGRPC = []" "env_of (e2e_child env auto) EnvUnixSocketDir = []"
    "env_of (e2e_child env auto) EnvUnixSocketGroup = []"
    "env_of (e2e_child env auto) ''PLUGIN_CLIENT_CERT'' =
       (if auto then replicate 60 CHR ''d'' else if env = [] then [] else ''outer'')"
  using assms
  by (auto simp: e2e_child_def env_names entry_value.simps)

lemma e2e_connected:
  assumes "env \<in> {[], [''PLUGIN_CLIENT_CERT=outer'']}"
  shows "\<exists>c1 r line. connected (e2e_host env) (e2e_client auto) c1 r (e2e_plugin env auto) demo_serve demo_fs (UnixListener ''/plugin1'') line
    \<and> host_plugins (config c1) = [(1, cc_Plugins demo_config)] \<and> cc_AllowedProtocols (config c1) = Some [ProtocolGRPC]"
proof -
  obtain c1 r cr where p: "start_prepare (e2e_host env) (e2e_client auto) = (c1, Inr (r, Some cr))"
    "cmd_Env (cr_cmd cr) = e2e_child env auto" "host_plugins (config c1) = [(1, cc_Plugins demo_config)]"
    "cc_AllowedProtocols (config c1) = Some [ProtocolGRPC]" using e2e_prepare by blast
  note S = demo_plugin_serves [of "env_of (e2e_child env auto)", OF e2e_env(1-5) [OF assms], folded e2e_plugin_def]
  have "sv_env (e2e_plugin env auto) = env_of (cmd_Env (cr_cmd cr))" by (simp add: e2e_plugin_def p(2))
  with p S show ?thesis unfolding connected_def by blast
qed

lemma e2e_resolves:
  "resolve_addr (e2e_host env) (addr_Network (listen_addr (UnixListener ''/plugin1''))) (addr_String (listen_addr (UnixListener ''/plugin1'')))
     = Inr \<lparr>addr_Network = ''unix'', addr_String = ''/plugin1''\<rparr>"
  by (simp add: resolve_addr_def e2e_host_def demo_start_def)

lemma e2e_rest:
  assumes "env \<in> {[], [''PLUGIN_CLIENT_CERT=outer'']}"
    and "host_plugins (config c1) = [(1, cc_Plugins demo_config)]" "cc_AllowedProtocols (config c1) = Some [ProtocolGRPC]"
  shows "\<forall>v \<in> fst ` set (host_plugins (config c1)). is_int64 v"
    and "fst ` set (served_plugins demo_serve) \<inter> fst ` set (host_plugins (config c1)) = {1}"
    and "CHR ''|'' \<notin> set (addr_String (listen_addr (UnixListener ''/plugin1'')))"
    and "PluginToHost demo_attached = cmd_PluginToHost"
    and "fst (snd (fst (protocolVersion (sv_env (e2e_plugin env auto)) demo_serve)))
      \<in> set (case cc_AllowedProtocols (config c1) of None \<Rightarrow> [] | Some ps \<Rightarrow> ps)"
  using demo_plugin_serves [of "env_of (e2e_child env auto)", OF e2e_env(1-5) [OF assms(1)], folded e2e_plugin_def] assms(2,3)
  by (simp_all add: is_int64_def demo_attached_def)


theorem end_to_end_mtls_witness:
  "\<exists>c1 r line c2 t2. connected (e2e_host []) (e2e_client True) c1 r (e2e_plugin [] True) demo_serve demo_fs (UnixListener ''/plugin1'') line
     \<and> handshake (e2e_host []) r demo_attached line True c1 = (c2, HsOk \<lparr>addr_Network = ''unix'', addr_String = ''/plugin1''\<rparr>)
     \<and> cc_TLSConfig (config c2) = Some t2 \<and> RootCAs t2 = Some [replicate 60 CHR ''d'']"
proof -
  have env: "[] \<in> {[], [''PLUGIN_CLIENT_CERT=outer'']}" by simp
  obtain c1 r line where con: "connected (e2e_host []) (e2e_client True) c1 r (e2e_plugin [] True) demo_serve demo_fs (UnixListener ''/plugin1'') line"
    and c1: "host_plugins (config c1) = [(1, cc_Plugins demo_config)]" "cc_AllowedProtocols (config c1) = Some [ProtocolGRPC]"
    using e2e_connected [OF env] by blast
  note R = e2e_rest(1-4) [OF env c1] e2e_rest(5) [OF env c1, of True]
  have e: "sv_env (e2e_plugin [] True) ''PLUGIN_CLIENT_CERT'' \<noteq> []" by (simp add: e2e_plugin_def e2e_env(6) [OF env])
  have g: "generateCert (sv_crypto (e2e_plugin [] True)) = Inr (replicate 60 CHR ''d'', ''key'')"
    "tls_X509KeyPair (sv_crypto (e2e_plugin [] True)) (replicate 60 CHR ''d'') ''key'' = Inr [replicate 60 CHR ''d'']"
    by (simp_all add: e2e_plugin_def demo_world_def demo_cert)
  have x: "x509_ParseCertificate (w_crypto (e2e_host [])) (replicate 60 CHR ''d'') = Inr (replicate 60 CHR ''d'')"
    by (simp add: demo_crypto_def)
  have "fst ` set (served_plugins demo_serve) \<inter> fst ` set (host_plugins (config c1)) \<noteq> {}" using R(2) by simp
  from end_to_end_mtls [OF con R(1) this R(3,4) e2e_resolves R(5) _ e g _ x, where ok=True]
  obtain c2 t2 where "handshake (e2e_host []) r demo_attached line True c1 = (c2, HsOk \<lparr>addr_Network = ''unix'', addr_String = ''/plugin1''\<rparr>)"
    "cc_TLSConfig (config c2) = Some t2" "RootCAs t2 = Some [replicate 60 CHR ''d'']" by auto
  with con show ?thesis by blast
qed

theorem inherited_cert_panics_witness:
  "\<exists>c1 r line. connected (e2e_host [''PLUGIN_CLIENT_CERT=outer'']) (e2e_client False) c1 r
       (e2e_plugin [''PLUGIN_CLIENT_CERT=outer''] False) demo_serve demo_fs (UnixListener ''/plugin1'') line
     \<and> snd (handshake (e2e_host [''PLUGIN_CLIENT_CERT=outer'']) r demo_attached line True c1) = HsPanic nil_deref"
proof -
  let ?v = "[''PLUGIN_CLIENT_CERT=outer'']"
  have env: "?v \<in> {[], [''PLUGIN_CLIENT_CERT=outer'']}" by simp
  obtain c1 r line where con: "connected (e2e_host ?v) (e2e_client False) c1 r (e2e_plugin ?v False) demo_serve demo_fs (UnixListener ''/plugin1'') line"
    and c1: "host_plugins (config c1) = [(1, cc_Plugins demo_config)]" "cc_AllowedProtocols (config c1) = Some [ProtocolGRPC]"
    using e2e_connected [OF env] by blast
  note R = e2e_rest(1-4) [OF env c1] e2e_rest(5) [OF env c1, of False]
  have e: "sv_env (e2e_plugin ?v False) ''PLUGIN_CLIENT_CERT'' \<noteq> []" by (simp add: e2e_plugin_def e2e_env(6) [OF env])
  have m: "\<exists>t. serve_mtls (sv_crypto (e2e_plugin ?v False)) p = Inr (t, b64_encode (replicate 60 CHR ''d''))" for p
    by (simp add: serve_mtls_def e2e_plugin_def demo_world_def demo_cert Let_def)
  have x: "x509_ParseCertificate (w_crypto (e2e_host ?v)) (replicate 60 CHR ''d'') = Inr (replicate 60 CHR ''d'')"
    by (simp add: demo_crypto_def)
  obtain t where t: "serve_mtls (sv_crypto (e2e_plugin ?v False)) (sv_env (e2e_plugin ?v False) ''PLUGIN_CLIENT_CERT'')
      = Inr (t, b64_encode (replicate 60 CHR ''d''))" using m by blast
  have "fst ` set (served_plugins demo_serve) \<inter> fst ` set (host_plugins (config c1)) \<noteq> {}" using R(2) by simp
  from inherited_cert_panics [OF con R(1) this R(3,4) e2e_resolves R(5) _ _ e t _ x, where ok=True] con show ?thesis by auto
qed

end
