(* ===== verification/Wire.thy ===== *)
theory Wire
  imports GoPrelude
begin

text \<open>
  What both brokers share: the little-endian wire format of a stream identifier, the contract of
  an identifier counter, and the contract of a table of pending entries that are created on first
  use and deleted later. The entries are numbered in the order of their allocation, so that two
  entries for one identifier can be told apart.
\<close>

unbundle bit_operations_syntax

section \<open>Identifiers on the wire\<close>

type_synonym stream_id = "32 word"

type_synonym bytes = "8 word list"

text \<open>\<open>binary.Write\<close> and \<open>binary.Read\<close> of a \<open>uint32\<close> in little-endian order.\<close>

definition le_bytes :: "stream_id \<Rightarrow> bytes" where
  "le_bytes w = [ucast w, ucast (drop_bit 8 w), ucast (drop_bit 16 w), ucast (drop_bit 24 w)]"

fun le_word :: "bytes \<Rightarrow> stream_id option" where
  "le_word (a # b # c # d # _) =
     Some (ucast a OR push_bit 8 (ucast b) OR push_bit 16 (ucast c) OR push_bit 24 (ucast d))"
| "le_word _ = None"

lemma le_bits:
  fixes w :: stream_id
  shows "(ucast (ucast w :: 8 word) :: stream_id) OR push_bit 8 (ucast (ucast (drop_bit 8 w) :: 8 word))
      OR push_bit 16 (ucast (ucast (drop_bit 16 w) :: 8 word))
      OR push_bit 24 (ucast (ucast (drop_bit 24 w) :: 8 word)) = w" (is "?v = w")
proof (rule bit_word_eqI)
  fix n
  assume "n < LENGTH(32)"
  then have "n < 8 \<or> (8 \<le> n \<and> n < 16) \<or> (16 \<le> n \<and> n < 24) \<or> (24 \<le> n \<and> n < 32)" by auto
  then show "bit ?v n = bit w n" by (elim disjE) (auto simp: bit_simps)
qed

lemma le_word_bytes [simp]: "le_word (le_bytes w @ bs) = Some w"
  by (simp add: le_bytes_def le_bits)

lemma le_word_short: "length bs < 4 \<Longrightarrow> le_word bs = None"
  by (cases bs rule: le_word.cases) auto

lemma le_word_long: "4 \<le> length bs \<Longrightarrow> le_word bs \<noteq> None"
  by (cases bs rule: le_word.cases) auto

lemma length_le_bytes [simp]: "length (le_bytes w) = 4"
  by (simp add: le_bytes_def)

section \<open>Identifier counters\<close>

text \<open>The identifiers that \<open>n\<close> successive calls return.\<close>

fun take_ids :: "('s \<Rightarrow> stream_id \<times> 's) \<Rightarrow> nat \<Rightarrow> 's \<Rightarrow> stream_id list" where
  "take_ids next_id 0 s = []"
| "take_ids next_id (Suc n) s = (case next_id s of (i, s') \<Rightarrow> i # take_ids next_id n s')"

locale id_source =
  fixes next_id :: "'s \<Rightarrow> stream_id \<times> 's" and counter :: "'s \<Rightarrow> stream_id"
  assumes next_value: "fst (next_id s) = counter s + 1"
    and next_counter: "counter (snd (next_id s)) = counter s + 1"
begin

lemma take_ids_eq: "take_ids next_id n s = map (\<lambda>i. counter s + of_nat (Suc i)) [0..<n]"
proof (induction n arbitrary: s)
  case (Suc n)
  obtain i s' where n: "next_id s = (i, s')" by fastforce
  have i: "i = counter s + 1" "counter s' = counter s + 1"
    using next_value [of s] next_counter [of s] by (simp_all add: n)
  have "map (\<lambda>i. counter s + of_nat (Suc i)) [0..<Suc n] =
      (counter s + 1) # map (\<lambda>i. counter s + 1 + of_nat (Suc i)) [0..<n]"
    by (simp add: upt_conv_Cons map_Suc_upt [symmetric] add.assoc del: upt_Suc)
  with Suc.IH [of s'] show ?case by (simp add: n i)
qed simp

lemma ids_distinct:
  assumes "n \<le> 2 ^ 32"
  shows "distinct (take_ids next_id n s)"
proof -
  have "inj_on (\<lambda>i. counter s + of_nat (Suc i)) {0..<n}"
  proof (rule inj_onI)
    fix i j
    assume ij: "i \<in> {0..<n}" "j \<in> {0..<n}"
      and eq: "counter s + of_nat (Suc i) = counter s + of_nat (Suc j)"
    from eq have "(of_nat i :: stream_id) = of_nat j" by simp
    moreover have "i < 2 ^ 32" "j < 2 ^ 32" using ij assms by auto
    ultimately show "i = j" by (simp add: word_of_nat_eq_iff take_bit_nat_eq_self)
  qed
  then show ?thesis unfolding take_ids_eq by (simp add: distinct_map)
qed

lemma ids_nonzero:
  assumes "counter s = 0" and "n < 2 ^ 32"
  shows "0 \<notin> set (take_ids next_id n s)"
proof
  assume "0 \<in> set (take_ids next_id n s)"
  then obtain i where i: "i < n" "(of_nat (Suc i) :: stream_id) = 0"
    using assms(1) by (auto simp: take_ids_eq)
  then have "Suc i mod 2 ^ 32 = 0"
    by (simp only: word_of_nat_eq_0_iff) (simp add: dvd_eq_mod_eq_0)
  with i(1) assms(2) show False by simp
qed

lemma ids_wrap: "counter s = 2 ^ 32 - 1 \<Longrightarrow> fst (next_id s) = 0"
  by (simp add: next_value)

end

section \<open>Tables of pending entries\<close>

text \<open>
  \<open>get k\<close> returns the entry of \<open>k\<close>, allocating one if there is none; \<open>del k\<close> removes it from the
  table. \<open>tab\<close> is the table and \<open>alloc\<close> the number of entries allocated so far.
\<close>

locale pending_table =
  fixes get :: "'k \<Rightarrow> 's \<Rightarrow> nat \<times> 's"
    and del :: "'k \<Rightarrow> 's \<Rightarrow> 's"
    and tab :: "'s \<Rightarrow> 'k \<Rightarrow> nat option"
    and alloc :: "'s \<Rightarrow> nat"
  assumes get_present: "tab s k = Some p \<Longrightarrow> get k s = (p, s)"
    and get_absent_entry: "tab s k = None \<Longrightarrow> fst (get k s) = alloc s"
    and get_absent_tab: "tab s k = None \<Longrightarrow> tab (snd (get k s)) = (tab s)(k \<mapsto> alloc s)"
    and get_absent_alloc: "tab s k = None \<Longrightarrow> alloc (snd (get k s)) = Suc (alloc s)"
    and del_tab: "tab (del k s) = (tab s)(k := None)"
    and del_alloc: "alloc (del k s) = alloc s"
begin

definition wf :: "'s \<Rightarrow> bool" where
  "wf s \<longleftrightarrow> (\<forall>k p. tab s k = Some p \<longrightarrow> p < alloc s)
     \<and> (\<forall>k k' p. tab s k = Some p \<longrightarrow> tab s k' = Some p \<longrightarrow> k = k')"

lemma get_in_tab: "tab (snd (get k s)) k = Some (fst (get k s))"
  by (cases "tab s k") (simp_all add: get_present get_absent_entry get_absent_tab)

lemma get_twice: "get k (snd (get k s)) = (fst (get k s), snd (get k s))"
  by (rule get_present) (rule get_in_tab)

lemma get_other: "k' \<noteq> k \<Longrightarrow> tab (snd (get k s)) k' = tab s k'"
  by (cases "tab s k") (simp_all add: get_present get_absent_tab)

lemma get_wf: "wf s \<Longrightarrow> wf (snd (get k s))"
proof (cases "tab s k")
  case None
  assume "wf s"
  with None show ?thesis
    unfolding wf_def by (auto simp: get_absent_tab get_absent_alloc less_Suc_eq)
qed (simp add: get_present)

lemma del_wf: "wf s \<Longrightarrow> wf (del k s)"
  unfolding wf_def by (auto simp: del_tab del_alloc)

lemma get_allocated: "wf s \<Longrightarrow> fst (get k s) < alloc (snd (get k s))"
  using get_in_tab [of k s] get_wf [of s k] unfolding wf_def by blast

text \<open>A deleted entry never comes back: the next entry of its key is one that never existed.\<close>

lemma get_after_del: "wf s \<Longrightarrow> fst (get k (del k s)) = alloc s \<and> tab s j \<noteq> Some (alloc s)"
  by (auto simp: get_absent_entry del_tab del_alloc wf_def)

text \<open>Entries of different keys are different.\<close>

lemma get_distinct: "wf s \<Longrightarrow> k \<noteq> k' \<Longrightarrow> tab (snd (get k s)) k' \<noteq> Some (fst (get k s))"
  using get_wf [of s k] get_in_tab [of k s] unfolding wf_def by auto

end

end
