(* ===== verification/MuxBroker.thy ===== *)
theory MuxBroker
  imports Wire Config "HOL-Library.Multiset"
begin

text \<open>
  The broker of the net/rpc transport (\<open>mux_broker.go\<close>): named streams over one multiplexed
  session. The table of pending entries and the entries themselves are an explicit store. \<open>Run\<close>,
  \<open>Accept\<close> and \<open>timeoutWait\<close> run in goroutines of their own, so they are cut where another
  goroutine can get in between, and a step relation interleaves the pieces freely; in particular a
  timeout may fire at any moment. Streams of the session are numbered as they arrive, with the
  bytes that the peer sent first. \<open>Dial\<close> is a function of the results of the session.
\<close>

section \<open>State\<close>

text \<open>The buffered channel \<open>ch\<close> of capacity one holds at most one stream.\<close>

record muxBrokerPending =
  p_ch :: "nat option"
  p_doneCh :: bool

record mux_broker =
  mb_nextID :: stream_id
  mb_streams :: "stream_id \<Rightarrow> nat option"
  mb_pendings :: "muxBrokerPending list"

definition newMuxBroker :: mux_broker where
  "newMuxBroker = \<lparr>mb_nextID = 0, mb_streams = Map.empty, mb_pendings = []\<rparr>"

definition NextId :: "mux_broker \<Rightarrow> stream_id \<times> mux_broker" where
  "NextId m = (let n = mb_nextID m + 1 in (n, m\<lparr>mb_nextID := n\<rparr>))"

definition getStream :: "stream_id \<Rightarrow> mux_broker \<Rightarrow> nat \<times> mux_broker" where
  "getStream sid m =
     (case mb_streams m sid of
        Some p \<Rightarrow> (p, m)
      | None \<Rightarrow>
          (let p = length (mb_pendings m)
           in (p, m\<lparr>mb_streams := (mb_streams m)(sid \<mapsto> p),
                    mb_pendings := mb_pendings m @ [\<lparr>p_ch = None, p_doneCh = False\<rparr>]\<rparr>)))"

definition delete_stream :: "stream_id \<Rightarrow> mux_broker \<Rightarrow> mux_broker" where
  "delete_stream sid m = m\<lparr>mb_streams := (mb_streams m)(sid := None)\<rparr>"

definition set_ch :: "nat \<Rightarrow> nat option \<Rightarrow> mux_broker \<Rightarrow> mux_broker" where
  "set_ch p c m = m\<lparr>mb_pendings := (mb_pendings m)[p := (mb_pendings m ! p)\<lparr>p_ch := c\<rparr>]\<rparr>"

definition set_done :: "nat \<Rightarrow> bool \<Rightarrow> mux_broker \<Rightarrow> mux_broker" where
  "set_done p d m = m\<lparr>mb_pendings := (mb_pendings m)[p := (mb_pendings m ! p)\<lparr>p_doneCh := d\<rparr>]\<rparr>"

section \<open>Dial\<close>

text \<open>
  The results of the session: of opening a stream, of writing the identifier, and the bytes the
  peer answers with before the read ends with the given error. The value is the result, whether
  the stream was closed, and what was written to it.
\<close>

definition read_id :: "goerror \<Rightarrow> bytes \<Rightarrow> stream_id res" where
  "read_id end_err bs = (case le_word bs of Some w \<Rightarrow> Inr w | None \<Rightarrow> Inl end_err)"

definition Dial_mux ::
  "goerror option \<Rightarrow> goerror option \<Rightarrow> goerror \<Rightarrow> bytes \<Rightarrow> stream_id \<Rightarrow> goerror option \<times> bool \<times> bytes" where
  "Dial_mux open_err write_err end_err answer sid =
     (case open_err of
        Some err \<Rightarrow> (Some err, False, [])
      | None \<Rightarrow>
          (case write_err of
             Some err \<Rightarrow> (Some err, True, [])
           | None \<Rightarrow>
               (case read_id end_err answer of
                  Inl err \<Rightarrow> (Some err, True, le_bytes sid)
                | Inr ack \<Rightarrow>
                    (if ack \<noteq> sid
                     then (Some (Errorf ''bad ack: %d (expected %d)'' [FInt (uint ack), FInt (uint sid)]), True, le_bytes sid)
                     else (None, False, le_bytes sid)))))"

section \<open>Goroutines\<close>

text \<open>Where a call of \<open>Accept\<close> stands: in its select, or holding the stream it received.\<close>

datatype acc_pc = AcceptWait stream_id nat | AcceptTaken stream_id nat nat

record mux_sys =
  ms_broker :: mux_broker
  ms_conns :: "bytes list"
  ms_run :: "(stream_id \<times> nat \<times> nat) option"
  ms_accepts :: "acc_pc list"
  ms_waiters :: "(stream_id \<times> nat) list"
  ms_returned :: "(stream_id \<times> nat res) list"
  ms_closed :: "nat list"
  ms_written :: "(nat \<times> bytes) list"

definition mux_init :: mux_sys where
  "mux_init = \<lparr>ms_broker = newMuxBroker, ms_conns = [], ms_run = None, ms_accepts = [],
               ms_waiters = [], ms_returned = [], ms_closed = [], ms_written = []\<rparr>"

abbreviation pend :: "mux_sys \<Rightarrow> nat \<Rightarrow> muxBrokerPending" where
  "pend s p \<equiv> mb_pendings (ms_broker s) ! p"

text \<open>\<open>Run\<close>: the next stream arrives and its identifier is read and looked up; then the select.\<close>

definition Run_read :: "bytes \<Rightarrow> mux_sys \<Rightarrow> mux_sys" where
  "Run_read bs s =
     (let c = length (ms_conns s); s' = s\<lparr>ms_conns := ms_conns s @ [bs]\<rparr>
      in case le_word bs of
           None \<Rightarrow> s'\<lparr>ms_closed := c # ms_closed s\<rparr>
         | Some sid \<Rightarrow>
             (case getStream sid (ms_broker s) of
                (p, b) \<Rightarrow> s'\<lparr>ms_broker := b, ms_run := Some (sid, p, c)\<rparr>))"

definition Run_queue :: "stream_id \<Rightarrow> nat \<Rightarrow> nat \<Rightarrow> mux_sys \<Rightarrow> mux_sys" where
  "Run_queue sid p c s =
     (if p_ch (pend s p) = None
      then s\<lparr>ms_run := None, ms_broker := set_ch p (Some c) (ms_broker s), ms_waiters := (sid, p) # ms_waiters s\<rparr>
      else s\<lparr>ms_run := None, ms_closed := c # ms_closed s\<rparr>)"

text \<open>\<open>Accept\<close>: the look-up; the receive; closing \<open>doneCh\<close> and the acknowledgement; the timeout.\<close>

definition Accept_begin :: "stream_id \<Rightarrow> mux_sys \<Rightarrow> mux_sys" where
  "Accept_begin sid s =
     (case getStream sid (ms_broker s) of
        (p, b) \<Rightarrow> s\<lparr>ms_broker := b, ms_accepts := AcceptWait sid p # ms_accepts s\<rparr>)"

definition Accept_recv :: "stream_id \<Rightarrow> nat \<Rightarrow> nat \<Rightarrow> mux_sys \<Rightarrow> mux_sys" where
  "Accept_recv sid p c s =
     s\<lparr>ms_broker := set_ch p None (ms_broker s),
       ms_accepts := AcceptTaken sid p c # remove1 (AcceptWait sid p) (ms_accepts s)\<rparr>"

definition Accept_ack :: "goerror option \<Rightarrow> stream_id \<Rightarrow> nat \<Rightarrow> nat \<Rightarrow> mux_sys \<Rightarrow> mux_sys outcome" where
  "Accept_ack write_err sid p c s =
     bind_out (close_chan (p_doneCh (pend s p)))
       (\<lambda>d. let s' = s\<lparr>ms_broker := set_done p d (ms_broker s),
                       ms_accepts := remove1 (AcceptTaken sid p c) (ms_accepts s)\<rparr>
            in Ret (case write_err of
                 Some err \<Rightarrow> s'\<lparr>ms_closed := c # ms_closed s, ms_returned := (sid, Inl err) # ms_returned s\<rparr>
               | None \<Rightarrow> s'\<lparr>ms_written := (c, le_bytes sid) # ms_written s,
                            ms_returned := (sid, Inr c) # ms_returned s\<rparr>))"

definition accept_timeout_err :: "stream_id \<Rightarrow> goerror" where
  "accept_timeout_err sid = Errorf ''%w: waiting for accept on id %d'' [FErr (Sentinel ErrBrokerTimeout), FInt (uint sid)]"

definition Accept_timeout :: "stream_id \<Rightarrow> nat \<Rightarrow> mux_sys \<Rightarrow> mux_sys" where
  "Accept_timeout sid p s =
     s\<lparr>ms_broker := delete_stream sid (ms_broker s),
       ms_accepts := remove1 (AcceptWait sid p) (ms_accepts s),
       ms_returned := (sid, Inl (accept_timeout_err sid)) # ms_returned s\<rparr>"

text \<open>\<open>timeoutWait\<close>, by which case of its select it was woken.\<close>

definition timeoutWait :: "bool \<Rightarrow> stream_id \<Rightarrow> nat \<Rightarrow> mux_sys \<Rightarrow> mux_sys" where
  "timeoutWait timeout sid p s =
     (let b = delete_stream sid (ms_broker s);
          s' = s\<lparr>ms_broker := b, ms_waiters := remove1 (sid, p) (ms_waiters s)\<rparr>
      in if timeout
         then (case p_ch (pend s p) of
                 Some c \<Rightarrow> s'\<lparr>ms_broker := set_ch p None b, ms_closed := c # ms_closed s\<rparr>
               | None \<Rightarrow> s')
         else s')"

inductive mux_step :: "mux_sys \<Rightarrow> mux_sys outcome \<Rightarrow> bool" where
  step_read: "ms_run s = None \<Longrightarrow> mux_step s (Ret (Run_read bs s))"
| step_queue: "ms_run s = Some (sid, p, c) \<Longrightarrow> mux_step s (Ret (Run_queue sid p c s))"
| step_accept: "mux_step s (Ret (Accept_begin sid s))"
| step_recv: "AcceptWait sid p \<in> set (ms_accepts s) \<Longrightarrow> p_ch (pend s p) = Some c
    \<Longrightarrow> mux_step s (Ret (Accept_recv sid p c s))"
| step_ack: "AcceptTaken sid p c \<in> set (ms_accepts s) \<Longrightarrow> mux_step s (Accept_ack write_err sid p c s)"
| step_accept_timeout: "AcceptWait sid p \<in> set (ms_accepts s) \<Longrightarrow> mux_step s (Ret (Accept_timeout sid p s))"
| step_wait_done: "(sid, p) \<in> set (ms_waiters s) \<Longrightarrow> p_doneCh (pend s p)
    \<Longrightarrow> mux_step s (Ret (timeoutWait False sid p s))"
| step_wait_timeout: "(sid, p) \<in> set (ms_waiters s) \<Longrightarrow> mux_step s (Ret (timeoutWait True sid p s))"
| step_next: "mux_step s (Ret (s\<lparr>ms_broker := snd (NextId (ms_broker s))\<rparr>))"

inductive mux_reach :: "mux_sys \<Rightarrow> bool" where
  reach_init: "mux_reach mux_init"
| reach_step: "mux_reach s \<Longrightarrow> mux_step s (Ret s') \<Longrightarrow> mux_reach s'"

inductive_cases mux_step_panicE: "mux_step s (Panic m)"

section \<open>The interfaces\<close>

lemmas mux_store_defs = getStream_def delete_stream_def set_ch_def set_done_def NextId_def

interpretation mux_ids: id_source NextId mb_nextID
  by unfold_locales (simp_all add: NextId_def Let_def)

interpretation mux_tab: pending_table getStream delete_stream mb_streams "\<lambda>m. length (mb_pendings m)"
  by unfold_locales (simp_all add: mux_store_defs Let_def split: option.splits)

end
