(* ===== verification/MuxBrokerSafety.thy ===== *)
theory MuxBrokerSafety
  imports MuxBroker
begin

text \<open>
  Invariants of every interleaving of the net/rpc broker's goroutines: an entry belongs to one
  identifier, every stream is in exactly one place, a stream only ever reaches callers that
  asked for the identifier it was dialled with, and, as long as no identifier is dialled twice, no
  interleaving panics and every queued stream is watched by a \<open>timeoutWait\<close>.
\<close>

section \<open>Who refers to which entry\<close>

text \<open>The pairs of an identifier and an entry that the table and the goroutines hold.\<close>

fun acc_ref :: "acc_pc \<Rightarrow> stream_id \<times> nat" where
  "acc_ref (AcceptWait i p) = (i, p)"
| "acc_ref (AcceptTaken i p c) = (i, p)"

definition mux_refs :: "mux_sys \<Rightarrow> (stream_id \<times> nat) set" where
  "mux_refs s =
     {(i, p). mb_streams (ms_broker s) i = Some p}
     \<union> (case ms_run s of None \<Rightarrow> {} | Some (i, p, c) \<Rightarrow> {(i, p)})
     \<union> acc_ref ` set (ms_accepts s) \<union> set (ms_waiters s)"

definition refs_inv :: "mux_sys \<Rightarrow> bool" where
  "refs_inv s \<longleftrightarrow>
     (\<forall>i p. (i, p) \<in> mux_refs s \<longrightarrow> p < length (mb_pendings (ms_broker s)))
     \<and> (\<forall>i j p. (i, p) \<in> mux_refs s \<longrightarrow> (j, p) \<in> mux_refs s \<longrightarrow> i = j)"

lemma refs_invD:
  assumes "refs_inv s"
  shows "(i, p) \<in> mux_refs s \<Longrightarrow> p < length (mb_pendings (ms_broker s))"
    and "(i, p) \<in> mux_refs s \<Longrightarrow> (j, p) \<in> mux_refs s \<Longrightarrow> i = j"
  using assms unfolding refs_inv_def by blast+

text \<open>A step either adds no reference, or one to an entry that is new.\<close>

definition refs_step :: "mux_sys \<Rightarrow> mux_sys \<Rightarrow> bool" where
  "refs_step s s' \<longleftrightarrow>
     (mux_refs s' \<subseteq> mux_refs s \<and> length (mb_pendings (ms_broker s')) = length (mb_pendings (ms_broker s)))
     \<or> (\<exists>i. mux_refs s' \<subseteq> insert (i, length (mb_pendings (ms_broker s))) (mux_refs s)
            \<and> length (mb_pendings (ms_broker s')) = Suc (length (mb_pendings (ms_broker s))))"

lemma refs_step_inv:
  assumes "refs_inv s" and "refs_step s s'"
  shows "refs_inv s'"
proof -
  let ?n = "length (mb_pendings (ms_broker s))"
  have lt: "p < ?n" if "(i, p) \<in> mux_refs s" for i p using refs_invD(1) [OF assms(1) that] .
  consider (same) "mux_refs s' \<subseteq> mux_refs s" "length (mb_pendings (ms_broker s')) = ?n"
    | (new) k where "mux_refs s' \<subseteq> insert (k, ?n) (mux_refs s)" "length (mb_pendings (ms_broker s')) = Suc ?n"
    using assms(2) unfolding refs_step_def by blast
  then show ?thesis
  proof cases
    case same
    have "i = j" if "(i, p) \<in> mux_refs s'" "(j, p) \<in> mux_refs s'" for i j p
      using refs_invD(2) [OF assms(1)] subsetD [OF same(1)] that by meson
    moreover have "p < ?n" if "(i, p) \<in> mux_refs s'" for i p
      by (rule lt) (rule subsetD [OF same(1) that])
    ultimately show ?thesis unfolding refs_inv_def same(2) by blast
  next
    case new
    have "p < Suc ?n" if "(i, p) \<in> mux_refs s'" for i p
      using subsetD [OF new(1) that] lt [of i p] by auto
    moreover have "i = j" if "(i, p) \<in> mux_refs s'" "(j, p) \<in> mux_refs s'" for i j p
      using subsetD [OF new(1) that(1)] subsetD [OF new(1) that(2)] lt [of i p] lt [of j p]
        refs_invD(2) [OF assms(1), of i p j] by auto
    ultimately show ?thesis unfolding refs_inv_def using new(2) by simp
  qed
qed

lemma length_set_ch [simp]:
  "length (mb_pendings (set_ch p c m)) = length (mb_pendings m)"
  "length (mb_pendings (set_done p d m)) = length (mb_pendings m)"
  "length (mb_pendings (delete_stream i m)) = length (mb_pendings m)"
  "mb_streams (set_ch p c m) = mb_streams m"
  "mb_streams (set_done p d m) = mb_streams m"
  "mb_streams (delete_stream i m) = (mb_streams m)(i := None)"
  "mb_pendings (delete_stream i m) = mb_pendings m"
  "mb_streams (snd (NextId m)) = mb_streams m"
  "mb_pendings (snd (NextId m)) = mb_pendings m"
  by (simp_all add: mux_store_defs Let_def)

lemma getStream_cases:
  obtains (old) p where "getStream i m = (p, m)" "mb_streams m i = Some p"
  | (new) m' where "getStream i m = (length (mb_pendings m), m')" "mb_streams m i = None"
      "mb_streams m' = (mb_streams m)(i \<mapsto> length (mb_pendings m))"
      "mb_pendings m' = mb_pendings m @ [\<lparr>p_ch = None, p_doneCh = False\<rparr>]"
proof (cases "mb_streams m i")
  case None
  then show thesis by (intro new [of "snd (getStream i m)"]) (simp_all add: getStream_def Let_def)
next
  case (Some p)
  then show thesis by (intro old) (simp_all add: getStream_def)
qed

lemma refs_stepI:
  "mux_refs s' \<subseteq> mux_refs s \<Longrightarrow> length (mb_pendings (ms_broker s')) = length (mb_pendings (ms_broker s))
     \<Longrightarrow> refs_step s s'"
  by (simp add: refs_step_def)

lemma refs_Run_read: "ms_run s = None \<Longrightarrow> refs_step s (Run_read bs s)"
proof (cases "le_word bs")
  case None
  then show ?thesis by (intro refs_stepI) (simp_all add: mux_refs_def Run_read_def Let_def)
next
  case (Some i)
  assume run: "ms_run s = None"
  show ?thesis
  proof (rule getStream_cases [of i "ms_broker s"])
    fix p
    assume "getStream i (ms_broker s) = (p, ms_broker s)" "mb_streams (ms_broker s) i = Some p"
    with Some run show ?thesis by (intro refs_stepI) (auto simp: mux_refs_def Run_read_def)
  next
    fix m'
    assume "getStream i (ms_broker s) = (length (mb_pendings (ms_broker s)), m')"
      "mb_streams m' = (mb_streams (ms_broker s))(i \<mapsto> length (mb_pendings (ms_broker s)))"
      "mb_pendings m' = mb_pendings (ms_broker s) @ [\<lparr>p_ch = None, p_doneCh = False\<rparr>]"
    with Some run show ?thesis
      unfolding refs_step_def
      by (intro disjI2 exI [of _ i]) (auto simp: mux_refs_def Run_read_def split: if_splits)
  qed
qed

lemma refs_Accept_begin: "refs_step s (Accept_begin i s)"
proof (rule getStream_cases [of i "ms_broker s"])
  fix p
  assume "getStream i (ms_broker s) = (p, ms_broker s)" "mb_streams (ms_broker s) i = Some p"
  then show ?thesis by (intro refs_stepI) (auto simp: mux_refs_def Accept_begin_def)
next
  fix m'
  assume "getStream i (ms_broker s) = (length (mb_pendings (ms_broker s)), m')"
    "mb_streams m' = (mb_streams (ms_broker s))(i \<mapsto> length (mb_pendings (ms_broker s)))"
    "mb_pendings m' = mb_pendings (ms_broker s) @ [\<lparr>p_ch = None, p_doneCh = False\<rparr>]"
  then show ?thesis
    unfolding refs_step_def
    by (intro disjI2 exI [of _ i]) (auto simp: mux_refs_def Accept_begin_def split: if_splits)
qed

lemma in_remove1: "x \<in> set (remove1 a xs) \<Longrightarrow> x \<in> set xs"
  using set_remove1_subset by fast

lemma refs_Run_queue: "ms_run s = Some (i, p, c) \<Longrightarrow> refs_step s (Run_queue i p c s)"
  by (intro refs_stepI) (auto simp: mux_refs_def Run_queue_def)

lemma refs_Accept_recv: "AcceptWait i p \<in> set (ms_accepts s) \<Longrightarrow> refs_step s (Accept_recv i p c s)"
proof (intro refs_stepI)
  assume "AcceptWait i p \<in> set (ms_accepts s)"
  then have "acc_ref (AcceptTaken i p c) \<in> acc_ref ` set (ms_accepts s)"
    by (metis acc_ref.simps imageI)
  then show "mux_refs (Accept_recv i p c s) \<subseteq> mux_refs s"
    by (auto simp: mux_refs_def Accept_recv_def dest!: in_remove1)
qed (simp add: Accept_recv_def)

lemma refs_Accept_ack: "Accept_ack we i p c s = Ret s' \<Longrightarrow> refs_step s s'"
  by (intro refs_stepI)
     (auto simp: mux_refs_def Accept_ack_def Let_def close_chan_def dest!: in_remove1
       split: option.splits if_splits)

lemma refs_Accept_timeout: "refs_step s (Accept_timeout i p s)"
  by (intro refs_stepI) (auto simp: mux_refs_def Accept_timeout_def dest!: in_remove1 split: if_splits)

lemma refs_timeoutWait: "refs_step s (timeoutWait t i p s)"
proof (intro refs_stepI)
  have "ms_accepts (timeoutWait t i p s) = ms_accepts s" "ms_run (timeoutWait t i p s) = ms_run s"
    "set (ms_waiters (timeoutWait t i p s)) \<subseteq> set (ms_waiters s)"
    "mb_streams (ms_broker (timeoutWait t i p s)) = (mb_streams (ms_broker s))(i := None)"
    by (auto simp: timeoutWait_def Let_def dest!: in_remove1 split: option.splits)
  then show "mux_refs (timeoutWait t i p s) \<subseteq> mux_refs s"
    unfolding mux_refs_def by (auto split: if_splits)
  show "length (mb_pendings (ms_broker (timeoutWait t i p s))) = length (mb_pendings (ms_broker s))"
    by (simp add: timeoutWait_def Let_def split: option.splits)
qed

lemma mux_step_refs:
  assumes "mux_step s (Ret s')"
  shows "refs_step s s'"
  using assms
proof (cases rule: mux_step.cases)
  case step_next
  then show ?thesis by (intro refs_stepI) (simp_all add: mux_refs_def)
qed (auto intro: refs_Run_read refs_Run_queue refs_Accept_begin refs_Accept_recv refs_Accept_ack
    refs_Accept_timeout refs_timeoutWait)

lemma reach_refs_inv: "mux_reach s \<Longrightarrow> refs_inv s"
proof (induction rule: mux_reach.induct)
  case reach_init
  then show ?case by (simp add: refs_inv_def mux_refs_def mux_init_def newMuxBroker_def)
qed (rule refs_step_inv, assumption, rule mux_step_refs)

section \<open>Where every stream is\<close>

text \<open>
  Every stream that arrived is in exactly one place: queued in an entry, in the hands of \<open>Run\<close> or
  of an \<open>Accept\<close>, returned to a caller, or closed.
\<close>

definition opt_list :: "'a option \<Rightarrow> 'a list" where
  "opt_list x = (case x of None \<Rightarrow> [] | Some y \<Rightarrow> [y])"

definition queued :: "mux_sys \<Rightarrow> nat list" where
  "queued s = concat (map (\<lambda>e. opt_list (p_ch e)) (mb_pendings (ms_broker s)))"

fun acc_conn :: "acc_pc \<Rightarrow> nat list" where
  "acc_conn (AcceptWait i p) = []"
| "acc_conn (AcceptTaken i p c) = [c]"

fun ret_conn :: "stream_id \<times> nat res \<Rightarrow> nat list" where
  "ret_conn (i, Inr c) = [c]"
| "ret_conn (i, Inl e) = []"

definition delivered :: "mux_sys \<Rightarrow> nat list" where
  "delivered s = concat (map ret_conn (ms_returned s))"

definition in_hand :: "mux_sys \<Rightarrow> nat list" where
  "in_hand s = (case ms_run s of None \<Rightarrow> [] | Some (i, p, c) \<Rightarrow> [c]) @ concat (map acc_conn (ms_accepts s))"

definition places :: "mux_sys \<Rightarrow> nat list" where
  "places s = queued s @ in_hand s @ delivered s @ ms_closed s"

definition place_inv :: "mux_sys \<Rightarrow> bool" where
  "place_inv s \<longleftrightarrow> mset (places s) = mset [0..<length (ms_conns s)]"

lemma mset_concat_remove1:
  "a \<in> set xs \<Longrightarrow> mset (concat (map f xs)) = mset (f a) + mset (concat (map f (remove1 a xs)))"
  by (induction xs) auto

lemma mset_concat_update:
  "i < length xs \<Longrightarrow>
     mset (concat (map f (xs[i := y]))) + mset (f (xs ! i)) = mset (concat (map f xs)) + mset (f y)"
  by (induction xs arbitrary: i) (auto simp: nth_Cons ac_simps split: nat.splits)

lemma queued_take:
  assumes "p < length (mb_pendings (ms_broker s))" and "p_ch (pend s p) = Some c"
    and "mb_pendings (ms_broker s') = mb_pendings (set_ch p None (ms_broker s))"
  shows "mset (queued s) = {#c#} + mset (queued s')"
  using mset_concat_update [OF assms(1), of "\<lambda>e. opt_list (p_ch e)" "(pend s p)\<lparr>p_ch := None\<rparr>"] assms(2,3)
  by (simp add: queued_def set_ch_def opt_list_def)

lemma queued_put:
  assumes "p < length (mb_pendings (ms_broker s))" and "p_ch (pend s p) = None"
    and "mb_pendings (ms_broker s') = mb_pendings (set_ch p (Some c) (ms_broker s))"
  shows "mset (queued s') = {#c#} + mset (queued s)"
  using mset_concat_update [OF assms(1), of "\<lambda>e. opt_list (p_ch e)" "(pend s p)\<lparr>p_ch := Some c\<rparr>"] assms(2,3)
  by (simp add: queued_def set_ch_def opt_list_def)

lemma queued_same:
  assumes "map p_ch (mb_pendings (ms_broker s')) = map p_ch (mb_pendings (ms_broker s))"
  shows "queued s' = queued s"
proof -
  have "queued s = concat (map opt_list (map p_ch (mb_pendings (ms_broker s))))" for s
    by (simp add: queued_def o_def)
  then show ?thesis by (simp only: assms)
qed

lemma map_p_ch_set_done [simp]: "map p_ch (mb_pendings (set_done p d m)) = map p_ch (mb_pendings m)"
proof (cases "p < length (mb_pendings m)")
  case True
  then have "(map p_ch (mb_pendings m))[p := p_ch (mb_pendings m ! p)] = map p_ch (mb_pendings m)"
    by (metis list_update_id nth_map)
  with True show ?thesis by (simp add: set_done_def map_update)
qed (simp add: set_done_def list_update_beyond)

lemma queued_getStream: "getStream i (ms_broker s) = (p, b) \<Longrightarrow> ms_broker s' = b \<Longrightarrow> queued s' = queued s"
  by (rule getStream_cases [of i "ms_broker s"]) (auto simp: queued_def opt_list_def)

lemmas place_defs = places_def in_hand_def delivered_def

lemma place_Run_read:
  assumes "place_inv s" and "ms_run s = None"
  shows "place_inv (Run_read bs s)"
proof (cases "le_word bs")
  case None
  then have "queued (Run_read bs s) = queued s" by (intro queued_same) (simp add: Run_read_def Let_def)
  with assms None show ?thesis by (simp add: place_inv_def place_defs del: mset_upt) (simp add: Run_read_def Let_def del: mset_upt)
next
  case (Some i)
  obtain p b where g: "getStream i (ms_broker s) = (p, b)" by fastforce
  then have "queued (Run_read bs s) = queued s"
    using Some by (intro queued_getStream [OF g]) (simp add: Run_read_def Let_def)
  with assms Some show ?thesis by (simp add: place_inv_def place_defs del: mset_upt) (simp add: Run_read_def Let_def g ac_simps del: mset_upt)
qed

lemma place_Run_queue:
  assumes "place_inv s" and "refs_inv s" and run: "ms_run s = Some (i, p, c)"
  shows "place_inv (Run_queue i p c s)"
proof (cases "p_ch (pend s p)")
  case None
  have "(i, p) \<in> mux_refs s" using run by (simp add: mux_refs_def)
  then have "mset (queued (Run_queue i p c s)) = {#c#} + mset (queued s)"
    using None refs_invD(1) [OF assms(2)] by (intro queued_put) (simp_all add: Run_queue_def)
  with assms(1) run None show ?thesis
    by (simp add: place_inv_def place_defs) (simp add: Run_queue_def)
next
  case (Some d)
  then have "queued (Run_queue i p c s) = queued s" by (intro queued_same) (simp add: Run_queue_def)
  with assms(1) run Some show ?thesis by (simp add: place_inv_def place_defs) (simp add: Run_queue_def)
qed

lemma place_Accept_begin: "place_inv s \<Longrightarrow> place_inv (Accept_begin i s)"
proof -
  assume inv: "place_inv s"
  obtain p b where g: "getStream i (ms_broker s) = (p, b)" by fastforce
  then have "queued (Accept_begin i s) = queued s"
    by (intro queued_getStream [OF g]) (simp add: Accept_begin_def)
  with inv show ?thesis by (simp add: place_inv_def place_defs) (simp add: Accept_begin_def g)
qed

lemma place_Accept_recv:
  assumes "place_inv s" and "refs_inv s" and acc: "AcceptWait i p \<in> set (ms_accepts s)"
    and ch: "p_ch (pend s p) = Some c"
  shows "place_inv (Accept_recv i p c s)"
proof -
  have "(i, p) \<in> mux_refs s" using acc by (force simp: mux_refs_def)
  then have "mset (queued s) = {#c#} + mset (queued (Accept_recv i p c s))"
    using refs_invD(1) [OF assms(2)] ch by (intro queued_take) (simp_all add: Accept_recv_def)
  moreover have "mset (concat (map acc_conn (remove1 (AcceptWait i p) (ms_accepts s)))) =
      mset (concat (map acc_conn (ms_accepts s)))"
    using mset_concat_remove1 [OF acc, of acc_conn] by simp
  ultimately show ?thesis
    using assms(1) by (simp add: place_inv_def place_defs) (simp add: Accept_recv_def ac_simps)
qed

lemma place_Accept_ack:
  assumes "place_inv s" and acc: "AcceptTaken i p c \<in> set (ms_accepts s)"
    and ret: "Accept_ack we i p c s = Ret s'"
  shows "place_inv s'"
proof -
  have nd: "\<not> p_doneCh (pend s p)" using ret by (auto simp: Accept_ack_def close_chan_def split: if_splits)
  have "queued s' = queued s"
    using ret nd by (intro queued_same) (auto simp: Accept_ack_def close_chan_def Let_def split: option.splits)
  moreover have "mset (concat (map acc_conn (ms_accepts s))) =
      {#c#} + mset (concat (map acc_conn (remove1 (AcceptTaken i p c) (ms_accepts s))))"
    using mset_concat_remove1 [OF acc, of acc_conn] by simp
  ultimately show ?thesis
    using assms(1) ret nd
    by (auto simp: place_inv_def place_defs Accept_ack_def close_chan_def Let_def add_mset_commute split: option.splits)
qed

lemma place_Accept_timeout:
  assumes "place_inv s" and acc: "AcceptWait i p \<in> set (ms_accepts s)"
  shows "place_inv (Accept_timeout i p s)"
proof -
  have "queued (Accept_timeout i p s) = queued s" by (intro queued_same) (simp add: Accept_timeout_def)
  moreover have "mset (concat (map acc_conn (remove1 (AcceptWait i p) (ms_accepts s)))) =
      mset (concat (map acc_conn (ms_accepts s)))"
    using mset_concat_remove1 [OF acc, of acc_conn] by simp
  ultimately show ?thesis
    using assms(1) by (simp add: place_inv_def place_defs) (simp add: Accept_timeout_def)
qed

lemma place_timeoutWait:
  assumes "place_inv s" and "refs_inv s" and "(i, p) \<in> set (ms_waiters s)"
  shows "place_inv (timeoutWait t i p s)"
proof (cases "t \<and> p_ch (pend s p) \<noteq> None")
  case True
  then obtain c where c: "p_ch (pend s p) = Some c" by auto
  have "(i, p) \<in> mux_refs s" using assms(3) by (simp add: mux_refs_def)
  then have "mset (queued s) = {#c#} + mset (queued (timeoutWait t i p s))"
    using refs_invD(1) [OF assms(2)] c True
    by (intro queued_take) (simp_all add: timeoutWait_def Let_def set_ch_def)
  with assms(1) True c show ?thesis by (simp add: place_inv_def place_defs) (simp add: timeoutWait_def Let_def)
next
  case False
  then have "queued (timeoutWait t i p s) = queued s"
    by (intro queued_same) (auto simp: timeoutWait_def Let_def)
  with assms(1) False show ?thesis
    by (simp add: place_inv_def place_defs) (auto simp: timeoutWait_def Let_def)
qed

lemma mux_step_place:
  assumes "mux_step s (Ret s')" and "place_inv s" and "refs_inv s"
  shows "place_inv s'"
  using assms(1)
proof (cases rule: mux_step.cases)
  case step_next
  then have "queued s' = queued s" by (intro queued_same) simp
  with step_next assms(2) show ?thesis by (simp add: place_inv_def place_defs)
qed (auto intro: assms(2,3) place_Run_read place_Run_queue place_Accept_begin place_Accept_recv
    place_Accept_ack place_Accept_timeout place_timeoutWait)

lemma reach_place_inv: "mux_reach s \<Longrightarrow> place_inv s"
proof (induction rule: mux_reach.induct)
  case reach_init
  then show ?case by (simp add: place_inv_def place_defs queued_def mux_init_def newMuxBroker_def)
next
  case (reach_step s s')
  then show ?case using mux_step_place reach_refs_inv by blast
qed

lemma place_facts:
  assumes "place_inv s"
  shows "distinct (places s)" and "set (places s) = {..<length (ms_conns s)}"
proof -
  have "mset (places s) = mset [0..<length (ms_conns s)]" using assms by (simp add: place_inv_def)
  then show "distinct (places s)" and "set (places s) = {..<length (ms_conns s)}"
    using mset_eq_imp_distinct_iff distinct_upt mset_eq_setD by (blast, fastforce)
qed

section \<open>Streams go where their identifier says\<close>

definition wire_id :: "mux_sys \<Rightarrow> nat \<Rightarrow> stream_id option" where
  "wire_id s c = le_word (ms_conns s ! c)"

definition wire_inv :: "mux_sys \<Rightarrow> bool" where
  "wire_inv s \<longleftrightarrow>
     (\<forall>i p c. (i, p) \<in> mux_refs s \<longrightarrow> p_ch (pend s p) = Some c \<longrightarrow> wire_id s c = Some i)
     \<and> (\<forall>i p c. ms_run s = Some (i, p, c) \<longrightarrow> wire_id s c = Some i)
     \<and> (\<forall>i p c. AcceptTaken i p c \<in> set (ms_accepts s) \<longrightarrow> wire_id s c = Some i)
     \<and> (\<forall>i c. (i, Inr c) \<in> set (ms_returned s) \<longrightarrow> wire_id s c = Some i \<and> (c, le_bytes i) \<in> set (ms_written s))"

lemma wire_invD:
  assumes "wire_inv s"
  shows "(i, p) \<in> mux_refs s \<Longrightarrow> p_ch (pend s p) = Some c \<Longrightarrow> wire_id s c = Some i"
    and "ms_run s = Some (i, p, c) \<Longrightarrow> wire_id s c = Some i"
    and "AcceptTaken i p c \<in> set (ms_accepts s) \<Longrightarrow> wire_id s c = Some i"
    and "(i, Inr c) \<in> set (ms_returned s) \<Longrightarrow> wire_id s c = Some i"
    and "(i, Inr c) \<in> set (ms_returned s) \<Longrightarrow> (c, le_bytes i) \<in> set (ms_written s)"
  using assms unfolding wire_inv_def by blast+

text \<open>A step fills no channel.\<close>

definition chans_kept :: "mux_sys \<Rightarrow> mux_sys \<Rightarrow> bool" where
  "chans_kept s s' \<longleftrightarrow>
     (\<forall>i p c. (i, p) \<in> mux_refs s' \<longrightarrow> p_ch (pend s' p) = Some c \<longrightarrow> (i, p) \<in> mux_refs s \<and> p_ch (pend s p) = Some c)"

lemma chans_keptI:
  assumes "refs_inv s" and "refs_step s s'"
    and "\<And>p c. p < length (mb_pendings (ms_broker s)) \<Longrightarrow> p_ch (pend s' p) = Some c \<Longrightarrow> p_ch (pend s p) = Some c"
    and "length (mb_pendings (ms_broker s')) = Suc (length (mb_pendings (ms_broker s)))
      \<Longrightarrow> p_ch (pend s' (length (mb_pendings (ms_broker s)))) = None"
  shows "chans_kept s s'"
  unfolding chans_kept_def
proof (intro allI impI)
  fix i p c
  assume ref: "(i, p) \<in> mux_refs s'" and ch: "p_ch (pend s' p) = Some c"
  consider (same) "mux_refs s' \<subseteq> mux_refs s"
    | (new) k where "mux_refs s' \<subseteq> insert (k, length (mb_pendings (ms_broker s))) (mux_refs s)"
        "length (mb_pendings (ms_broker s')) = Suc (length (mb_pendings (ms_broker s)))"
    using assms(2) unfolding refs_step_def by blast
  then have "(i, p) \<in> mux_refs s"
  proof cases
    case same
    then show ?thesis using ref by (rule subsetD)
  next
    case new
    with assms(4) subsetD [OF new(1) ref] ch show ?thesis by auto
  qed
  with assms(3) [OF refs_invD(1) [OF assms(1)] ch] show "(i, p) \<in> mux_refs s \<and> p_ch (pend s p) = Some c" by blast
qed

lemma pend_set_ch [simp]:
  "q < length (mb_pendings m) \<Longrightarrow>
     mb_pendings (set_ch p c m) ! q = (if q = p then (mb_pendings m ! q)\<lparr>p_ch := c\<rparr> else mb_pendings m ! q)"
  "q < length (mb_pendings m) \<Longrightarrow>
     mb_pendings (set_done p d m) ! q = (if q = p then (mb_pendings m ! q)\<lparr>p_doneCh := d\<rparr> else mb_pendings m ! q)"
  by (simp_all add: set_ch_def set_done_def nth_list_update)

lemma getStream_pend:
  assumes "getStream i m = (p, b)"
  shows "q < length (mb_pendings m) \<Longrightarrow> mb_pendings b ! q = mb_pendings m ! q"
    and "length (mb_pendings b) = Suc (length (mb_pendings m)) \<Longrightarrow>
      mb_pendings b ! length (mb_pendings m) = \<lparr>p_ch = None, p_doneCh = False\<rparr>"
  using assms by (auto simp: getStream_def nth_append Let_def split: option.splits)

lemma chans_Run_read: "refs_inv s \<Longrightarrow> ms_run s = None \<Longrightarrow> chans_kept s (Run_read bs s)"
proof (rule chans_keptI)
  assume "ms_run s = None"
  then show "refs_step s (Run_read bs s)" by (rule refs_Run_read)
next
  obtain p b where g: "getStream (the (le_word bs)) (ms_broker s) = (p, b)" by fastforce
  show "p_ch (pend (Run_read bs s) q) = Some c \<Longrightarrow> p_ch (pend s q) = Some c"
    if "q < length (mb_pendings (ms_broker s))" for q c
    using getStream_pend(1) [OF g that] g by (auto simp: Run_read_def Let_def split: option.splits)
  show "length (mb_pendings (ms_broker (Run_read bs s))) = Suc (length (mb_pendings (ms_broker s)))
      \<Longrightarrow> p_ch (pend (Run_read bs s) (length (mb_pendings (ms_broker s)))) = None"
    using getStream_pend(2) [OF g] g by (auto simp: Run_read_def Let_def split: option.splits)
qed

lemma chans_Accept_begin: "refs_inv s \<Longrightarrow> chans_kept s (Accept_begin i s)"
proof (rule chans_keptI)
  obtain p b where g: "getStream i (ms_broker s) = (p, b)" by fastforce
  show "p_ch (pend (Accept_begin i s) q) = Some c \<Longrightarrow> p_ch (pend s q) = Some c"
    if "q < length (mb_pendings (ms_broker s))" for q c
    using getStream_pend(1) [OF g that] g by (auto simp: Accept_begin_def)
  show "length (mb_pendings (ms_broker (Accept_begin i s))) = Suc (length (mb_pendings (ms_broker s)))
      \<Longrightarrow> p_ch (pend (Accept_begin i s) (length (mb_pendings (ms_broker s)))) = None"
    using getStream_pend(2) [OF g] g by (auto simp: Accept_begin_def)
qed (assumption, rule refs_Accept_begin)

lemma chans_Accept_recv:
  "refs_inv s \<Longrightarrow> AcceptWait i p \<in> set (ms_accepts s) \<Longrightarrow> chans_kept s (Accept_recv i p c s)"
  by (rule chans_keptI) (auto simp: Accept_recv_def refs_Accept_recv [unfolded Accept_recv_def] split: if_splits)

lemma chans_Accept_ack: "refs_inv s \<Longrightarrow> Accept_ack we i p c s = Ret s' \<Longrightarrow> chans_kept s s'"
proof (rule chans_keptI)
  assume ret: "Accept_ack we i p c s = Ret s'"
  then show "refs_step s s'" by (rule refs_Accept_ack)
  have b: "ms_broker s' = set_done p True (ms_broker s)"
    using ret by (auto simp: Accept_ack_def close_chan_def Let_def split: if_splits option.splits)
  show "p_ch (pend s' q) = Some d \<Longrightarrow> p_ch (pend s q) = Some d"
    if "q < length (mb_pendings (ms_broker s))" for q d
    using that by (auto simp: b split: if_splits)
  show "length (mb_pendings (ms_broker s')) = Suc (length (mb_pendings (ms_broker s)))
      \<Longrightarrow> p_ch (pend s' (length (mb_pendings (ms_broker s)))) = None"
    by (simp add: b)
qed

lemma chans_Accept_timeout: "refs_inv s \<Longrightarrow> chans_kept s (Accept_timeout i p s)"
  by (rule chans_keptI) (auto simp: Accept_timeout_def refs_Accept_timeout [unfolded Accept_timeout_def])

lemma timeoutWait_simps [simp]:
  "ms_accepts (timeoutWait t i p s) = ms_accepts s" "ms_run (timeoutWait t i p s) = ms_run s"
  "ms_waiters (timeoutWait t i p s) = remove1 (i, p) (ms_waiters s)"
  "ms_conns (timeoutWait t i p s) = ms_conns s" "ms_returned (timeoutWait t i p s) = ms_returned s"
  "ms_written (timeoutWait t i p s) = ms_written s"
  "length (mb_pendings (ms_broker (timeoutWait t i p s))) = length (mb_pendings (ms_broker s))"
  "q < length (mb_pendings (ms_broker s)) \<Longrightarrow>
     pend (timeoutWait t i p s) q = (if t \<and> q = p then (pend s q)\<lparr>p_ch := None\<rparr> else pend s q)"
  by (auto simp: timeoutWait_def Let_def split: option.splits)

lemma chans_timeoutWait: "refs_inv s \<Longrightarrow> chans_kept s (timeoutWait t i p s)"
  by (rule chans_keptI) (auto simp: refs_timeoutWait split: if_splits)

lemma in_places:
  "p < length (mb_pendings (ms_broker s)) \<Longrightarrow> p_ch (pend s p) = Some c \<Longrightarrow> c \<in> set (places s)"
  "AcceptTaken i p c \<in> set (ms_accepts s) \<Longrightarrow> c \<in> set (places s)"
  "(i, Inr c) \<in> set (ms_returned s) \<Longrightarrow> c \<in> set (places s)"
  "ms_run s = Some (i, p, c) \<Longrightarrow> c \<in> set (places s)"
proof -
  show "c \<in> set (places s)" if "p < length (mb_pendings (ms_broker s))" "p_ch (pend s p) = Some c"
  proof -
    have "pend s p \<in> set (mb_pendings (ms_broker s))" using that(1) by simp
    moreover have "c \<in> set (opt_list (p_ch (pend s p)))" using that(2) by (simp add: opt_list_def)
    ultimately have "c \<in> set (queued s)"
      unfolding queued_def set_concat set_map by blast
    then show ?thesis by (simp add: places_def)
  qed
  show "c \<in> set (places s)" if "AcceptTaken i p c \<in> set (ms_accepts s)"
  proof -
    have "c \<in> set (acc_conn (AcceptTaken i p c))" by simp
    with that have "c \<in> set (concat (map acc_conn (ms_accepts s)))"
      unfolding set_concat set_map by blast
    then show ?thesis by (simp add: places_def in_hand_def)
  qed
  show "c \<in> set (places s)" if "(i, Inr c) \<in> set (ms_returned s)"
  proof -
    have "c \<in> set (ret_conn (i, Inr c))" by simp
    with that have "c \<in> set (delivered s)"
      unfolding delivered_def set_concat set_map by blast
    then show ?thesis by (simp add: places_def)
  qed
  show "ms_run s = Some (i, p, c) \<Longrightarrow> c \<in> set (places s)"
    by (simp add: places_def in_hand_def)
qed

lemma wire_id_grows:
  assumes "place_inv s" and "ms_conns s' = ms_conns s @ bs" and "c \<in> set (places s)"
  shows "wire_id s' c = wire_id s c"
  using place_facts(2) [OF assms(1)] assms(2,3) by (simp add: wire_id_def nth_append)

text \<open>The parts of the invariant, when no channel is filled.\<close>

lemma wire_step:
  assumes inv: "wire_inv s" "place_inv s" "refs_inv s" and kept: "chans_kept s s'"
    and conns: "ms_conns s' = ms_conns s @ bs"
    and run: "\<And>i p c. ms_run s' = Some (i, p, c) \<Longrightarrow> ms_run s = Some (i, p, c) \<or> wire_id s' c = Some i"
    and taken: "\<And>i p c. AcceptTaken i p c \<in> set (ms_accepts s') \<Longrightarrow>
        AcceptTaken i p c \<in> set (ms_accepts s) \<or> (i, p) \<in> mux_refs s \<and> p_ch (pend s p) = Some c"
    and returned: "\<And>i c. (i, Inr c) \<in> set (ms_returned s') \<Longrightarrow>
        (i, Inr c) \<in> set (ms_returned s)
        \<or> (\<exists>p. AcceptTaken i p c \<in> set (ms_accepts s)) \<and> (c, le_bytes i) \<in> set (ms_written s')"
    and written: "set (ms_written s) \<subseteq> set (ms_written s')"
  shows "wire_inv s'"
proof -
  note W = wire_id_grows [OF inv(2) conns]
  have q: "wire_id s' c = Some i" if "(i, p) \<in> mux_refs s" "p_ch (pend s p) = Some c" for i p c
    using W [OF in_places(1) [OF refs_invD(1) [OF inv(3) that(1)] that(2)]] wire_invD(1) [OF inv(1) that] by simp
  have t: "wire_id s' c = Some i" if "AcceptTaken i p c \<in> set (ms_accepts s)" for i p c
    using W [OF in_places(2) [OF that]] wire_invD(3) [OF inv(1) that] by simp
  have d: "wire_id s' c = Some i" "(c, le_bytes i) \<in> set (ms_written s')" if "(i, Inr c) \<in> set (ms_returned s)" for i c
    using W [OF in_places(3) [OF that]] wire_invD(4,5) [OF inv(1) that] written by auto
  have r: "wire_id s' c = Some i" if "ms_run s = Some (i, p, c)" for i p c
    using W [OF in_places(4) [OF that]] wire_invD(2) [OF inv(1) that] by simp
  show ?thesis
    unfolding wire_inv_def
  proof (intro conjI allI impI)
    fix i p c assume "(i, p) \<in> mux_refs s'" "p_ch (pend s' p) = Some c"
    then show "wire_id s' c = Some i" using kept q [of i p c] unfolding chans_kept_def by blast
  next
    fix i p c assume "ms_run s' = Some (i, p, c)"
    from run [OF this] show "wire_id s' c = Some i" using r by blast
  next
    fix i p c assume "AcceptTaken i p c \<in> set (ms_accepts s')"
    from taken [OF this] show "wire_id s' c = Some i" using q t by blast
  next
    fix i c assume "(i, Inr c) \<in> set (ms_returned s')"
    from returned [OF this] show "wire_id s' c = Some i" "(c, le_bytes i) \<in> set (ms_written s')"
      using d t by blast+
  qed
qed

lemma wire_Run_queue:
  assumes "wire_inv s" "refs_inv s" and run: "ms_run s = Some (i, p, c)"
  shows "wire_inv (Run_queue i p c s)"
proof -
  have sub: "mux_refs (Run_queue i p c s) \<subseteq> mux_refs s" using run by (auto simp: mux_refs_def Run_queue_def)
  have same: "wire_id (Run_queue i p c s) = wire_id s" "ms_run (Run_queue i p c s) = None"
    "ms_accepts (Run_queue i p c s) = ms_accepts s" "ms_returned (Run_queue i p c s) = ms_returned s"
    "ms_written (Run_queue i p c s) = ms_written s"
    by (auto simp: Run_queue_def wire_id_def fun_eq_iff)
  have ip: "(i, p) \<in> mux_refs s" using run by (simp add: mux_refs_def)
  have "wire_id s d = Some j"
    if jq: "(j, q) \<in> mux_refs (Run_queue i p c s)" and ch: "p_ch (pend (Run_queue i p c s) q) = Some d" for j q d
  proof (cases "q = p \<and> p_ch (pend s p) = None")
    case True
    have "j = i" using refs_invD(2) [OF assms(2), of j p i] subsetD [OF sub jq] ip True by blast
    moreover have "d = c" using ch True refs_invD(1) [OF assms(2) ip] by (simp add: Run_queue_def)
    ultimately show ?thesis using wire_invD(2) [OF assms(1) run] by simp
  next
    case False
    then have "p_ch (pend s q) = Some d"
      using ch refs_invD(1) [OF assms(2) subsetD [OF sub jq]] by (auto simp: Run_queue_def split: if_splits)
    then show ?thesis using wire_invD(1) [OF assms(1) subsetD [OF sub jq]] by blast
  qed
  with assms(1) show ?thesis unfolding wire_inv_def same by blast
qed

lemma Run_read_simps [simp]:
  "ms_conns (Run_read bs s) = ms_conns s @ [bs]" "ms_accepts (Run_read bs s) = ms_accepts s"
  "ms_returned (Run_read bs s) = ms_returned s" "ms_written (Run_read bs s) = ms_written s"
  "ms_waiters (Run_read bs s) = ms_waiters s"
  by (auto simp: Run_read_def Let_def split: option.splits prod.splits)

lemma Run_read_run:
  "ms_run s = None \<Longrightarrow> ms_run (Run_read bs s) = Some (i, p, c) \<Longrightarrow> le_word bs = Some i \<and> c = length (ms_conns s)"
  by (auto simp: Run_read_def Let_def split: option.splits prod.splits)

lemma mux_step_wire:
  assumes "mux_step s (Ret s')" and inv: "wire_inv s" "place_inv s" "refs_inv s"
  shows "wire_inv s'"
  using assms(1)
proof (cases rule: mux_step.cases)
  case (step_read bs)
  then show ?thesis
    using chans_Run_read [OF inv(3)] Run_read_run [of s bs]
    by (intro wire_step [OF inv, where bs = "[bs]"]) (auto simp: wire_id_def)
next
  case (step_queue i p c)
  then show ?thesis by (simp add: wire_Run_queue inv)
next
  case (step_accept i)
  then show ?thesis
    using chans_Accept_begin [OF inv(3)]
    by (intro wire_step [OF inv, where bs = "[]"]) (auto simp: Accept_begin_def split: prod.splits)
next
  case (step_recv i p c)
  then have "(i, p) \<in> mux_refs s" by (force simp: mux_refs_def)
  then show ?thesis
    using chans_Accept_recv [OF inv(3)] step_recv
    by (intro wire_step [OF inv, where bs = "[]"]) (auto simp: Accept_recv_def dest!: in_remove1)
next
  case (step_ack i p c we)
  then have ret: "Accept_ack we i p c s = Ret s'" by simp
  then show ?thesis
    using chans_Accept_ack [OF inv(3) ret] step_ack
    by (intro wire_step [OF inv, where bs = "[]"])
       (auto simp: Accept_ack_def close_chan_def Let_def dest!: in_remove1 split: if_splits option.splits)
next
  case (step_accept_timeout i p)
  then show ?thesis
    using chans_Accept_timeout [OF inv(3)]
    by (intro wire_step [OF inv, where bs = "[]"]) (auto simp: Accept_timeout_def dest!: in_remove1)
next
  case (step_wait_done i p)
  then show ?thesis
    using chans_timeoutWait [OF inv(3)] by (intro wire_step [OF inv, where bs = "[]"]) auto
next
  case (step_wait_timeout i p)
  then show ?thesis
    using chans_timeoutWait [OF inv(3)] by (intro wire_step [OF inv, where bs = "[]"]) auto
next
  case step_next
  then have "mux_refs s' = mux_refs s" "\<And>p. pend s' p = pend s p" "wire_id s' = wire_id s"
    by (simp_all add: mux_refs_def wire_id_def fun_eq_iff)
  with inv(1) step_next show ?thesis by (simp add: wire_inv_def)
qed

lemma reach_wire_inv: "mux_reach s \<Longrightarrow> wire_inv s"
proof (induction rule: mux_reach.induct)
  case reach_init
  then show ?case by (simp add: wire_inv_def mux_refs_def mux_init_def newMuxBroker_def)
next
  case (reach_step s s')
  then show ?case using mux_step_wire reach_refs_inv reach_place_inv by blast
qed

section \<open>Identifiers that are dialled once\<close>

definition single_use :: "mux_sys \<Rightarrow> bool" where
  "single_use s \<longleftrightarrow>
     (\<forall>c < length (ms_conns s). \<forall>d < length (ms_conns s).
        wire_id s c \<noteq> None \<longrightarrow> wire_id s c = wire_id s d \<longrightarrow> c = d)"

lemma single_useD:
  assumes "single_use s" and "place_inv s" and "c \<in> set (places s)" and "d \<in> set (places s)"
    and "wire_id s c = Some i" and "wire_id s d = Some i"
  shows "c = d"
  using assms(1,3-) place_facts(2) [OF assms(2)] unfolding single_use_def by auto

lemma single_use_before:
  assumes "single_use s'" and "ms_conns s' = ms_conns s @ bs"
  shows "single_use s"
proof -
  have "wire_id s' c = wire_id s c" if "c < length (ms_conns s)" for c
    using assms(2) that by (simp add: wire_id_def nth_append)
  then show ?thesis using assms by (simp add: single_use_def) (metis trans_less_add1)
qed

abbreviation finished :: "mux_sys \<Rightarrow> nat set" where
  "finished s \<equiv> set (delivered s) \<union> set (ms_closed s)"

text \<open>
  While every identifier is dialled at most once: no \<open>Accept\<close> holds a stream of an entry whose
  \<open>doneCh\<close> is closed, an entry whose \<open>doneCh\<close> is closed has served its stream, and a queued stream
  has a \<open>timeoutWait\<close> that watches it.
\<close>

definition solo_inv :: "mux_sys \<Rightarrow> bool" where
  "solo_inv s \<longleftrightarrow>
     (\<forall>i p c. AcceptTaken i p c \<in> set (ms_accepts s) \<longrightarrow> \<not> p_doneCh (pend s p))
     \<and> (\<forall>i p. (i, p) \<in> mux_refs s \<longrightarrow> p_doneCh (pend s p) \<longrightarrow> (\<exists>c \<in> finished s. wire_id s c = Some i))
     \<and> (\<forall>p < length (mb_pendings (ms_broker s)). p_ch (pend s p) \<noteq> None \<longrightarrow> (\<exists>i. (i, p) \<in> set (ms_waiters s)))"

lemma solo_invD:
  assumes "solo_inv s"
  shows "AcceptTaken i p c \<in> set (ms_accepts s) \<Longrightarrow> \<not> p_doneCh (pend s p)"
    and "(i, p) \<in> mux_refs s \<Longrightarrow> p_doneCh (pend s p) \<Longrightarrow> \<exists>c \<in> finished s. wire_id s c = Some i"
    and "p < length (mb_pendings (ms_broker s)) \<Longrightarrow> p_ch (pend s p) = Some c \<Longrightarrow> \<exists>i. (i, p) \<in> set (ms_waiters s)"
  using assms unfolding solo_inv_def by blast+

lemma acc_in_refs: "a \<in> set (ms_accepts s) \<Longrightarrow> acc_ref a \<in> mux_refs s"
  by (simp add: mux_refs_def)

lemma finished_places: "c \<in> finished s \<Longrightarrow> c \<in> set (places s)"
  by (auto simp: places_def)

lemma finished_not_queued:
  assumes "place_inv s" "p < length (mb_pendings (ms_broker s))" "p_ch (pend s p) = Some c"
  shows "c \<notin> finished s"
proof -
  have "pend s p \<in> set (mb_pendings (ms_broker s))" using assms(2) by simp
  moreover have "c \<in> set (opt_list (p_ch (pend s p)))" using assms(3) by (simp add: opt_list_def)
  ultimately have "c \<in> set (queued s)" unfolding queued_def set_concat set_map by blast
  then show ?thesis using place_facts(1) [OF assms(1)] unfolding places_def by auto
qed

lemma finished_not_taken:
  assumes "place_inv s" "AcceptTaken i p c \<in> set (ms_accepts s)"
  shows "c \<notin> finished s"
proof -
  have "c \<in> set (acc_conn (AcceptTaken i p c))" by simp
  with assms(2) have "c \<in> set (in_hand s)"
    unfolding in_hand_def set_append set_concat set_map by blast
  then show ?thesis using place_facts(1) [OF assms(1)] unfolding places_def by auto
qed

text \<open>An entry that served its stream gets no other one.\<close>

lemma served_once:
  assumes "solo_inv s" "single_use s" "wire_inv s" "place_inv s" "refs_inv s"
    and ref: "(i, p) \<in> mux_refs s" and ch: "p_ch (pend s p) = Some c"
  shows "\<not> p_doneCh (pend s p)"
proof
  assume "p_doneCh (pend s p)"
  then obtain d where d: "d \<in> finished s" "wire_id s d = Some i" using solo_invD(2) [OF assms(1) ref] by blast
  have p: "p < length (mb_pendings (ms_broker s))" by (rule refs_invD(1) [OF assms(5) ref])
  have "c = d"
    using single_useD [OF assms(2,4) in_places(1) [OF p ch] finished_places [OF d(1)]]
      wire_invD(1) [OF assms(3) ref ch] d(2) by blast
  with d(1) finished_not_queued [OF assms(4) p ch] show False by blast
qed

text \<open>What a step keeps when it closes no \<open>doneCh\<close>.\<close>

lemma solo_step:
  assumes inv: "solo_inv s" "wire_inv s" "place_inv s" "refs_inv s" and rs: "refs_step s s'"
    and conns: "ms_conns s' = ms_conns s @ bs"
    and taken: "\<And>i p c. AcceptTaken i p c \<in> set (ms_accepts s') \<Longrightarrow>
        AcceptTaken i p c \<in> set (ms_accepts s) \<or> (i, p) \<in> mux_refs s \<and> \<not> p_doneCh (pend s p)"
    and done_old: "\<And>p. p < length (mb_pendings (ms_broker s)) \<Longrightarrow> p_doneCh (pend s' p) = p_doneCh (pend s p)"
    and done_new: "length (mb_pendings (ms_broker s')) = Suc (length (mb_pendings (ms_broker s)))
      \<Longrightarrow> \<not> p_doneCh (pend s' (length (mb_pendings (ms_broker s))))"
    and fin: "finished s \<subseteq> finished s'"
    and watch: "\<And>p. p < length (mb_pendings (ms_broker s')) \<Longrightarrow> p_ch (pend s' p) \<noteq> None \<Longrightarrow>
        \<exists>i. (i, p) \<in> set (ms_waiters s')"
  shows "solo_inv s'"
proof -
  have t: "\<not> p_doneCh (pend s' p)" if "AcceptTaken i p c \<in> set (ms_accepts s')" for i p c
  proof -
    have "(i, p) \<in> mux_refs s \<and> \<not> p_doneCh (pend s p)"
      using taken [OF that] solo_invD(1) [OF inv(1), of i p c] acc_in_refs [of "AcceptTaken i p c" s] by auto
    then show ?thesis using done_old [OF refs_invD(1) [OF inv(4)]] by blast
  qed
  have d: "\<exists>c \<in> finished s'. wire_id s' c = Some i" if ref: "(i, p) \<in> mux_refs s'" and cl: "p_doneCh (pend s' p)" for i p
  proof -
    have "(i, p) \<in> mux_refs s"
      using rs ref cl done_new unfolding refs_step_def by auto
    moreover from this have "p_doneCh (pend s p)" using cl done_old [OF refs_invD(1) [OF inv(4)]] by blast
    ultimately obtain c where "c \<in> finished s" "wire_id s c = Some i" using solo_invD(2) [OF inv(1)] by blast
    moreover from this have "wire_id s' c = Some i" using wire_id_grows [OF inv(3) conns finished_places] by simp
    ultimately show ?thesis using subsetD [OF fin] by blast
  qed
  show ?thesis unfolding solo_inv_def using t d watch by blast
qed

lemma pend_get:
  assumes "ms_broker s' = snd (getStream i (ms_broker s)) \<or> ms_broker s' = ms_broker s"
  shows "q < length (mb_pendings (ms_broker s)) \<Longrightarrow> pend s' q = pend s q"
    and "q < length (mb_pendings (ms_broker s')) \<Longrightarrow> p_ch (pend s' q) \<noteq> None \<Longrightarrow> q < length (mb_pendings (ms_broker s))"
    and "length (mb_pendings (ms_broker s')) = Suc (length (mb_pendings (ms_broker s))) \<Longrightarrow>
      \<not> p_doneCh (pend s' (length (mb_pendings (ms_broker s))))"
  using assms by (auto simp: getStream_def nth_append Let_def less_Suc_eq split: option.splits)

lemma solo_get:
  assumes inv: "solo_inv s" "wire_inv s" "place_inv s" "refs_inv s" "refs_step s s'"
    and get: "ms_broker s' = snd (getStream i (ms_broker s)) \<or> ms_broker s' = ms_broker s"
    and conns: "ms_conns s' = ms_conns s @ bs"
    and taken: "\<And>i p c. AcceptTaken i p c \<in> set (ms_accepts s') \<Longrightarrow> AcceptTaken i p c \<in> set (ms_accepts s)"
    and fin: "finished s \<subseteq> finished s'" and waiters: "set (ms_waiters s) \<subseteq> set (ms_waiters s')"
  shows "solo_inv s'"
proof (rule solo_step [OF inv conns _ _ pend_get(3) [OF get] fin])
  show "p_doneCh (pend s' p) = p_doneCh (pend s p)" if "p < length (mb_pendings (ms_broker s))" for p
    using pend_get(1) [OF get that] by simp
  fix q assume q: "q < length (mb_pendings (ms_broker s'))" "p_ch (pend s' q) \<noteq> None"
  have lt: "q < length (mb_pendings (ms_broker s))" by (rule pend_get(2) [OF get q])
  with q pend_get(1) [OF get lt] show "\<exists>i. (i, q) \<in> set (ms_waiters s')"
    using solo_invD(3) [OF inv(1) lt] waiters by auto
qed (use taken in auto)

lemma solo_Run_queue:
  assumes "solo_inv s" "wire_inv s" "place_inv s" "refs_inv s" and run: "ms_run s = Some (i, p, c)"
  shows "solo_inv (Run_queue i p c s)"
proof (rule solo_step [OF assms(1-4) refs_Run_queue [OF run], where bs = "[]"])
  fix q assume "q < length (mb_pendings (ms_broker (Run_queue i p c s)))"
    and ch: "p_ch (pend (Run_queue i p c s) q) \<noteq> None"
  then have q: "q < length (mb_pendings (ms_broker s))" by (auto simp: Run_queue_def split: if_splits)
  with ch have "q = p \<and> p_ch (pend s p) = None \<or> p_ch (pend s q) \<noteq> None"
    by (auto simp: Run_queue_def split: if_splits)
  then show "\<exists>j. (j, q) \<in> set (ms_waiters (Run_queue i p c s))"
    using solo_invD(3) [OF assms(1) q] by (auto simp: Run_queue_def)
qed (auto simp: Run_queue_def delivered_def split: if_splits)

lemma solo_Accept_recv:
  assumes "solo_inv s" "wire_inv s" "place_inv s" "refs_inv s" "single_use s"
    and acc: "AcceptWait i p \<in> set (ms_accepts s)" and ch: "p_ch (pend s p) = Some c"
  shows "solo_inv (Accept_recv i p c s)"
proof (rule solo_step [OF assms(1-4) refs_Accept_recv [OF acc], where bs = "[]"])
  have ref: "(i, p) \<in> mux_refs s" using acc_in_refs [OF acc] by simp
  then have nd: "\<not> p_doneCh (pend s p)" using served_once [OF assms(1,5,2,3,4) ref ch] by blast
  show "AcceptTaken j q d \<in> set (ms_accepts s) \<or> (j, q) \<in> mux_refs s \<and> \<not> p_doneCh (pend s q)"
    if "AcceptTaken j q d \<in> set (ms_accepts (Accept_recv i p c s))" for j q d
    using that ref nd by (auto simp: Accept_recv_def dest: in_remove1)
  fix q assume "q < length (mb_pendings (ms_broker (Accept_recv i p c s)))"
    and q: "p_ch (pend (Accept_recv i p c s) q) \<noteq> None"
  then have lt: "q < length (mb_pendings (ms_broker s))" by (simp add: Accept_recv_def)
  with q show "\<exists>j. (j, q) \<in> set (ms_waiters (Accept_recv i p c s))"
    using solo_invD(3) [OF assms(1) lt] by (auto simp: Accept_recv_def split: if_splits)
qed (auto simp: Accept_recv_def delivered_def)

lemma solo_Accept_timeout:
  assumes "solo_inv s" "wire_inv s" "place_inv s" "refs_inv s"
  shows "solo_inv (Accept_timeout i p s)"
proof (rule solo_step [OF assms refs_Accept_timeout, where bs = "[]"])
  fix q assume "q < length (mb_pendings (ms_broker (Accept_timeout i p s)))"
    and "p_ch (pend (Accept_timeout i p s) q) \<noteq> None"
  then show "\<exists>j. (j, q) \<in> set (ms_waiters (Accept_timeout i p s))"
    using solo_invD(3) [OF assms(1), of q] by (auto simp: Accept_timeout_def)
qed (auto simp: Accept_timeout_def delivered_def dest: in_remove1)

lemma solo_timeoutWait:
  assumes "solo_inv s" "wire_inv s" "place_inv s" "refs_inv s" "single_use s"
    and w: "(i, p) \<in> set (ms_waiters s)" and t: "t \<or> p_doneCh (pend s p)"
  shows "solo_inv (timeoutWait t i p s)"
proof (rule solo_step [OF assms(1-4) refs_timeoutWait, where bs = "[]"])
  have ref: "(i, p) \<in> mux_refs s" using w by (simp add: mux_refs_def)
  show "finished s \<subseteq> finished (timeoutWait t i p s)"
    by (auto simp: timeoutWait_def delivered_def Let_def split: option.splits)
  fix q assume "q < length (mb_pendings (ms_broker (timeoutWait t i p s)))"
    and q: "p_ch (pend (timeoutWait t i p s) q) \<noteq> None"
  then have lt: "q < length (mb_pendings (ms_broker s))" by simp
  with q obtain c where c: "p_ch (pend s q) = Some c" by (auto split: if_splits)
  have "q \<noteq> p"
  proof
    assume qp: "q = p"
    with lt q have "\<not> t" by (auto split: if_splits)
    with t served_once [OF assms(1,5,2,3,4) ref, of c] c qp show False by blast
  qed
  moreover obtain j where "(j, q) \<in> set (ms_waiters s)" using solo_invD(3) [OF assms(1) lt c] by blast
  ultimately show "\<exists>j. (j, q) \<in> set (ms_waiters (timeoutWait t i p s))"
    by (auto simp: in_set_remove1 intro: exI [of _ j])
qed auto

lemma Accept_ack_effect:
  assumes "Accept_ack we i p c s = Ret s'"
  shows "ms_broker s' = set_done p True (ms_broker s)" "ms_conns s' = ms_conns s" "ms_waiters s' = ms_waiters s"
    "ms_accepts s' = remove1 (AcceptTaken i p c) (ms_accepts s)" "finished s' = insert c (finished s)"
proof -
  have nd: "\<not> p_doneCh (pend s p)" using assms by (auto simp: Accept_ack_def close_chan_def split: if_splits)
  show "ms_broker s' = set_done p True (ms_broker s)" "ms_conns s' = ms_conns s" "ms_waiters s' = ms_waiters s"
    "ms_accepts s' = remove1 (AcceptTaken i p c) (ms_accepts s)"
    using assms nd
    by (auto simp: Accept_ack_def close_chan_def Let_def split: option.splits)
  show "finished s' = insert c (finished s)"
    using assms nd by (cases we) (auto simp: Accept_ack_def close_chan_def Let_def delivered_def)
qed

lemma solo_Accept_ack:
  assumes inv: "solo_inv s" "wire_inv s" "place_inv s" "refs_inv s" "single_use s"
    and acc: "AcceptTaken i p c \<in> set (ms_accepts s)" and ret: "Accept_ack we i p c s = Ret s'"
  shows "solo_inv s'"
proof -
  note b = Accept_ack_effect [OF ret]
  have w: "wire_id s' = wire_id s" by (simp add: wire_id_def b(2) fun_eq_iff)
  have ip: "(i, p) \<in> mux_refs s" using acc_in_refs [OF acc] by simp
  have sub: "mux_refs s' \<subseteq> mux_refs s"
    using refs_Accept_ack [OF ret] by (simp add: refs_step_def b(1))
  have wc: "wire_id s c = Some i" by (rule wire_invD(3) [OF inv(2) acc])
  have pl: "place_inv s'" by (rule place_Accept_ack [OF inv(3) acc ret])
  have t: "\<not> p_doneCh (pend s' q)" if a: "AcceptTaken j q d \<in> set (ms_accepts s')" for j q d
  proof -
    have a': "AcceptTaken j q d \<in> set (ms_accepts s)" using a unfolding b(4) by (rule in_remove1)
    have ref: "(j, q) \<in> mux_refs s" using acc_in_refs [OF a'] by simp
    have "q \<noteq> p"
    proof
      assume "q = p"
      then have "j = i" using refs_invD(2) [OF inv(4), of j p i] ref ip by blast
      then have "d = c"
        using single_useD [OF inv(5,3) in_places(2) [OF a'] in_places(2) [OF acc]] wire_invD(3) [OF inv(2) a'] wc by blast
      with finished_not_taken [OF pl a] b(5) show False by blast
    qed
    with solo_invD(1) [OF inv(1) a'] show ?thesis using refs_invD(1) [OF inv(4) ref] by (simp add: b(1))
  qed
  have d: "\<exists>e \<in> finished s'. wire_id s' e = Some j" if ref: "(j, q) \<in> mux_refs s'" and dn: "p_doneCh (pend s' q)" for j q
  proof (cases "q = p")
    case True
    then have "j = i" using refs_invD(2) [OF inv(4), of j p i] subsetD [OF sub ref] ip by blast
    then show ?thesis by (intro bexI [of _ c]) (simp_all add: wc w b(5))
  next
    case False
    with dn have "p_doneCh (pend s q)" using refs_invD(1) [OF inv(4) subsetD [OF sub ref]] by (simp add: b(1))
    then obtain e where "e \<in> finished s" "wire_id s e = Some j"
      using solo_invD(2) [OF inv(1) subsetD [OF sub ref]] by blast
    then show ?thesis by (intro bexI [of _ e]) (simp_all only: w b(5) insertI2)
  qed
  have "\<exists>j. (j, q) \<in> set (ms_waiters s')"
    if "q < length (mb_pendings (ms_broker s'))" "p_ch (pend s' q) \<noteq> None" for q
    using that solo_invD(3) [OF inv(1), of q] by (auto simp: b(1,3) split: if_splits)
  with t d show ?thesis unfolding solo_inv_def by (intro conjI allI impI)
qed

lemma mux_step_conns: "mux_step s (Ret s') \<Longrightarrow> \<exists>bs. ms_conns s' = ms_conns s @ bs"
proof (erule mux_step.cases, goal_cases)
  case (5 i p c s we)
  then show ?case
    by (auto simp: Accept_ack_def close_chan_def Let_def split: if_splits option.splits)
qed (auto simp: Run_queue_def Accept_begin_def Accept_recv_def Accept_timeout_def split: prod.splits)

lemma mux_step_solo:
  assumes "mux_step s (Ret s')" and inv: "solo_inv s" "wire_inv s" "place_inv s" "refs_inv s" and su: "single_use s"
  shows "solo_inv s'"
  using assms(1)
proof (cases rule: mux_step.cases)
  case (step_read bs)
  then show ?thesis
    using refs_Run_read [of s bs]
    by (intro solo_get [OF inv, where i = "the (le_word bs)" and bs = "[bs]"])
       (auto simp: Run_read_def delivered_def Let_def split: option.splits prod.splits)
next
  case (step_accept i)
  then show ?thesis
    using refs_Accept_begin [of s i]
    by (intro solo_get [OF inv, where i = i and bs = "[]"])
       (auto simp: Accept_begin_def delivered_def split: prod.splits)
next
  case step_next
  then have "mux_refs s' = mux_refs s" "\<And>p. pend s' p = pend s p" "wire_id s' = wire_id s" "delivered s' = delivered s"
    by (simp_all add: mux_refs_def wire_id_def delivered_def fun_eq_iff)
  with inv(1) step_next show ?thesis by (simp add: solo_inv_def)
next
  case (step_queue i p c)
  then show ?thesis using solo_Run_queue [OF inv] by simp
next
  case (step_recv i p c)
  then show ?thesis using solo_Accept_recv [OF inv su] by simp
next
  case (step_ack i p c we)
  then show ?thesis using solo_Accept_ack [OF inv su, of i p c we] by simp
next
  case (step_accept_timeout i p)
  then show ?thesis using solo_Accept_timeout [OF inv] by simp
next
  case (step_wait_done i p)
  then show ?thesis using solo_timeoutWait [OF inv su] by simp
next
  case (step_wait_timeout i p)
  then show ?thesis using solo_timeoutWait [OF inv su] by simp
qed

lemma reach_solo_inv: "mux_reach s \<Longrightarrow> single_use s \<Longrightarrow> solo_inv s"
proof (induction rule: mux_reach.induct)
  case reach_init
  then show ?case
    by (simp add: solo_inv_def mux_refs_def mux_init_def newMuxBroker_def)
next
  case (reach_step s s')
  obtain bs where "ms_conns s' = ms_conns s @ bs" using mux_step_conns [OF reach_step.hyps(2)] by blast
  then have su: "single_use s" by (rule single_use_before [OF reach_step.prems])
  show ?case
    by (rule mux_step_solo [OF reach_step.hyps(2) reach_step.IH [OF su] reach_wire_inv reach_place_inv reach_refs_inv su])
       (rule reach_step.hyps(1))+
qed

end
