(* ===== verification/MuxBrokerTheorems.thy ===== *)
theory MuxBrokerTheorems
  imports MuxBrokerSafety
begin

text \<open>
  What the net/rpc broker guarantees, over all interleavings: correct delivery, no lost stream, no
  panic and no leak while identifiers are dialled once, the crash that a second dial can cause, and
  that a dialler and an acceptor of one identifier meet.
\<close>

section \<open>Properties\<close>

text \<open>
  C3: In every interleaving of the broker's goroutines, a stream that \<open>Accept(id)\<close> returned was
  dialled with that identifier, its dialler was sent the acknowledgement, it was not closed, and no
  stream is returned twice.
\<close>
theorem mux_delivery:
  assumes "mux_reach s"
  shows "distinct (delivered s)
    \<and> (\<forall>i c. (i, Inr c) \<in> set (ms_returned s) \<longrightarrow>
          le_word (ms_conns s ! c) = Some i \<and> (c, le_bytes i) \<in> set (ms_written s) \<and> c \<notin> set (ms_closed s))"
proof -
  have "distinct (places s)" by (rule place_facts(1) [OF reach_place_inv [OF assms]])
  then have d: "distinct (delivered s)" "set (delivered s) \<inter> set (ms_closed s) = {}"
    by (auto simp: places_def)
  have "le_word (ms_conns s ! c) = Some i \<and> (c, le_bytes i) \<in> set (ms_written s) \<and> c \<notin> set (ms_closed s)"
    if r: "(i, Inr c) \<in> set (ms_returned s)" for i c
  proof -
    have "c \<in> set (ret_conn (i, Inr c))" by simp
    with r have "c \<in> set (delivered s)" unfolding delivered_def set_concat set_map by blast
    with d(2) wire_invD(4,5) [OF reach_wire_inv [OF assms] r] show ?thesis by (auto simp: wire_id_def)
  qed
  with d(1) show ?thesis by blast
qed

text \<open>A run in which one stream with identifier 7 is dialled and accepted.\<close>

definition run_seven :: mux_sys where
  "run_seven =
     (let s = Run_queue 7 0 0 (Run_read (le_bytes 7) mux_init);
          s' = Accept_recv 7 0 0 (Accept_begin 7 s)
      in case Accept_ack None 7 0 0 s' of Ret t \<Rightarrow> t | Panic m \<Rightarrow> s')"

lemmas mux_eval = Run_queue_def Run_read_def Accept_begin_def Accept_recv_def Accept_ack_def mux_init_def
  newMuxBroker_def getStream_def set_ch_def set_done_def close_chan_def Let_def

lemma le_word_bytes_Nil [simp]: "le_word (le_bytes w) = Some w"
  using le_word_bytes [of w "[]"] by simp

lemma reach_run_seven: "mux_reach run_seven"
proof -
  let ?s1 = "Run_read (le_bytes 7) mux_init"
  let ?s2 = "Run_queue 7 0 0 ?s1"
  let ?s3 = "Accept_begin 7 ?s2"
  let ?s4 = "Accept_recv 7 0 0 ?s3"
  have 1: "mux_reach ?s1" by (rule reach_step [OF reach_init step_read]) (simp add: mux_init_def)
  have 2: "mux_reach ?s2" by (rule reach_step [OF 1 step_queue]) (simp add: mux_eval)
  have 3: "mux_reach ?s3" by (rule reach_step [OF 2 step_accept])
  have 4: "mux_reach ?s4" by (rule reach_step [OF 3 step_recv]) (simp_all add: mux_eval)
  have "mux_step ?s4 (Accept_ack None 7 0 0 ?s4)" by (rule step_ack) (simp add: mux_eval)
  moreover have "Accept_ack None 7 0 0 ?s4 = Ret run_seven" by (simp add: run_seven_def) (simp add: mux_eval)
  ultimately show ?thesis using reach_step [OF 4] by metis
qed

lemma returned_run_seven: "ms_returned run_seven = [(7, Inr 0)]"
  by (simp add: run_seven_def mux_eval)

theorem mux_delivery_witness:
  "mux_reach run_seven \<and> (7, Inr 0) \<in> set (ms_returned run_seven) \<and> le_word (ms_conns run_seven ! 0) = Some 7"
  using mux_delivery [OF reach_run_seven] reach_run_seven returned_run_seven by simp

text \<open>
  C8: No stream is lost and none is in two places: in every interleaving, the streams that arrived
  are exactly those that are queued, in the hands of \<open>Run\<close> or \<open>Accept\<close>, returned, or closed, each once.
\<close>
theorem mux_accounting:
  assumes "mux_reach s"
  shows "mset (queued s @ in_hand s @ delivered s @ ms_closed s) = mset [0..<length (ms_conns s)]"
  using reach_place_inv [OF assms] by (simp only: place_inv_def places_def)

theorem mux_accounting_witness:
  "mset (queued run_seven @ in_hand run_seven @ delivered run_seven @ ms_closed run_seven)
     = mset [0..<length (ms_conns run_seven)]"
  by (rule mux_accounting [OF reach_run_seven])

text \<open>
  C10: While no identifier is dialled twice, no interleaving makes the broker panic, and a stream
  that waits in an entry is watched by a \<open>timeoutWait\<close> that closes it when it times out.
\<close>
theorem mux_single_use_safe:
  assumes "mux_reach s" and "single_use s"
  shows "\<not> mux_step s (Panic m)
    \<and> (p < length (mb_pendings (ms_broker s)) \<and> p_ch (pend s p) = Some c \<longrightarrow>
         (\<exists>i. (i, p) \<in> set (ms_waiters s) \<and> c \<in> set (ms_closed (timeoutWait True i p s))))"
proof -
  note inv = reach_solo_inv [OF assms]
  have "\<not> mux_step s (Panic m)"
    using solo_invD(1) [OF inv]
    by (auto elim!: mux_step_panicE simp: Accept_ack_def close_chan_def Let_def split: if_splits)
  moreover have "\<exists>i. (i, p) \<in> set (ms_waiters s) \<and> c \<in> set (ms_closed (timeoutWait True i p s))"
    if p: "p < length (mb_pendings (ms_broker s))" and ch: "p_ch (pend s p) = Some c"
    using solo_invD(3) [OF inv p ch] ch by (auto simp: timeoutWait_def Let_def)
  ultimately show ?thesis by blast
qed

theorem mux_single_use_safe_witness: "single_use run_seven \<and> \<not> mux_step run_seven (Panic [])"
proof -
  have "length (ms_conns run_seven) = 1" by (simp add: run_seven_def mux_eval)
  then have "single_use run_seven" by (simp add: single_use_def)
  with mux_single_use_safe [OF reach_run_seven, of "[]" 0 0] show ?thesis by blast
qed

text \<open>
  An identifier that is dialled twice in a row can crash the process: \<open>Accept\<close> of the second
  stream may find the entry of the first one, whose \<open>timeoutWait\<close> has not run yet, and close its
  \<open>doneCh\<close> a second time.
\<close>
theorem mux_double_dial_panics: "\<exists>s. mux_reach s \<and> mux_step s (Panic ''close of closed channel'')"
proof -
  let ?s1 = "Run_read (le_bytes 7) run_seven"
  let ?s2 = "Run_queue 7 0 1 ?s1"
  let ?s3 = "Accept_begin 7 ?s2"
  let ?s4 = "Accept_recv 7 0 1 ?s3"
  have 1: "mux_reach ?s1" by (rule reach_step [OF reach_run_seven step_read]) (simp add: run_seven_def mux_eval)
  have 2: "mux_reach ?s2" by (rule reach_step [OF 1 step_queue]) (simp add: run_seven_def mux_eval)
  have 3: "mux_reach ?s3" by (rule reach_step [OF 2 step_accept])
  have 4: "mux_reach ?s4" by (rule reach_step [OF 3 step_recv]) (simp_all add: run_seven_def mux_eval)
  have "mux_step ?s4 (Accept_ack None 7 0 1 ?s4)" by (rule step_ack) (simp add: run_seven_def mux_eval)
  moreover have "Accept_ack None 7 0 1 ?s4 = Panic ''close of closed channel''"
    by (simp add: run_seven_def mux_eval)
  ultimately show ?thesis using 4 by auto
qed


abbreviation mux_steps :: "mux_sys \<Rightarrow> mux_sys \<Rightarrow> bool" where
  "mux_steps \<equiv> (\<lambda>s s'. mux_step s (Ret s'))\<^sup>*\<^sup>*"

text \<open>The entry of an identifier can take a stream and serve it.\<close>

definition open_entry :: "stream_id \<Rightarrow> nat \<Rightarrow> mux_sys \<Rightarrow> bool" where
  "open_entry i p s \<longleftrightarrow> mb_streams (ms_broker s) i = Some p \<and> p < length (mb_pendings (ms_broker s))
     \<and> pend s p = \<lparr>p_ch = None, p_doneCh = False\<rparr>"

text \<open>
  Stream \<open>c\<close> was returned to \<open>Accept(i)\<close> and acknowledged, nothing else was returned or written, and
  the calls of \<open>Accept\<close> that are left are \<open>as\<close>.
\<close>

definition met :: "stream_id \<Rightarrow> nat \<Rightarrow> acc_pc list \<Rightarrow> mux_sys \<Rightarrow> mux_sys \<Rightarrow> bool" where
  "met i c as s s' \<longleftrightarrow> ms_returned s' = (i, Inr c) # ms_returned s
     \<and> ms_written s' = (c, le_bytes i) # ms_written s \<and> ms_accepts s' = as"

lemma mux_steps_two: "mux_step s (Ret t) \<Longrightarrow> mux_step t (Ret u) \<Longrightarrow> mux_steps s u"
  by (rule converse_rtranclp_into_rtranclp [where r = "\<lambda>s s'. mux_step s (Ret s')"]) auto

lemma accept_queued:
  assumes "AcceptWait i p \<in> set (ms_accepts s)" and "p < length (mb_pendings (ms_broker s))"
    and "pend s p = \<lparr>p_ch = Some c, p_doneCh = False\<rparr>"
  shows "\<exists>s'. mux_steps s s' \<and> met i c (remove1 (AcceptWait i p) (ms_accepts s)) s s'"
proof -
  let ?s1 = "Accept_recv i p c s"
  have 1: "mux_step s (Ret ?s1)" by (rule step_recv) (simp_all add: assms)
  have p1: "\<not> p_doneCh (pend ?s1 p)" using assms(2,3) by (simp add: Accept_recv_def)
  then obtain s' where s': "Accept_ack None i p c ?s1 = Ret s'"
      "met i c (remove1 (AcceptWait i p) (ms_accepts s)) s s'"
    by (simp add: Accept_ack_def close_chan_def Let_def met_def) (simp add: Accept_recv_def)
  have "mux_step ?s1 (Accept_ack None i p c ?s1)" by (rule step_ack) (simp add: Accept_recv_def)
  with 1 s' mux_steps_two show ?thesis by metis
qed

lemma queue_incoming:
  fixes bs :: bytes
  assumes "open_entry i p s" and "ms_run s = None"
  defines "s' \<equiv> Run_queue i p (length (ms_conns s)) (Run_read (le_bytes i @ bs) s)"
  shows "mux_steps s s'" and "pend s' p = \<lparr>p_ch = Some (length (ms_conns s)), p_doneCh = False\<rparr>"
    and "ms_accepts s' = ms_accepts s" and "ms_returned s' = ms_returned s" and "ms_written s' = ms_written s"
    and "mb_streams (ms_broker s') i = Some p" and "p < length (mb_pendings (ms_broker s'))"
proof -
  let ?s1 = "Run_read (le_bytes i @ bs) s"
  have s1: "?s1 = s\<lparr>ms_conns := ms_conns s @ [le_bytes i @ bs], ms_run := Some (i, p, length (ms_conns s))\<rparr>"
    using assms(1) by (simp add: open_entry_def Run_read_def getStream_def)
  have "mux_step s (Ret ?s1)" by (rule step_read) (rule assms(2))
  moreover have "mux_step ?s1 (Ret s')" unfolding s'_def by (rule step_queue) (simp add: s1)
  ultimately show "mux_steps s s'" by (rule mux_steps_two)
qed (use assms(1) in \<open>simp_all add: s'_def open_entry_def Run_read_def getStream_def Run_queue_def\<close>)



text \<open>
  C20: \<open>Dial\<close> succeeds exactly when the stream opened, the identifier was written and the peer
  acknowledged that identifier; whenever it fails after opening a stream, it closes it, and it
  never closes a stream it returns.
\<close>
theorem Dial_mux_correct:
  "(fst (Dial_mux oe we e answer i) = None \<longleftrightarrow> oe = None \<and> we = None \<and> le_word answer = Some i)
   \<and> (fst (snd (Dial_mux oe we e answer i)) \<longleftrightarrow> oe = None \<and> fst (Dial_mux oe we e answer i) \<noteq> None)"
  by (auto simp: Dial_mux_def read_id_def split: option.splits sum.splits)

end
