(* ===== verification/GRPCBroker.thy ===== *)
theory GRPCBroker
  imports Wire ClientStart Serve
begin

text \<open>
  The broker of the gRPC transport (\<open>grpc_broker.go\<close>): listeners announced to the peer by identifier and,
  with multiplexing, knocks on the listeners of the peer. As for the net/rpc broker, pending entries are an
  explicit store, and the calls that wait are cut where another goroutine can get in between: \<open>Run\<close>,
  \<open>timeoutWait\<close>, \<open>DialWithOptions\<close>, \<open>knock\<close> and \<open>listenForKnocks\<close>. A timeout may fire at any moment. The
  stream to the peer is what arrives from it and the results of sending; the multiplexer is given by the
  results of its operations.
\<close>

section \<open>Messages\<close>

record knock_info =
  ki_Knock :: bool
  ki_Ack :: bool
  ki_Error :: string

record conn_info =
  ci_ServiceId :: stream_id
  ci_Network :: string
  ci_Address :: string
  ci_Knock :: "knock_info option"

definition is_server_knock :: "conn_info \<Rightarrow> bool" where
  "is_server_knock msg = (case ci_Knock msg of None \<Rightarrow> False | Some k \<Rightarrow> ki_Knock k \<and> \<not> ki_Ack k)"

definition is_ack :: "conn_info \<Rightarrow> bool" where
  "is_ack msg = (case ci_Knock msg of None \<Rightarrow> False | Some k \<Rightarrow> ki_Knock k \<and> ki_Ack k)"

definition knock_msg :: "stream_id \<Rightarrow> conn_info" where
  "knock_msg sid = \<lparr>ci_ServiceId = sid, ci_Network = [], ci_Address = [],
                    ci_Knock = Some \<lparr>ki_Knock = True, ki_Ack = False, ki_Error = []\<rparr>\<rparr>"

definition ack_msg :: "stream_id \<Rightarrow> string \<Rightarrow> conn_info" where
  "ack_msg sid ackError = \<lparr>ci_ServiceId = sid, ci_Network = [], ci_Address = [],
                           ci_Knock = Some \<lparr>ki_Knock = True, ki_Ack = True, ki_Error = ackError\<rparr>\<rparr>"

section \<open>State\<close>

record gRPCBrokerPending =
  gp_ch :: "conn_info option"
  gp_doneCh :: bool
  gp_once :: bool

record grpc_broker =
  gb_nextID :: stream_id
  gb_tls :: "tls_config option"
  gb_doneCh :: bool
  gb_o :: bool
  gb_clientStreams :: "stream_id \<Rightarrow> nat option"
  gb_serverStreams :: "stream_id \<Rightarrow> nat option"
  gb_pendings :: "gRPCBrokerPending list"
  gb_unixSocketCfg :: unix_socket_config
  gb_addrTranslator :: "(addr_translation \<times> addr_translation) option"
  gb_muxEnabled :: bool

definition newGRPCBroker ::
  "tls_config option \<Rightarrow> unix_socket_config \<Rightarrow> (addr_translation \<times> addr_translation) option \<Rightarrow> bool \<Rightarrow> grpc_broker" where
  "newGRPCBroker tls us tr mux =
     \<lparr>gb_nextID = 0, gb_tls = tls, gb_doneCh = False, gb_o = False, gb_clientStreams = Map.empty,
      gb_serverStreams = Map.empty, gb_pendings = [], gb_unixSocketCfg = us, gb_addrTranslator = tr, gb_muxEnabled = mux\<rparr>"

definition NextId_grpc :: "grpc_broker \<Rightarrow> stream_id \<times> grpc_broker" where
  "NextId_grpc b = (let n = gb_nextID b + 1 in (n, b\<lparr>gb_nextID := n\<rparr>))"

definition new_pending :: gRPCBrokerPending where
  "new_pending = \<lparr>gp_ch = None, gp_doneCh = False, gp_once = False\<rparr>"

definition getClientStream :: "stream_id \<Rightarrow> grpc_broker \<Rightarrow> nat \<times> grpc_broker" where
  "getClientStream sid b =
     (case gb_clientStreams b sid of
        Some p \<Rightarrow> (p, b)
      | None \<Rightarrow>
          (let p = length (gb_pendings b)
           in (p, b\<lparr>gb_clientStreams := (gb_clientStreams b)(sid \<mapsto> p), gb_pendings := gb_pendings b @ [new_pending]\<rparr>)))"

definition getServerStream :: "stream_id \<Rightarrow> grpc_broker \<Rightarrow> nat \<times> grpc_broker" where
  "getServerStream sid b =
     (case gb_serverStreams b sid of
        Some p \<Rightarrow> (p, b)
      | None \<Rightarrow>
          (let p = length (gb_pendings b)
           in (p, b\<lparr>gb_serverStreams := (gb_serverStreams b)(sid \<mapsto> p), gb_pendings := gb_pendings b @ [new_pending]\<rparr>)))"

definition delete_client :: "stream_id \<Rightarrow> grpc_broker \<Rightarrow> grpc_broker" where
  "delete_client sid b = b\<lparr>gb_clientStreams := (gb_clientStreams b)(sid := None)\<rparr>"

definition delete_server :: "stream_id \<Rightarrow> grpc_broker \<Rightarrow> grpc_broker" where
  "delete_server sid b = b\<lparr>gb_serverStreams := (gb_serverStreams b)(sid := None)\<rparr>"

definition put_ch :: "nat \<Rightarrow> conn_info option \<Rightarrow> grpc_broker \<Rightarrow> grpc_broker" where
  "put_ch p c b = b\<lparr>gb_pendings := (gb_pendings b)[p := (gb_pendings b ! p)\<lparr>gp_ch := c\<rparr>]\<rparr>"

definition put_done :: "nat \<Rightarrow> bool \<Rightarrow> bool \<Rightarrow> grpc_broker \<Rightarrow> grpc_broker" where
  "put_done p d oc b = b\<lparr>gb_pendings := (gb_pendings b)[p := (gb_pendings b ! p)\<lparr>gp_doneCh := d, gp_once := oc\<rparr>]\<rparr>"

text \<open>\<open>Close\<close>, without the stream, which is closed first.\<close>

definition GRPCBroker_Close :: "grpc_broker \<Rightarrow> grpc_broker outcome" where
  "GRPCBroker_Close b =
     bind_out (once_Do (gb_o b) (\<lambda>b. bind_out (close_chan (gb_doneCh b)) (\<lambda>d. Ret (b\<lparr>gb_doneCh := d\<rparr>))) b)
       (\<lambda>(oc, b'). Ret (b'\<lparr>gb_o := oc\<rparr>))"

definition broker_inv :: "grpc_broker \<Rightarrow> bool" where
  "broker_inv b \<longleftrightarrow> (gb_o b \<longleftrightarrow> gb_doneCh b)"

lemmas grpc_store_defs = getClientStream_def getServerStream_def delete_client_def delete_server_def
  put_ch_def put_done_def NextId_grpc_def new_pending_def

interpretation grpc_ids: id_source NextId_grpc gb_nextID
  by unfold_locales (simp_all add: NextId_grpc_def Let_def)

interpretation grpc_clients: pending_table getClientStream delete_client gb_clientStreams "\<lambda>b. length (gb_pendings b)"
  by unfold_locales (simp_all add: grpc_store_defs Let_def split: option.splits)

interpretation grpc_servers: pending_table getServerStream delete_server gb_serverStreams "\<lambda>b. length (gb_pendings b)"
  by unfold_locales (simp_all add: grpc_store_defs Let_def split: option.splits)

lemma GRPCBroker_Close_eq:
  "broker_inv b \<Longrightarrow> GRPCBroker_Close b = Ret (b\<lparr>gb_doneCh := True, gb_o := True\<rparr>)"
  by (cases "gb_o b") (simp_all add: GRPCBroker_Close_def broker_inv_def go_simps)

interpretation grpc_broker_close: once_closer GRPCBroker_Close gb_doneCh broker_inv
proof unfold_locales
  fix b
  assume inv: "broker_inv b"
  then show "\<exists>b'. GRPCBroker_Close b = Ret b' \<and> broker_inv b' \<and> gb_doneCh b'"
    by (simp add: GRPCBroker_Close_eq broker_inv_def)
  show "GRPCBroker_Close b = Ret b" if "gb_doneCh b"
    using inv that by (simp add: GRPCBroker_Close_eq broker_inv_def)
qed

section \<open>Accept\<close>

text \<open>
  \<open>Accept\<close> without multiplexing: a new listener, its address as the peer sees it, and the announcement.
  \<open>send\<close> is the result of sending it.
\<close>

definition advertise :: "(addr_translation \<times> addr_translation) option \<Rightarrow> net_addr \<Rightarrow> (string \<times> string) res" where
  "advertise tr addr =
     (case tr of
        None \<Rightarrow> Inr (addr_Network addr, addr_String addr)
      | Some (p2h, h2p) \<Rightarrow> h2p (addr_Network addr) (addr_String addr))"

definition GRPCBroker_Accept ::
  "(fs_state \<Rightarrow> listen_result res \<times> fs_state) \<Rightarrow> (conn_info \<Rightarrow> goerror option) \<Rightarrow> grpc_broker \<Rightarrow> stream_id \<Rightarrow> fs_state
   \<Rightarrow> listen_result res \<times> conn_info option \<times> fs_state" where
  "GRPCBroker_Accept listen send b sid s =
     (case listen s of
        (Inl err, s') \<Rightarrow> (Inl err, None, s')
      | (Inr l, s') \<Rightarrow>
          (case advertise (gb_addrTranslator b) (listen_addr l) of
             Inl err \<Rightarrow> (Inl err, None, s')
           | Inr (advertiseNet, advertiseAddr) \<Rightarrow>
               (let msg = \<lparr>ci_ServiceId = sid, ci_Network = advertiseNet, ci_Address = advertiseAddr, ci_Knock = None\<rparr>
                in case send msg of
                     Some err \<Rightarrow> (Inl err, None, s')
                   | None \<Rightarrow> (Inr l, Some msg, s'))))"

text \<open>
  \<open>AcceptAndServe\<close> runs the server and a watcher of the broker's \<open>doneCh\<close> in a group: when the first of
  them ends, both are interrupted, by \<open>GracefulStop\<close> and by closing \<open>closeCh\<close>, and at the end the
  listener is closed. The effects are listed in order.
\<close>

datatype serve_effect = MadeServer bool | GracefulStopped | WatcherStopped | ListenerClosed

definition GRPCBroker_AcceptAndServe :: "listen_result res \<Rightarrow> tls_config option \<Rightarrow> serve_effect list" where
  "GRPCBroker_AcceptAndServe accepted tls =
     (case accepted of
        Inl err \<Rightarrow> []
      | Inr ln \<Rightarrow> [MadeServer (tls \<noteq> None), GracefulStopped, WatcherStopped, ListenerClosed])"

section \<open>Dial\<close>

text \<open>The end of \<open>DialWithOptions\<close>: the address of a received announcement, translated and resolved.\<close>

definition dial_address :: "start_world \<Rightarrow> (addr_translation \<times> addr_translation) option \<Rightarrow> conn_info \<Rightarrow> net_addr res" where
  "dial_address W tr c =
     (case (case tr of None \<Rightarrow> Inr (ci_Network c, ci_Address c) | Some (p2h, h2p) \<Rightarrow> p2h (ci_Network c) (ci_Address c)) of
        Inl err \<Rightarrow> Inl err
      | Inr (network, addr) \<Rightarrow>
          (if network = ''tcp'' then w_ResolveTCPAddr W addr
           else if network = ''unix'' then w_ResolveUnixAddr W addr
           else Inl (Errorf ''unknown address type: %s'' [FStr (ci_Address c)])))"

text \<open>The check of what a knock was answered with; a printed knock is the list of its fields.\<close>

definition knock_arg :: "conn_info \<Rightarrow> fmtarg" where
  "knock_arg msg =
     (case ci_Knock msg of
        None \<Rightarrow> FStr ''<nil>''
      | Some k \<Rightarrow> FStrs [if ki_Knock k then ''true'' else ''false'', if ki_Ack k then ''true'' else ''false'', ki_Error k])"

definition knock_answer :: "stream_id \<Rightarrow> conn_info \<Rightarrow> goerror option" where
  "knock_answer sid msg =
     (if ci_ServiceId msg \<noteq> sid
      then Some (Errorf ''handshake failed for multiplexing on id %d; got response for %d''
                   [FInt (uint sid), FInt (uint (ci_ServiceId msg))])
      else if \<not> is_ack msg
      then Some (Errorf ''handshake failed for multiplexing on id %d; expected knock and ack, but got %+v''
                   [FInt (uint sid), knock_arg msg])
      else case ci_Knock msg of
             Some k \<Rightarrow>
               (if ki_Error k \<noteq> []
                then Some (Errorf ''failed to knock for id %d: %s'' [FInt (uint sid), FStr (ki_Error k)])
                else None)
           | None \<Rightarrow> None)"

text \<open>The checks of a knock that was received.\<close>

definition knock_check :: "stream_id \<Rightarrow> conn_info \<Rightarrow> goerror option" where
  "knock_check sid msg =
     (if ci_ServiceId msg \<noteq> sid
      then Some (Errorf ''knock received with wrong service ID; expected %d but got %d''
                   [FInt (uint sid), FInt (uint (ci_ServiceId msg))])
      else if \<not> is_server_knock msg
      then Some (Errorf ''knock received for service ID %d with incorrect values; knock=%+v''
                   [FInt (uint sid), knock_arg msg])
      else None)"

section \<open>Goroutines\<close>

text \<open>
  Where the calls that wait stand: \<open>DialWithOptions\<close> in its select or with the message it received,
  \<open>knock\<close> with the knock sent or in its select, \<open>listenForKnocks\<close> at its beginning, in its select or about
  to acknowledge. The numbers of
  pending entries are kept with them.
\<close>

datatype dial_pc =
    DialWait stream_id nat
  | DialTaken stream_id nat conn_info
  | KnockSent stream_id
  | KnockWait stream_id nat

datatype listen_pc = ListenStart stream_id | ListenWait stream_id nat | ListenKnocked stream_id nat conn_info

record broker_sys =
  bs_broker :: grpc_broker
  bs_arrived :: "conn_info list"
  bs_run :: "(conn_info \<times> nat) option"
  bs_dials :: "dial_pc list"
  bs_listens :: "listen_pc list"
  bs_waiters :: "(stream_id \<times> nat) list"
  bs_listeners :: "(stream_id \<times> nat) list"
  bs_sent :: "conn_info list"
  bs_dialled :: "(stream_id \<times> conn_info res) list"
  bs_knocked :: "(stream_id \<times> goerror option) list"
  bs_listened :: "(stream_id \<times> goerror option) list"

definition broker_init :: "grpc_broker \<Rightarrow> broker_sys" where
  "broker_init b =
     \<lparr>bs_broker = b, bs_arrived = [], bs_run = None, bs_dials = [], bs_listens = [], bs_waiters = [],
      bs_listeners = [], bs_sent = [], bs_dialled = [], bs_knocked = [], bs_listened = []\<rparr>"

abbreviation gpend :: "broker_sys \<Rightarrow> nat \<Rightarrow> gRPCBrokerPending" where
  "gpend s p \<equiv> gb_pendings (bs_broker s) ! p"

text \<open>\<open>Run\<close>: the next message arrives and its entry is looked up by role; then the select.\<close>

definition Run_recv :: "conn_info \<Rightarrow> broker_sys \<Rightarrow> broker_sys" where
  "Run_recv msg s =
     (case (if is_server_knock msg then getServerStream (ci_ServiceId msg) (bs_broker s)
            else getClientStream (ci_ServiceId msg) (bs_broker s)) of
        (p, b) \<Rightarrow> s\<lparr>bs_broker := b, bs_run := Some (msg, p), bs_arrived := bs_arrived s @ [msg]\<rparr>)"

definition Run_route :: "conn_info \<Rightarrow> nat \<Rightarrow> broker_sys \<Rightarrow> broker_sys" where
  "Run_route msg p s =
     (if gp_ch (gpend s p) = None
      then s\<lparr>bs_run := None, bs_broker := put_ch p (Some msg) (bs_broker s),
             bs_waiters := (if is_server_knock msg then bs_waiters s else (ci_ServiceId msg, p) # bs_waiters s)\<rparr>
      else s\<lparr>bs_run := None\<rparr>)"

definition timeoutWait_grpc :: "stream_id \<Rightarrow> nat \<Rightarrow> broker_sys \<Rightarrow> broker_sys" where
  "timeoutWait_grpc sid p s =
     s\<lparr>bs_broker := delete_client sid (bs_broker s), bs_waiters := remove1 (sid, p) (bs_waiters s)\<rparr>"

text \<open>\<open>DialWithOptions\<close> without multiplexing, up to the announcement it returns with.\<close>

definition Dial_begin :: "stream_id \<Rightarrow> broker_sys \<Rightarrow> broker_sys" where
  "Dial_begin sid s =
     (case getClientStream sid (bs_broker s) of
        (p, b) \<Rightarrow> s\<lparr>bs_broker := b, bs_dials := DialWait sid p # bs_dials s\<rparr>)"

definition Dial_recv :: "stream_id \<Rightarrow> nat \<Rightarrow> conn_info \<Rightarrow> broker_sys \<Rightarrow> broker_sys" where
  "Dial_recv sid p msg s =
     s\<lparr>bs_broker := put_ch p None (bs_broker s),
       bs_dials := DialTaken sid p msg # remove1 (DialWait sid p) (bs_dials s)\<rparr>"

definition Dial_close :: "stream_id \<Rightarrow> nat \<Rightarrow> conn_info \<Rightarrow> broker_sys \<Rightarrow> broker_sys outcome" where
  "Dial_close sid p msg s =
     bind_out (close_chan (gp_doneCh (gpend s p)))
       (\<lambda>d. Ret (s\<lparr>bs_broker := put_done p d (gp_once (gpend s p)) (bs_broker s),
                   bs_dials := remove1 (DialTaken sid p msg) (bs_dials s),
                   bs_dialled := (sid, Inr msg) # bs_dialled s\<rparr>))"

definition dial_timeout_err :: "stream_id \<Rightarrow> goerror" where
  "dial_timeout_err sid = Errorf ''%w: waiting for connection info on id %d'' [FErr (Sentinel ErrBrokerTimeout), FInt (uint sid)]"

definition Dial_timeout :: "stream_id \<Rightarrow> nat \<Rightarrow> broker_sys \<Rightarrow> broker_sys" where
  "Dial_timeout sid p s =
     s\<lparr>bs_broker := delete_client sid (bs_broker s), bs_dials := remove1 (DialWait sid p) (bs_dials s),
       bs_dialled := (sid, Inl (dial_timeout_err sid)) # bs_dialled s\<rparr>"

text \<open>\<open>knock\<close>: sending, looking up the entry for the answer, and the answer or the timeout.\<close>

definition Knock_begin :: "goerror option \<Rightarrow> stream_id \<Rightarrow> broker_sys \<Rightarrow> broker_sys" where
  "Knock_begin send_err sid s =
     (case send_err of
        Some err \<Rightarrow> s\<lparr>bs_knocked := (sid, Some err) # bs_knocked s\<rparr>
      | None \<Rightarrow> s\<lparr>bs_sent := bs_sent s @ [knock_msg sid], bs_dials := KnockSent sid # bs_dials s\<rparr>)"

definition Knock_lookup :: "stream_id \<Rightarrow> broker_sys \<Rightarrow> broker_sys" where
  "Knock_lookup sid s =
     (case getClientStream sid (bs_broker s) of
        (p, b) \<Rightarrow> s\<lparr>bs_broker := b, bs_dials := KnockWait sid p # remove1 (KnockSent sid) (bs_dials s)\<rparr>)"

definition Knock_recv :: "stream_id \<Rightarrow> nat \<Rightarrow> conn_info \<Rightarrow> broker_sys \<Rightarrow> broker_sys" where
  "Knock_recv sid p msg s =
     s\<lparr>bs_broker := put_ch p None (bs_broker s), bs_dials := remove1 (KnockWait sid p) (bs_dials s),
       bs_knocked := (sid, knock_answer sid msg) # bs_knocked s\<rparr>"

definition knock_timeout_err :: "stream_id \<Rightarrow> goerror" where
  "knock_timeout_err sid = Errorf ''%w: multiplexing knock handshake on id %d'' [FErr (Sentinel ErrBrokerTimeout), FInt (uint sid)]"

definition Knock_timeout :: "stream_id \<Rightarrow> nat \<Rightarrow> broker_sys \<Rightarrow> broker_sys" where
  "Knock_timeout sid p s =
     s\<lparr>bs_broker := delete_client sid (bs_broker s), bs_dials := remove1 (KnockWait sid p) (bs_dials s),
       bs_knocked := (sid, Some (knock_timeout_err sid)) # bs_knocked s\<rparr>"

text \<open>
  \<open>Accept\<close> with multiplexing: the entry, the goroutine that listens for knocks, and the listener of the
  multiplexer, if it can be made; closing that listener.
\<close>

definition Accept_mux :: "goerror option \<Rightarrow> stream_id \<Rightarrow> broker_sys \<Rightarrow> broker_sys" where
  "Accept_mux listener_err sid s =
     (case getServerStream sid (bs_broker s) of
        (p, b) \<Rightarrow>
          (let s' = s\<lparr>bs_broker := b, bs_listens := ListenStart sid # bs_listens s\<rparr>
           in if listener_err = None then s'\<lparr>bs_listeners := (sid, p) # bs_listeners s'\<rparr> else s'))"

definition Listener_close :: "stream_id \<Rightarrow> nat \<Rightarrow> broker_sys \<Rightarrow> broker_sys outcome" where
  "Listener_close sid p s =
     bind_out (once_Do (gp_once (gpend s p)) close_chan (gp_doneCh (gpend s p)))
       (\<lambda>(oc, d). Ret (s\<lparr>bs_broker := delete_server sid (put_done p d oc (bs_broker s)),
                         bs_listeners := remove1 (sid, p) (bs_listeners s)\<rparr>))"

text \<open>
  \<open>listenForKnocks\<close>: its own look-up of the entry; a knock is received and checked; the multiplexer is told and the acknowledgement
  is sent, with the text of the multiplexer's error if there was one; or the listener was closed.
\<close>

definition Listen_begin :: "stream_id \<Rightarrow> broker_sys \<Rightarrow> broker_sys" where
  "Listen_begin sid s =
     (case getServerStream sid (bs_broker s) of
        (p, b) \<Rightarrow> s\<lparr>bs_broker := b, bs_listens := ListenWait sid p # remove1 (ListenStart sid) (bs_listens s)\<rparr>)"

definition Listen_recv :: "stream_id \<Rightarrow> nat \<Rightarrow> conn_info \<Rightarrow> broker_sys \<Rightarrow> broker_sys" where
  "Listen_recv sid p msg s =
     (let s' = s\<lparr>bs_broker := put_ch p None (bs_broker s)\<rparr>
      in case knock_check sid msg of
           Some err \<Rightarrow> s'\<lparr>bs_listens := remove1 (ListenWait sid p) (bs_listens s), bs_listened := (sid, Some err) # bs_listened s\<rparr>
         | None \<Rightarrow> s'\<lparr>bs_listens := ListenKnocked sid p msg # remove1 (ListenWait sid p) (bs_listens s)\<rparr>)"

definition Listen_ack :: "string \<Rightarrow> goerror option \<Rightarrow> stream_id \<Rightarrow> nat \<Rightarrow> conn_info \<Rightarrow> broker_sys \<Rightarrow> broker_sys" where
  "Listen_ack ackError send_err sid p msg s =
     (let rest = remove1 (ListenKnocked sid p msg) (bs_listens s)
      in case send_err of
           Some err \<Rightarrow> s\<lparr>bs_listens := rest,
                         bs_listened := (sid, Some (Errorf ''error sending back knock acknowledgement: %w'' [FErr err])) # bs_listened s\<rparr>
         | None \<Rightarrow> s\<lparr>bs_listens := ListenWait sid p # rest, bs_sent := bs_sent s @ [ack_msg sid ackError]\<rparr>)"

definition Listen_done :: "stream_id \<Rightarrow> nat \<Rightarrow> broker_sys \<Rightarrow> broker_sys" where
  "Listen_done sid p s =
     s\<lparr>bs_listens := remove1 (ListenWait sid p) (bs_listens s), bs_listened := (sid, None) # bs_listened s\<rparr>"

text \<open>
  \<open>muxDial\<close> holds \<open>dialMutex\<close> from before the knock until after the dial, so only one knock is under way.
\<close>

definition knocking :: "broker_sys \<Rightarrow> bool" where
  "knocking s \<longleftrightarrow> (\<exists>d \<in> set (bs_dials s). case d of KnockSent _ \<Rightarrow> True | KnockWait _ _ \<Rightarrow> True | _ \<Rightarrow> False)"

inductive broker_step :: "broker_sys \<Rightarrow> broker_sys outcome \<Rightarrow> bool" where
  run_recv: "bs_run s = None \<Longrightarrow> broker_step s (Ret (Run_recv msg s))"
| run_route: "bs_run s = Some (msg, p) \<Longrightarrow> broker_step s (Ret (Run_route msg p s))"
| wait_end: "(sid, p) \<in> set (bs_waiters s) \<Longrightarrow> broker_step s (Ret (timeoutWait_grpc sid p s))"
| dial_begin: "\<not> gb_muxEnabled (bs_broker s) \<Longrightarrow> broker_step s (Ret (Dial_begin sid s))"
| dial_recv: "DialWait sid p \<in> set (bs_dials s) \<Longrightarrow> gp_ch (gpend s p) = Some msg
    \<Longrightarrow> broker_step s (Ret (Dial_recv sid p msg s))"
| dial_close: "DialTaken sid p msg \<in> set (bs_dials s) \<Longrightarrow> broker_step s (Dial_close sid p msg s)"
| dial_timeout: "DialWait sid p \<in> set (bs_dials s) \<Longrightarrow> broker_step s (Ret (Dial_timeout sid p s))"
| knock_begin: "gb_muxEnabled (bs_broker s) \<Longrightarrow> \<not> knocking s \<Longrightarrow> broker_step s (Ret (Knock_begin send_err sid s))"
| knock_lookup: "KnockSent sid \<in> set (bs_dials s) \<Longrightarrow> broker_step s (Ret (Knock_lookup sid s))"
| knock_recv: "KnockWait sid p \<in> set (bs_dials s) \<Longrightarrow> gp_ch (gpend s p) = Some msg
    \<Longrightarrow> broker_step s (Ret (Knock_recv sid p msg s))"
| knock_timeout: "KnockWait sid p \<in> set (bs_dials s) \<Longrightarrow> broker_step s (Ret (Knock_timeout sid p s))"
| accept_mux: "gb_muxEnabled (bs_broker s) \<Longrightarrow> broker_step s (Ret (Accept_mux listener_err sid s))"
| listener_close: "(sid, p) \<in> set (bs_listeners s) \<Longrightarrow> broker_step s (Listener_close sid p s)"
| listen_begin: "ListenStart sid \<in> set (bs_listens s) \<Longrightarrow> broker_step s (Ret (Listen_begin sid s))"
| listen_recv: "ListenWait sid p \<in> set (bs_listens s) \<Longrightarrow> gp_ch (gpend s p) = Some msg
    \<Longrightarrow> broker_step s (Ret (Listen_recv sid p msg s))"
| listen_ack: "ListenKnocked sid p msg \<in> set (bs_listens s) \<Longrightarrow> broker_step s (Ret (Listen_ack ackError send_err sid p msg s))"
| listen_done: "ListenWait sid p \<in> set (bs_listens s) \<Longrightarrow> gp_doneCh (gpend s p) \<Longrightarrow> broker_step s (Ret (Listen_done sid p s))"
| next_id: "broker_step s (Ret (s\<lparr>bs_broker := snd (NextId_grpc (bs_broker s))\<rparr>))"

inductive broker_reach :: "bool \<Rightarrow> broker_sys \<Rightarrow> bool" for mux where
  breach_init: "broker_reach mux (broker_init (newGRPCBroker tls us tr mux))"
| breach_step: "broker_reach mux s \<Longrightarrow> broker_step s (Ret s') \<Longrightarrow> broker_reach mux s'"

inductive_cases broker_panicE: "broker_step s (Panic m)"

end
