(* ===== verification/GRPCBrokerSafety.thy ===== *)
theory GRPCBrokerSafety
  imports GRPCBroker
begin

text \<open>
  Invariants of the gRPC broker's step relation. Every pending entry has a role and an identifier for life,
  given here by a function that grows with the store; whatever refers to an entry, and whatever is queued in
  it, agrees with them.
\<close>

section \<open>Roles of entries\<close>

definition entry :: "(nat \<Rightarrow> bool \<times> stream_id) \<Rightarrow> grpc_broker \<Rightarrow> bool \<Rightarrow> stream_id \<Rightarrow> nat \<Rightarrow> bool" where
  "entry role b srv sid p \<longleftrightarrow> p < length (gb_pendings b) \<and> role p = (srv, sid)"

definition store_ok :: "(nat \<Rightarrow> bool \<times> stream_id) \<Rightarrow> grpc_broker \<Rightarrow> conn_info list \<Rightarrow> bool" where
  "store_ok role b arr \<longleftrightarrow>
     (\<forall>sid p. gb_clientStreams b sid = Some p \<longrightarrow> entry role b False sid p)
     \<and> (\<forall>sid p. gb_serverStreams b sid = Some p \<longrightarrow> entry role b True sid p)
     \<and> (\<forall>p m. p < length (gb_pendings b) \<longrightarrow> gp_ch (gb_pendings b ! p) = Some m
          \<longrightarrow> role p = (is_server_knock m, ci_ServiceId m) \<and> m \<in> set arr)"

fun dial_ok :: "(nat \<Rightarrow> bool \<times> stream_id) \<Rightarrow> grpc_broker \<Rightarrow> conn_info list \<Rightarrow> dial_pc \<Rightarrow> bool" where
  "dial_ok role b arr (DialWait sid p) = entry role b False sid p"
| "dial_ok role b arr (DialTaken sid p m) =
     (entry role b False sid p \<and> ci_ServiceId m = sid \<and> \<not> is_server_knock m \<and> m \<in> set arr)"
| "dial_ok role b arr (KnockSent sid) = True"
| "dial_ok role b arr (KnockWait sid p) = entry role b False sid p"

fun listen_ok :: "(nat \<Rightarrow> bool \<times> stream_id) \<Rightarrow> grpc_broker \<Rightarrow> conn_info list \<Rightarrow> listen_pc \<Rightarrow> bool" where
  "listen_ok role b arr (ListenStart sid) = True"
| "listen_ok role b arr (ListenWait sid p) = entry role b True sid p"
| "listen_ok role b arr (ListenKnocked sid p m) = (entry role b True sid p \<and> knock_check sid m = None \<and> m \<in> set arr)"

definition run_ok :: "(nat \<Rightarrow> bool \<times> stream_id) \<Rightarrow> grpc_broker \<Rightarrow> conn_info list \<Rightarrow> (conn_info \<times> nat) option \<Rightarrow> bool" where
  "run_ok role b arr r \<longleftrightarrow>
     (\<forall>m p. r = Some (m, p) \<longrightarrow> entry role b (is_server_knock m) (ci_ServiceId m) p \<and> m \<in> set arr)"

definition dialled_ok :: "conn_info list \<Rightarrow> stream_id \<times> conn_info res \<Rightarrow> bool" where
  "dialled_ok arr r \<longleftrightarrow>
     (case r of
        (sid, Inr m) \<Rightarrow> ci_ServiceId m = sid \<and> \<not> is_server_knock m \<and> m \<in> set arr
      | (sid, Inl e) \<Rightarrow> e = dial_timeout_err sid)"

text \<open>A knock succeeds only by an acknowledgement without error for its identifier.\<close>

definition knocked_ok :: "conn_info list \<Rightarrow> stream_id \<times> goerror option \<Rightarrow> bool" where
  "knocked_ok arr r \<longleftrightarrow>
     (snd r = None \<longrightarrow> (\<exists>m \<in> set arr. ci_ServiceId m = fst r \<and> is_ack m
                          \<and> (\<exists>k. ci_Knock m = Some k \<and> ki_Error k = [])))"

text \<open>\<open>listenForKnocks\<close> ends without error, or because an acknowledgement could not be sent.\<close>

definition listened_ok :: "stream_id \<times> goerror option \<Rightarrow> bool" where
  "listened_ok r \<longleftrightarrow>
     (snd r = None \<or> (\<exists>err. snd r = Some (Errorf ''error sending back knock acknowledgement: %w'' [FErr err])))"

definition sys_ok :: "(nat \<Rightarrow> bool \<times> stream_id) \<Rightarrow> broker_sys \<Rightarrow> bool" where
  "sys_ok role s \<longleftrightarrow>
     store_ok role (bs_broker s) (bs_arrived s)
     \<and> run_ok role (bs_broker s) (bs_arrived s) (bs_run s)
     \<and> (\<forall>d \<in> set (bs_dials s). dial_ok role (bs_broker s) (bs_arrived s) d)
     \<and> (\<forall>l \<in> set (bs_listens s). listen_ok role (bs_broker s) (bs_arrived s) l)
     \<and> (\<forall>(sid, p) \<in> set (bs_waiters s). entry role (bs_broker s) False sid p)
     \<and> (\<forall>(sid, p) \<in> set (bs_listeners s). entry role (bs_broker s) True sid p)
     \<and> (\<forall>r \<in> set (bs_dialled s). dialled_ok (bs_arrived s) r)
     \<and> (\<forall>r \<in> set (bs_knocked s). knocked_ok (bs_arrived s) r)
     \<and> (\<forall>r \<in> set (bs_listened s). listened_ok r)"

section \<open>What the store operations keep\<close>

lemma entry_simps [simp]:
  "entry role (put_ch p c b) = entry role b" "entry role (put_done p d oc b) = entry role b"
  "entry role (delete_client sid b) = entry role b" "entry role (delete_server sid b) = entry role b"
  "entry role (snd (NextId_grpc b)) = entry role b"
  by (intro ext, simp add: entry_def grpc_store_defs Let_def)+

lemma dial_ok_simps [simp]:
  "dial_ok role (put_ch p c b) = dial_ok role b" "dial_ok role (put_done p d oc b) = dial_ok role b"
  "dial_ok role (delete_client sid b) = dial_ok role b" "dial_ok role (delete_server sid b) = dial_ok role b"
  "dial_ok role (snd (NextId_grpc b)) = dial_ok role b"
  by (intro ext, rename_tac x, case_tac x, simp_all)+

lemma listen_ok_simps [simp]:
  "listen_ok role (put_ch p c b) = listen_ok role b" "listen_ok role (put_done p d oc b) = listen_ok role b"
  "listen_ok role (delete_client sid b) = listen_ok role b" "listen_ok role (delete_server sid b) = listen_ok role b"
  "listen_ok role (snd (NextId_grpc b)) = listen_ok role b"
  by (intro ext, rename_tac x, case_tac x, simp_all)+

lemma run_ok_simps [simp]:
  "run_ok role (put_ch p c b) = run_ok role b" "run_ok role (put_done p d oc b) = run_ok role b"
  "run_ok role (delete_client sid b) = run_ok role b" "run_ok role (delete_server sid b) = run_ok role b"
  "run_ok role (snd (NextId_grpc b)) = run_ok role b" "run_ok role b arr None"
  by (intro ext | simp add: run_ok_def)+

lemma ch_put: "gp_ch (gb_pendings (put_ch p c b) ! q) = (if p = q \<and> q < length (gb_pendings b) then c else gp_ch (gb_pendings b ! q))"
  by (cases "p < length (gb_pendings b)") (auto simp: put_ch_def nth_list_update list_update_beyond not_less)

lemma ch_put_done: "gp_ch (gb_pendings (put_done p d oc b) ! q) = gp_ch (gb_pendings b ! q)"
  by (cases "p < length (gb_pendings b)") (auto simp: put_done_def nth_list_update list_update_beyond not_less)

lemma put_simps [simp]:
  "gb_clientStreams (put_ch p c b) = gb_clientStreams b" "gb_serverStreams (put_ch p c b) = gb_serverStreams b"
  "length (gb_pendings (put_ch p c b)) = length (gb_pendings b)"
  "gb_clientStreams (put_done p d oc b) = gb_clientStreams b" "gb_serverStreams (put_done p d oc b) = gb_serverStreams b"
  "length (gb_pendings (put_done p d oc b)) = length (gb_pendings b)"
  by (simp_all add: put_ch_def put_done_def)

lemma store_put_none [simp]: "store_ok role b arr \<Longrightarrow> store_ok role (put_ch p None b) arr"
  by (auto simp: store_ok_def ch_put split: if_splits)

lemma store_put_some:
  "store_ok role b arr \<Longrightarrow> entry role b (is_server_knock m) (ci_ServiceId m) p \<Longrightarrow> m \<in> set arr
     \<Longrightarrow> store_ok role (put_ch p (Some m) b) arr"
  by (auto simp: store_ok_def ch_put entry_def split: if_splits)

lemma store_put_done [simp]: "store_ok role b arr \<Longrightarrow> store_ok role (put_done p d oc b) arr"
  by (auto simp: store_ok_def ch_put_done)

lemma store_delete [simp]:
  "store_ok role b arr \<Longrightarrow> store_ok role (delete_client sid b) arr"
  "store_ok role b arr \<Longrightarrow> store_ok role (delete_server sid b) arr"
  by (auto simp: store_ok_def delete_client_def delete_server_def entry_def split: if_splits)

lemma store_next [simp]: "store_ok role b arr \<Longrightarrow> store_ok role (snd (NextId_grpc b)) arr"
  by (auto simp: store_ok_def NextId_grpc_def Let_def entry_def)

text \<open>Looking up an entry: the roles grow, and the entry that was found has the one asked for.\<close>

definition grows :: "(nat \<Rightarrow> bool \<times> stream_id) \<Rightarrow> grpc_broker \<Rightarrow> (nat \<Rightarrow> bool \<times> stream_id) \<Rightarrow> grpc_broker \<Rightarrow> bool" where
  "grows role b role' b' \<longleftrightarrow> (\<forall>srv sid p. entry role b srv sid p \<longrightarrow> entry role' b' srv sid p)"

lemma alloc_ok:
  assumes "store_ok role b arr"
  shows "store_ok (role(length (gb_pendings b) := (srv, sid))) (b\<lparr>gb_pendings := gb_pendings b @ [new_pending]\<rparr>) arr"
    and "grows role b (role(length (gb_pendings b) := (srv, sid))) (b\<lparr>gb_pendings := gb_pendings b @ [new_pending]\<rparr>)"
    and "entry (role(length (gb_pendings b) := (srv, sid))) (b\<lparr>gb_pendings := gb_pendings b @ [new_pending]\<rparr>) srv sid (length (gb_pendings b))"
proof -
  let ?n = "length (gb_pendings b)" and ?b = "b\<lparr>gb_pendings := gb_pendings b @ [new_pending]\<rparr>"
  let ?role = "role(?n := (srv, sid))"
  show g: "grows role b ?role ?b" by (auto simp: grows_def entry_def)
  show "entry ?role ?b srv sid ?n" by (simp add: entry_def)
  have ch: "gp_ch (gb_pendings ?b ! p) = Some m \<Longrightarrow> p < length (gb_pendings ?b) \<Longrightarrow> p < ?n \<and> gp_ch (gb_pendings b ! p) = Some m" for p m
    by (auto simp: nth_append new_pending_def less_Suc_eq)
  show "store_ok ?role ?b arr"
    unfolding store_ok_def
  proof (intro conjI allI impI)
    fix p m
    assume "p < length (gb_pendings ?b)" "gp_ch (gb_pendings ?b ! p) = Some m"
    with ch have p: "p < ?n" "gp_ch (gb_pendings b ! p) = Some m" by blast+
    with assms show "?role p = (is_server_knock m, ci_ServiceId m)" "m \<in> set arr" by (auto simp: store_ok_def)
  qed (use assms g in \<open>auto simp: store_ok_def grows_def\<close>)
qed

lemma table_ok:
  "store_ok role b arr \<Longrightarrow> entry role b False sid p \<Longrightarrow> store_ok role (b\<lparr>gb_clientStreams := (gb_clientStreams b)(sid \<mapsto> p)\<rparr>) arr"
  "store_ok role b arr \<Longrightarrow> entry role b True sid p \<Longrightarrow> store_ok role (b\<lparr>gb_serverStreams := (gb_serverStreams b)(sid \<mapsto> p)\<rparr>) arr"
  by (auto simp: store_ok_def entry_def)

lemma table_entry [simp]:
  "entry role (b\<lparr>gb_clientStreams := t\<rparr>) = entry role b" "entry role (b\<lparr>gb_serverStreams := t\<rparr>) = entry role b"
  by (intro ext, simp add: entry_def)+

lemma get_client_ok:
  assumes "store_ok role b arr" "getClientStream sid b = (p, b')"
  shows "\<exists>role'. store_ok role' b' arr \<and> grows role b role' b' \<and> entry role' b' False sid p"
proof (cases "gb_clientStreams b sid")
  case (Some q)
  with assms show ?thesis by (intro exI [of _ role]) (auto simp: getClientStream_def store_ok_def grows_def)
next
  case None
  let ?b = "b\<lparr>gb_pendings := gb_pendings b @ [new_pending]\<rparr>"
  have b': "b' = ?b\<lparr>gb_clientStreams := (gb_clientStreams ?b)(sid \<mapsto> p)\<rparr>" "p = length (gb_pendings b)"
    using assms(2) None by (auto simp: getClientStream_def Let_def)
  show ?thesis
    using alloc_ok [OF assms(1), of False sid] table_ok(1) [OF alloc_ok(1,3) [OF assms(1), of False sid]]
    unfolding b' grows_def by (intro exI [of _ "role(length (gb_pendings b) := (False, sid))"]) auto
qed

lemma get_server_ok:
  assumes "store_ok role b arr" "getServerStream sid b = (p, b')"
  shows "\<exists>role'. store_ok role' b' arr \<and> grows role b role' b' \<and> entry role' b' True sid p"
proof (cases "gb_serverStreams b sid")
  case (Some q)
  with assms show ?thesis by (intro exI [of _ role]) (auto simp: getServerStream_def store_ok_def grows_def)
next
  case None
  let ?b = "b\<lparr>gb_pendings := gb_pendings b @ [new_pending]\<rparr>"
  have b': "b' = ?b\<lparr>gb_serverStreams := (gb_serverStreams ?b)(sid \<mapsto> p)\<rparr>" "p = length (gb_pendings b)"
    using assms(2) None by (auto simp: getServerStream_def Let_def)
  show ?thesis
    using alloc_ok [OF assms(1), of True sid] table_ok(2) [OF alloc_ok(1,3) [OF assms(1), of True sid]]
    unfolding b' grows_def by (intro exI [of _ "role(length (gb_pendings b) := (True, sid))"]) auto
qed

lemma dial_ok_grows: "grows role b role' b' \<Longrightarrow> set arr \<subseteq> set arr' \<Longrightarrow> dial_ok role b arr d \<Longrightarrow> dial_ok role' b' arr' d"
  by (cases d) (auto simp: grows_def)

lemma listen_ok_grows: "grows role b role' b' \<Longrightarrow> set arr \<subseteq> set arr' \<Longrightarrow> listen_ok role b arr l \<Longrightarrow> listen_ok role' b' arr' l"
  by (cases l) (auto simp: grows_def)

lemma store_ok_arrived: "store_ok role b arr \<Longrightarrow> set arr \<subseteq> set arr' \<Longrightarrow> store_ok role b arr'"
  unfolding store_ok_def by blast

lemma dialled_ok_arrived: "dialled_ok arr r \<Longrightarrow> set arr \<subseteq> set arr' \<Longrightarrow> dialled_ok arr' r"
  by (auto simp: dialled_ok_def split: prod.splits sum.splits)

lemma knocked_ok_arrived: "knocked_ok arr r \<Longrightarrow> set arr \<subseteq> set arr' \<Longrightarrow> knocked_ok arr' r"
  unfolding knocked_ok_def by blast

text \<open>A look-up as a whole, with an arriving message or without.\<close>

lemma sys_ok_get:
  assumes "sys_ok role s" "set (bs_arrived s) \<subseteq> set arr"
    and "srv \<and> getServerStream sid (bs_broker s) = (p, b) \<or> \<not> srv \<and> getClientStream sid (bs_broker s) = (p, b)"
  obtains role' where "sys_ok role' (s\<lparr>bs_broker := b, bs_arrived := arr\<rparr>)" "entry role' b srv sid p"
proof -
  have "store_ok role (bs_broker s) arr" using assms(1,2) store_ok_arrived unfolding sys_ok_def by blast
  with assms(3) get_client_ok [of role "bs_broker s" arr sid p b] get_server_ok [of role "bs_broker s" arr sid p b]
  obtain role' where r: "store_ok role' b arr" "grows role (bs_broker s) role' b" "entry role' b srv sid p"
    by (cases srv) auto
  have "sys_ok role' (s\<lparr>bs_broker := b, bs_arrived := arr\<rparr>)"
    using assms(1,2) r(1)
    by (auto simp: sys_ok_def run_ok_def intro: dial_ok_grows [OF r(2) assms(2)] listen_ok_grows [OF r(2) assms(2)]
        dialled_ok_arrived knocked_ok_arrived r(2) [unfolded grows_def, rule_format])
  with r(3) that show thesis by blast
qed

section \<open>Every step keeps the invariant\<close>

lemma remove1D: "x \<in> set (remove1 y xs) \<Longrightarrow> x \<in> set xs"
  using set_remove1_subset by fast

lemma sys_ok_parts:
  assumes "sys_ok role s"
  shows "store_ok role (bs_broker s) (bs_arrived s)" "run_ok role (bs_broker s) (bs_arrived s) (bs_run s)"
    and "d \<in> set (bs_dials s) \<Longrightarrow> dial_ok role (bs_broker s) (bs_arrived s) d"
    and "l \<in> set (bs_listens s) \<Longrightarrow> listen_ok role (bs_broker s) (bs_arrived s) l"
    and "(sid, p) \<in> set (bs_listeners s) \<Longrightarrow> entry role (bs_broker s) True sid p"
  using assms by (auto simp: sys_ok_def)

lemma queued_message:
  assumes "sys_ok role s" "entry role (bs_broker s) srv sid p" "gp_ch (gpend s p) = Some m"
  shows "ci_ServiceId m = sid" "is_server_knock m = srv" "m \<in> set (bs_arrived s)"
  using assms by (auto simp: sys_ok_def store_ok_def entry_def)

lemma ok_run_recv: "sys_ok role s \<Longrightarrow> bs_run s = None \<Longrightarrow> \<exists>role'. sys_ok role' (Run_recv m s)"
proof -
  assume ok: "sys_ok role s"
  obtain p b where g: "(if is_server_knock m then getServerStream (ci_ServiceId m) (bs_broker s)
      else getClientStream (ci_ServiceId m) (bs_broker s)) = (p, b)" by fastforce
  from ok obtain role' where r: "sys_ok role' (s\<lparr>bs_broker := b, bs_arrived := bs_arrived s @ [m]\<rparr>)"
    "entry role' b (is_server_knock m) (ci_ServiceId m) p"
    by (rule sys_ok_get [where arr = "bs_arrived s @ [m]" and srv = "is_server_knock m" and sid = "ci_ServiceId m" and p = p and b = b])
       (use g in \<open>auto split: if_splits\<close>)
  have "Run_recv m s = s\<lparr>bs_broker := b, bs_arrived := bs_arrived s @ [m], bs_run := Some (m, p)\<rparr>"
    using g by (simp add: Run_recv_def)
  with r show ?thesis by (auto simp: sys_ok_def run_ok_def)
qed

lemma ok_run_route: "sys_ok role s \<Longrightarrow> bs_run s = Some (m, p) \<Longrightarrow> sys_ok role (Run_route m p s)"
  by (auto simp: sys_ok_def Run_route_def run_ok_def intro: store_put_some)

lemma ok_wait: "sys_ok role s \<Longrightarrow> sys_ok role (timeoutWait_grpc sid p s)"
  by (auto simp: sys_ok_def timeoutWait_grpc_def dest!: remove1D)

lemma sys_ok_client_get:
  assumes "sys_ok role s" "getClientStream sid (bs_broker s) = (p, b)"
  obtains role' where "sys_ok role' (s\<lparr>bs_broker := b\<rparr>)" "entry role' b False sid p"
  by (rule sys_ok_get [OF assms(1), of "bs_arrived s" False sid p b]) (use assms(2) in auto)

lemma sys_ok_server_get:
  assumes "sys_ok role s" "getServerStream sid (bs_broker s) = (p, b)"
  obtains role' where "sys_ok role' (s\<lparr>bs_broker := b\<rparr>)" "entry role' b True sid p"
  by (rule sys_ok_get [OF assms(1), of "bs_arrived s" True sid p b]) (use assms(2) in auto)

lemma ok_dial_begin: "sys_ok role s \<Longrightarrow> \<exists>role'. sys_ok role' (Dial_begin sid s)"
proof -
  assume ok: "sys_ok role s"
  obtain p b where g: "getClientStream sid (bs_broker s) = (p, b)" by fastforce
  from sys_ok_client_get [OF ok g] obtain role' where "sys_ok role' (s\<lparr>bs_broker := b\<rparr>)" "entry role' b False sid p" .
  then show ?thesis by (intro exI [of _ role']) (auto simp: Dial_begin_def g sys_ok_def)
qed

lemma ok_knock_lookup: "sys_ok role s \<Longrightarrow> \<exists>role'. sys_ok role' (Knock_lookup sid s)"
proof -
  assume ok: "sys_ok role s"
  obtain p b where g: "getClientStream sid (bs_broker s) = (p, b)" by fastforce
  from sys_ok_client_get [OF ok g] obtain role' where "sys_ok role' (s\<lparr>bs_broker := b\<rparr>)" "entry role' b False sid p" .
  then show ?thesis by (intro exI [of _ role']) (auto simp: Knock_lookup_def g sys_ok_def dest!: remove1D)
qed

lemma ok_accept_mux: "sys_ok role s \<Longrightarrow> \<exists>role'. sys_ok role' (Accept_mux e sid s)"
proof -
  assume ok: "sys_ok role s"
  obtain p b where g: "getServerStream sid (bs_broker s) = (p, b)" by fastforce
  from sys_ok_server_get [OF ok g] obtain role' where "sys_ok role' (s\<lparr>bs_broker := b\<rparr>)" "entry role' b True sid p" .
  then show ?thesis by (intro exI [of _ role']) (auto simp: Accept_mux_def g sys_ok_def Let_def)
qed

lemma ok_listen_begin: "sys_ok role s \<Longrightarrow> \<exists>role'. sys_ok role' (Listen_begin sid s)"
proof -
  assume ok: "sys_ok role s"
  obtain p b where g: "getServerStream sid (bs_broker s) = (p, b)" by fastforce
  from sys_ok_server_get [OF ok g] obtain role' where "sys_ok role' (s\<lparr>bs_broker := b\<rparr>)" "entry role' b True sid p" .
  then show ?thesis by (intro exI [of _ role']) (auto simp: Listen_begin_def g sys_ok_def dest!: remove1D)
qed

lemma ok_dial_recv:
  assumes "sys_ok role s" "DialWait sid p \<in> set (bs_dials s)" "gp_ch (gpend s p) = Some m"
  shows "sys_ok role (Dial_recv sid p m s)"
proof -
  have e: "entry role (bs_broker s) False sid p" using sys_ok_parts(3) [OF assms(1,2)] by simp
  note q = queued_message [OF assms(1) e assms(3)]
  show ?thesis using assms(1) e q by (auto simp: sys_ok_def Dial_recv_def dest!: remove1D)
qed

lemma ok_dial_close:
  assumes "sys_ok role s" "DialTaken sid p m \<in> set (bs_dials s)" "Dial_close sid p m s = Ret s'"
  shows "sys_ok role s'"
proof -
  have "dialled_ok (bs_arrived s) (sid, Inr m)" using sys_ok_parts(3) [OF assms(1,2)] by (simp add: dialled_ok_def)
  with assms(1,3) show ?thesis by (auto simp: sys_ok_def Dial_close_def close_chan_def dest!: remove1D split: if_splits)
qed

lemma ok_dial_timeout: "sys_ok role s \<Longrightarrow> sys_ok role (Dial_timeout sid p s)"
  by (auto simp: sys_ok_def Dial_timeout_def dialled_ok_def dest!: remove1D)

lemma ok_knock_begin: "sys_ok role s \<Longrightarrow> sys_ok role (Knock_begin e sid s)"
  by (auto simp: sys_ok_def Knock_begin_def knocked_ok_def split: option.split)

lemma knock_answer_None: "knock_answer sid m = None \<Longrightarrow> ci_ServiceId m = sid \<and> is_ack m \<and> (\<exists>k. ci_Knock m = Some k \<and> ki_Error k = [])"
  by (auto simp: knock_answer_def is_ack_def split: if_splits option.splits)

lemma ok_knock_recv:
  assumes "sys_ok role s" "KnockWait sid p \<in> set (bs_dials s)" "gp_ch (gpend s p) = Some m"
  shows "sys_ok role (Knock_recv sid p m s)"
proof -
  have e: "entry role (bs_broker s) False sid p" using sys_ok_parts(3) [OF assms(1,2)] by simp
  have "knocked_ok (bs_arrived s) (sid, knock_answer sid m)"
    using queued_message(3) [OF assms(1) e assms(3)] knock_answer_None [of sid m] by (auto simp: knocked_ok_def)
  with assms(1) show ?thesis by (auto simp: sys_ok_def Knock_recv_def dest!: remove1D)
qed

lemma ok_knock_timeout: "sys_ok role s \<Longrightarrow> sys_ok role (Knock_timeout sid p s)"
  by (auto simp: sys_ok_def Knock_timeout_def knocked_ok_def dest!: remove1D)

lemma ok_listener_close: "sys_ok role s \<Longrightarrow> Listener_close sid p s = Ret s' \<Longrightarrow> sys_ok role s'"
  by (auto simp: sys_ok_def Listener_close_def bind_out_def dest!: remove1D split: outcome.splits prod.splits)

lemma ok_listen_recv:
  assumes "sys_ok role s" "ListenWait sid p \<in> set (bs_listens s)" "gp_ch (gpend s p) = Some m"
  shows "sys_ok role (Listen_recv sid p m s)"
proof -
  have e: "entry role (bs_broker s) True sid p" using sys_ok_parts(4) [OF assms(1,2)] by simp
  note q = queued_message [OF assms(1) e assms(3)]
  then have "knock_check sid m = None" by (simp add: knock_check_def)
  with assms(1) e q show ?thesis by (auto simp: sys_ok_def Listen_recv_def dest!: remove1D)
qed

lemma ok_listen_ack:
  assumes "sys_ok role s" "ListenKnocked sid p m \<in> set (bs_listens s)"
  shows "sys_ok role (Listen_ack a e sid p m s)"
  using assms(1) sys_ok_parts(4) [OF assms]
  by (auto simp: sys_ok_def Listen_ack_def listened_ok_def Let_def dest!: remove1D split: option.split)

lemma ok_listen_done: "sys_ok role s \<Longrightarrow> sys_ok role (Listen_done sid p s)"
  by (auto simp: sys_ok_def Listen_done_def listened_ok_def dest!: remove1D)

lemma ok_next: "sys_ok role s \<Longrightarrow> sys_ok role (s\<lparr>bs_broker := snd (NextId_grpc (bs_broker s))\<rparr>)"
  by (simp add: sys_ok_def)

lemmas same_role = exI [where P = "\<lambda>role. sys_ok role x" for x]

lemma ok_step: "broker_step s r \<Longrightarrow> r = Ret s' \<Longrightarrow> sys_ok role s \<Longrightarrow> \<exists>role'. sys_ok role' s'"
  by (induction rule: broker_step.induct)
     (auto intro: ok_run_recv ok_dial_begin ok_knock_lookup ok_accept_mux ok_listen_begin
       same_role ok_run_route ok_wait ok_dial_recv ok_dial_close ok_dial_timeout ok_knock_begin ok_knock_recv
       ok_knock_timeout ok_listener_close ok_listen_recv ok_listen_ack ok_listen_done ok_next)

lemma reach_ok: "broker_reach mux s \<Longrightarrow> \<exists>role. sys_ok role s"
proof (induction rule: broker_reach.induct)
  case (breach_init tls us tr)
  show ?case by (rule exI [of _ "\<lambda>p. (False, 0)"])
      (simp add: sys_ok_def broker_init_def newGRPCBroker_def store_ok_def)
next
  case (breach_step s s')
  then show ?case using ok_step by blast
qed

section \<open>Reaping\<close>

text \<open>
  Every entry in the table of clients has an owner that will delete it: a \<open>timeoutWait\<close>, or a waiting dial
  or knock, or \<open>Run\<close>, which is about to start one; and a queued message has its \<open>timeoutWait\<close>.
\<close>

definition owned :: "broker_sys \<Rightarrow> stream_id \<Rightarrow> nat \<Rightarrow> bool" where
  "owned s sid p \<longleftrightarrow>
     (sid, p) \<in> set (bs_waiters s) \<or> DialWait sid p \<in> set (bs_dials s) \<or> KnockWait sid p \<in> set (bs_dials s)
     \<or> (\<exists>m. bs_run s = Some (m, p) \<and> ci_ServiceId m = sid)"

definition reaped_inv :: "broker_sys \<Rightarrow> bool" where
  "reaped_inv s \<longleftrightarrow>
     (\<forall>sid p. gb_clientStreams (bs_broker s) sid = Some p \<longrightarrow>
        owned s sid p \<and> (gp_ch (gpend s p) \<noteq> None \<longrightarrow> (sid, p) \<in> set (bs_waiters s)))"

lemma client_entry: "sys_ok role s \<Longrightarrow> gb_clientStreams (bs_broker s) sid = Some p \<Longrightarrow> entry role (bs_broker s) False sid p"
  by (auto simp: sys_ok_def store_ok_def)

lemma client_entry_fun: "sys_ok role s \<Longrightarrow> gb_clientStreams (bs_broker s) sid = Some p \<Longrightarrow> entry role (bs_broker s) srv sid' p \<Longrightarrow> \<not> srv \<and> sid' = sid"
  using client_entry [of role s sid p] by (auto simp: entry_def)

lemma get_server_frame:
  assumes "getServerStream sid b = (p, b')"
  shows "gb_clientStreams b' = gb_clientStreams b" "q < length (gb_pendings b) \<Longrightarrow> gb_pendings b' ! q = gb_pendings b ! q"
  using assms by (auto simp: getServerStream_def Let_def nth_append split: option.splits)

lemma get_client_frame:
  assumes "getClientStream sid b = (p, b')"
  shows "q < length (gb_pendings b) \<Longrightarrow> gb_pendings b' ! q = gb_pendings b ! q"
    and "gb_clientStreams b' sid' = Some q \<Longrightarrow> gb_clientStreams b sid' = Some q \<or> sid' = sid \<and> q = p \<and> gp_ch (gb_pendings b' ! q) = None"
  using assms by (auto simp: getClientStream_def Let_def nth_append new_pending_def split: option.splits if_splits)

text \<open>The client table with its channels, as seen by the invariant, after a look-up.\<close>

lemma reaped_lookup:
  assumes "sys_ok role s" "reaped_inv s" "getClientStream sid (bs_broker s) = (p, b) \<or> getServerStream sid (bs_broker s) = (p, b)"
    and "gb_clientStreams b sid' = Some q"
  shows "gb_clientStreams (bs_broker s) sid' = Some q \<and> gp_ch (gb_pendings b ! q) = gp_ch (gpend s q)
    \<or> sid' = sid \<and> q = p \<and> gp_ch (gb_pendings b ! q) = None"
proof -
  have lt: "gb_clientStreams (bs_broker s) sid' = Some q \<Longrightarrow> q < length (gb_pendings (bs_broker s))"
    using client_entry [OF assms(1)] by (auto simp: entry_def)
  from assms(3) show ?thesis
  proof
    assume g: "getClientStream sid (bs_broker s) = (p, b)"
    from get_client_frame(2) [OF g assms(4)] lt get_client_frame(1) [OF g, of q] show ?thesis by auto
  next
    assume g: "getServerStream sid (bs_broker s) = (p, b)"
    from get_server_frame(1) [OF g] assms(4) lt get_server_frame(2) [OF g, of q] show ?thesis by auto
  qed
qed

lemma reaped_run_recv:
  assumes "sys_ok role s" "reaped_inv s" "bs_run s = None"
  shows "reaped_inv (Run_recv m s)"
proof -
  obtain p b where g: "(if is_server_knock m then getServerStream (ci_ServiceId m) (bs_broker s)
      else getClientStream (ci_ServiceId m) (bs_broker s)) = (p, b)" by fastforce
  then have "getClientStream (ci_ServiceId m) (bs_broker s) = (p, b) \<or> getServerStream (ci_ServiceId m) (bs_broker s) = (p, b)"
    by (auto split: if_splits)
  note l = reaped_lookup [OF assms(1,2) this]
  have "Run_recv m s = s\<lparr>bs_broker := b, bs_arrived := bs_arrived s @ [m], bs_run := Some (m, p)\<rparr>"
    using g by (simp add: Run_recv_def)
  then show ?thesis using assms(2,3) l by (fastforce simp: reaped_inv_def owned_def)
qed

lemma reaped_run_route:
  assumes "sys_ok role s" "reaped_inv s" "bs_run s = Some (m, p)"
  shows "reaped_inv (Run_route m p s)"
proof -
  have e: "entry role (bs_broker s) (is_server_knock m) (ci_ServiceId m) p"
    using sys_ok_parts(2) [OF assms(1)] assms(3) by (simp add: run_ok_def)
  show ?thesis
    unfolding reaped_inv_def
  proof (intro allI impI)
    fix sid q
    assume t: "gb_clientStreams (bs_broker (Run_route m p s)) sid = Some q"
    then have tab: "gb_clientStreams (bs_broker s) sid = Some q" by (auto simp: Run_route_def split: if_splits)
    with assms(2) have o: "owned s sid q" "gp_ch (gpend s q) \<noteq> None \<Longrightarrow> (sid, q) \<in> set (bs_waiters s)"
      unfolding reaped_inv_def by blast+
    have eq: "\<not> is_server_knock m \<and> ci_ServiceId m = sid" if "p = q"
      using client_entry_fun [OF assms(1) tab] e that by blast
    have ql: "q < length (gb_pendings (bs_broker s))" using client_entry [OF assms(1) tab] by (simp add: entry_def)
    show "owned (Run_route m p s) sid q \<and> (gp_ch (gpend (Run_route m p s) q) \<noteq> None \<longrightarrow> (sid, q) \<in> set (bs_waiters (Run_route m p s)))"
      using o eq ql assms(3) by (auto simp: Run_route_def owned_def ch_put)
  qed
qed

lemma reaped_delete:
  assumes "reaped_inv s" "bs_broker s' = delete_client sid (bs_broker s)" "bs_run s' = bs_run s"
    and "\<And>sid' q. sid' \<noteq> sid \<Longrightarrow> (sid', q) \<in> set (bs_waiters s) \<Longrightarrow> (sid', q) \<in> set (bs_waiters s')"
    and "\<And>sid' q. sid' \<noteq> sid \<Longrightarrow> DialWait sid' q \<in> set (bs_dials s) \<Longrightarrow> DialWait sid' q \<in> set (bs_dials s')"
    and "\<And>sid' q. sid' \<noteq> sid \<Longrightarrow> KnockWait sid' q \<in> set (bs_dials s) \<Longrightarrow> KnockWait sid' q \<in> set (bs_dials s')"
  shows "reaped_inv s'"
  unfolding reaped_inv_def
proof (intro allI impI)
  fix sid' q
  assume "gb_clientStreams (bs_broker s') sid' = Some q"
  then have n: "sid' \<noteq> sid" "gb_clientStreams (bs_broker s) sid' = Some q" "gpend s' q = gpend s q"
    by (auto simp: assms(2) delete_client_def split: if_splits)
  with assms(1) have o: "owned s sid' q" "gp_ch (gpend s q) \<noteq> None \<Longrightarrow> (sid', q) \<in> set (bs_waiters s)"
    unfolding reaped_inv_def by blast+
  then show "owned s' sid' q \<and> (gp_ch (gpend s' q) \<noteq> None \<longrightarrow> (sid', q) \<in> set (bs_waiters s'))"
    using n assms(3-6) unfolding owned_def by auto
qed

lemma reaped_take:
  assumes "sys_ok role s" "reaped_inv s" "entry role (bs_broker s) srv sid p" "gp_ch (gpend s p) \<noteq> None"
    and "bs_broker s' = put_ch p None (bs_broker s)" "bs_run s' = bs_run s" "bs_waiters s' = bs_waiters s"
    and "\<And>sid' q. q \<noteq> p \<Longrightarrow> DialWait sid' q \<in> set (bs_dials s) \<Longrightarrow> DialWait sid' q \<in> set (bs_dials s')"
    and "\<And>sid' q. q \<noteq> p \<Longrightarrow> KnockWait sid' q \<in> set (bs_dials s) \<Longrightarrow> KnockWait sid' q \<in> set (bs_dials s')"
  shows "reaped_inv s'"
  unfolding reaped_inv_def
proof (intro allI impI)
  fix sid' q
  assume "gb_clientStreams (bs_broker s') sid' = Some q"
  then have t: "gb_clientStreams (bs_broker s) sid' = Some q" by (simp add: assms(5))
  with assms(2) have o: "owned s sid' q" "gp_ch (gpend s q) \<noteq> None \<Longrightarrow> (sid', q) \<in> set (bs_waiters s)"
    unfolding reaped_inv_def by blast+
  then show "owned s' sid' q \<and> (gp_ch (gpend s' q) \<noteq> None \<longrightarrow> (sid', q) \<in> set (bs_waiters s'))"
    using assms(4-9) by (cases "q = p") (auto simp: owned_def ch_put split: if_splits)
qed

lemma owned_mono:
  assumes "owned s sid q" "bs_run s' = bs_run s" "bs_waiters s' = bs_waiters s"
    and "\<And>sid q. DialWait sid q \<in> set (bs_dials s) \<Longrightarrow> DialWait sid q \<in> set (bs_dials s')"
    and "\<And>sid q. KnockWait sid q \<in> set (bs_dials s) \<Longrightarrow> KnockWait sid q \<in> set (bs_dials s')"
  shows "owned s' sid q"
  using assms(1) assms(4,5) [of sid q] unfolding owned_def assms(2,3) by blast

text \<open>Steps that touch neither the table nor the channels nor the owners.\<close>

lemma reaped_same:
  assumes "reaped_inv s" "gb_clientStreams (bs_broker s') = gb_clientStreams (bs_broker s)"
    and "\<And>q. gp_ch (gpend s' q) = gp_ch (gpend s q)" "bs_run s' = bs_run s" "bs_waiters s' = bs_waiters s"
    and "\<And>sid q. DialWait sid q \<in> set (bs_dials s) \<Longrightarrow> DialWait sid q \<in> set (bs_dials s')"
    and "\<And>sid q. KnockWait sid q \<in> set (bs_dials s) \<Longrightarrow> KnockWait sid q \<in> set (bs_dials s')"
  shows "reaped_inv s'"
  using assms(1-3,5) owned_mono [OF _ assms(4-7)] unfolding reaped_inv_def by simp

lemma reaped_get:
  assumes "sys_ok role s" "reaped_inv s"
    and "getClientStream sid (bs_broker s) = (p, b) \<and> (DialWait sid p \<in> set (bs_dials s') \<or> KnockWait sid p \<in> set (bs_dials s'))
      \<or> getServerStream sid (bs_broker s) = (p, b)"
    and "bs_broker s' = b" "bs_run s' = bs_run s" "bs_waiters s' = bs_waiters s"
    and "\<And>sid q. DialWait sid q \<in> set (bs_dials s) \<Longrightarrow> DialWait sid q \<in> set (bs_dials s')"
    and "\<And>sid q. KnockWait sid q \<in> set (bs_dials s) \<Longrightarrow> KnockWait sid q \<in> set (bs_dials s')"
  shows "reaped_inv s'"
  unfolding reaped_inv_def
proof (intro allI impI)
  fix sid' q
  assume t: "gb_clientStreams (bs_broker s') sid' = Some q"
  have old: "owned s' sid' q \<and> (gp_ch (gpend s' q) \<noteq> None \<longrightarrow> (sid', q) \<in> set (bs_waiters s'))"
    if "gb_clientStreams (bs_broker s) sid' = Some q" "gp_ch (gpend s' q) = gp_ch (gpend s q)"
    using assms(2,6) that owned_mono [OF _ assms(5-8)] unfolding reaped_inv_def by simp
  from assms(3) show "owned s' sid' q \<and> (gp_ch (gpend s' q) \<noteq> None \<longrightarrow> (sid', q) \<in> set (bs_waiters s'))"
  proof (elim disjE conjE)
    assume g: "getServerStream sid (bs_broker s) = (p, b)"
    have "gb_clientStreams (bs_broker s) sid' = Some q" using t get_server_frame(1) [OF g] assms(4) by simp
    moreover have "q < length (gb_pendings (bs_broker s))" using client_entry [OF assms(1)] calculation by (auto simp: entry_def)
    ultimately show ?thesis using old get_server_frame(2) [OF g] assms(4) by simp
  qed (use reaped_lookup [OF assms(1,2), of sid p b sid' q] t old assms(4) in \<open>auto simp: owned_def\<close>)
qed

lemma reaped_wait: "reaped_inv s \<Longrightarrow> reaped_inv (timeoutWait_grpc sid p s)"
  by (rule reaped_delete [of s _ sid]) (simp_all add: timeoutWait_grpc_def)

lemma reaped_dial_timeout: "reaped_inv s \<Longrightarrow> reaped_inv (Dial_timeout sid p s)"
  by (rule reaped_delete [of s _ sid]) (simp_all add: Dial_timeout_def)

lemma reaped_knock_timeout: "reaped_inv s \<Longrightarrow> reaped_inv (Knock_timeout sid p s)"
  by (rule reaped_delete [of s _ sid]) (simp_all add: Knock_timeout_def)

lemma reaped_dial_begin: "sys_ok role s \<Longrightarrow> reaped_inv s \<Longrightarrow> reaped_inv (Dial_begin sid s)"
  by (rule reaped_get [of role s sid "fst (getClientStream sid (bs_broker s))" "snd (getClientStream sid (bs_broker s))"])
     (simp_all add: Dial_begin_def case_prod_beta)

lemma reaped_knock_lookup: "sys_ok role s \<Longrightarrow> reaped_inv s \<Longrightarrow> reaped_inv (Knock_lookup sid s)"
  by (rule reaped_get [of role s sid "fst (getClientStream sid (bs_broker s))" "snd (getClientStream sid (bs_broker s))"])
     (simp_all add: Knock_lookup_def case_prod_beta)

lemma reaped_accept_mux: "sys_ok role s \<Longrightarrow> reaped_inv s \<Longrightarrow> reaped_inv (Accept_mux e sid s)"
  by (rule reaped_get [of role s sid "fst (getServerStream sid (bs_broker s))" "snd (getServerStream sid (bs_broker s))"])
     (simp_all add: Accept_mux_def Let_def case_prod_beta)

lemma reaped_listen_begin: "sys_ok role s \<Longrightarrow> reaped_inv s \<Longrightarrow> reaped_inv (Listen_begin sid s)"
  by (rule reaped_get [of role s sid "fst (getServerStream sid (bs_broker s))" "snd (getServerStream sid (bs_broker s))"])
     (simp_all add: Listen_begin_def case_prod_beta)

lemma reaped_dial_recv:
  assumes "sys_ok role s" "reaped_inv s" "DialWait sid p \<in> set (bs_dials s)" "gp_ch (gpend s p) = Some m"
  shows "reaped_inv (Dial_recv sid p m s)"
  using sys_ok_parts(3) [OF assms(1,3)] assms(4)
  by (intro reaped_take [OF assms(1,2), of False sid p]) (simp_all add: Dial_recv_def)

lemma reaped_knock_recv:
  assumes "sys_ok role s" "reaped_inv s" "KnockWait sid p \<in> set (bs_dials s)" "gp_ch (gpend s p) = Some m"
  shows "reaped_inv (Knock_recv sid p m s)"
  using sys_ok_parts(3) [OF assms(1,3)] assms(4)
  by (intro reaped_take [OF assms(1,2), of False sid p]) (simp_all add: Knock_recv_def)

lemma reaped_listen_recv:
  assumes "sys_ok role s" "reaped_inv s" "ListenWait sid p \<in> set (bs_listens s)" "gp_ch (gpend s p) = Some m"
  shows "reaped_inv (Listen_recv sid p m s)"
  using sys_ok_parts(4) [OF assms(1,3)] assms(4)
  by (intro reaped_take [OF assms(1,2), of True sid p]) (simp_all add: Listen_recv_def Let_def split: option.split)

lemma reaped_dial_close: "reaped_inv s \<Longrightarrow> Dial_close sid p m s = Ret s' \<Longrightarrow> reaped_inv s'"
  by (rule reaped_same [of s]) (auto simp: Dial_close_def close_chan_def ch_put_done split: if_splits)

lemma reaped_listener_close: "reaped_inv s \<Longrightarrow> Listener_close sid p s = Ret s' \<Longrightarrow> reaped_inv s'"
  by (rule reaped_same [of s])
     (auto simp: Listener_close_def delete_server_def ch_put_done bind_out_def split: outcome.splits prod.splits)

lemma reaped_knock_begin: "reaped_inv s \<Longrightarrow> reaped_inv (Knock_begin e sid s)"
  by (rule reaped_same [of s]) (simp_all add: Knock_begin_def split: option.split)

lemma reaped_listen_ack: "reaped_inv s \<Longrightarrow> reaped_inv (Listen_ack a e sid p m s)"
  by (rule reaped_same [of s]) (simp_all add: Listen_ack_def Let_def split: option.split)

lemma reaped_listen_done: "reaped_inv s \<Longrightarrow> reaped_inv (Listen_done sid p s)"
  by (rule reaped_same [of s]) (simp_all add: Listen_done_def)

lemma reaped_next: "reaped_inv s \<Longrightarrow> reaped_inv (s\<lparr>bs_broker := snd (NextId_grpc (bs_broker s))\<rparr>)"
  by (rule reaped_same [of s]) (simp_all add: NextId_grpc_def Let_def)

lemma reaped_step: "broker_step s r \<Longrightarrow> r = Ret s' \<Longrightarrow> sys_ok role s \<Longrightarrow> reaped_inv s \<Longrightarrow> reaped_inv s'"
  by (induction rule: broker_step.induct)
     (auto intro: reaped_run_recv reaped_run_route reaped_wait reaped_dial_begin reaped_dial_recv reaped_dial_close
       reaped_dial_timeout reaped_knock_begin reaped_knock_lookup reaped_knock_recv reaped_knock_timeout reaped_accept_mux
       reaped_listener_close reaped_listen_begin reaped_listen_recv reaped_listen_ack reaped_listen_done reaped_next)

lemma reach_reaped: "broker_reach mux s \<Longrightarrow> reaped_inv s"
proof (induction rule: broker_reach.induct)
  case (breach_init tls us tr)
  show ?case by (simp add: reaped_inv_def broker_init_def newGRPCBroker_def)
next
  case (breach_step s s')
  then show ?case using reaped_step reach_ok by blast
qed

end
