(* ===== verification/GRPCBrokerTheorems.thy ===== *)
theory GRPCBrokerTheorems
  imports GRPCBrokerSafety
begin

text \<open>
  What the gRPC broker guarantees, and where it fails: routing of messages, reaping of pending entries,
  idempotent \<open>Close\<close>, the meeting of \<open>Accept\<close> and \<open>Dial\<close>, and four defects shown by concrete runs.
\<close>

section \<open>Routing\<close>

text \<open>
  C6: Routing of the gRPC broker, in every interleaving with an arbitrary peer. A dial of an identifier
  returns only an announcement for that identifier that the peer sent, or times out; a knock succeeds only
  when the peer acknowledged that identifier without an error; and the two errors of \<open>listenForKnocks\<close>
  that its comments call impossible never occur: it ends without error or because an acknowledgement could
  not be sent.
\<close>
theorem grpc_routing:
  assumes "broker_reach mux s"
  shows "(\<forall>sid m. (sid, Inr m) \<in> set (bs_dialled s) \<longrightarrow> ci_ServiceId m = sid \<and> \<not> is_server_knock m \<and> m \<in> set (bs_arrived s))
    \<and> (\<forall>sid e. (sid, Inl e) \<in> set (bs_dialled s) \<longrightarrow> e = dial_timeout_err sid)
    \<and> (\<forall>sid. (sid, None) \<in> set (bs_knocked s) \<longrightarrow>
         (\<exists>m \<in> set (bs_arrived s). ci_ServiceId m = sid \<and> is_ack m \<and> (\<exists>k. ci_Knock m = Some k \<and> ki_Error k = [])))
    \<and> (\<forall>sid err. (sid, Some err) \<in> set (bs_listened s) \<longrightarrow>
         (\<exists>e. err = Errorf ''error sending back knock acknowledgement: %w'' [FErr e]))"
proof -
  obtain role where ok: "sys_ok role s" using reach_ok [OF assms] by blast
  have d: "r \<in> set (bs_dialled s) \<Longrightarrow> dialled_ok (bs_arrived s) r" for r using ok by (simp add: sys_ok_def)
  have k: "r \<in> set (bs_knocked s) \<Longrightarrow> knocked_ok (bs_arrived s) r" for r using ok by (simp add: sys_ok_def)
  have l: "r \<in> set (bs_listened s) \<Longrightarrow> listened_ok r" for r using ok by (simp add: sys_ok_def)
  show ?thesis
  proof (intro conjI allI impI)
    fix sid m assume "(sid, Inr m) \<in> set (bs_dialled s)"
    from d [OF this] show "ci_ServiceId m = sid" "\<not> is_server_knock m" "m \<in> set (bs_arrived s)" by (auto simp: dialled_ok_def)
  next
    fix sid e assume "(sid, Inl e) \<in> set (bs_dialled s)"
    from d [OF this] show "e = dial_timeout_err sid" by (simp add: dialled_ok_def)
  next
    fix sid assume "(sid, None) \<in> set (bs_knocked s)"
    from k [OF this] show "\<exists>m \<in> set (bs_arrived s). ci_ServiceId m = sid \<and> is_ack m \<and> (\<exists>k. ci_Knock m = Some k \<and> ki_Error k = [])"
      by (simp add: knocked_ok_def)
  next
    fix sid err assume "(sid, Some err) \<in> set (bs_listened s)"
    from l [OF this] show "\<exists>e. err = Errorf ''error sending back knock acknowledgement: %w'' [FErr e]"
      by (simp add: listened_ok_def)
  qed
qed

text \<open>
  C11: The table of the dialling side does not leak: in every interleaving, each of its entries is owned by a
  waiting dial or knock, by a \<open>timeoutWait\<close>, or by \<open>Run\<close>. When these have all finished, the table is empty.
\<close>
theorem grpc_no_leak:
  assumes "broker_reach mux s"
  shows "(gb_clientStreams (bs_broker s) sid = Some p \<longrightarrow> owned s sid p)
    \<and> (bs_waiters s = [] \<and> bs_dials s = [] \<and> bs_run s = None \<longrightarrow> gb_clientStreams (bs_broker s) = Map.empty)"
proof -
  have o: "owned s sid p" if "gb_clientStreams (bs_broker s) sid = Some p" for sid p
    using reach_reaped [OF assms] that unfolding reaped_inv_def by blast
  then have "gb_clientStreams (bs_broker s) sid = None" if "bs_waiters s = [] \<and> bs_dials s = [] \<and> bs_run s = None" for sid
    using that by (cases "gb_clientStreams (bs_broker s) sid") (auto simp: owned_def)
  with o show ?thesis by auto
qed

section \<open>Accept and Dial\<close>

text \<open>
  \<open>Accept\<close> and \<open>Dial\<close> meet: between a host and a plugin with the default runner, in either direction,
  what \<open>Accept\<close> announces lets the peer's \<open>Dial\<close> resolve exactly the address of the listener that \<open>Accept\<close>
  returns.
\<close>
theorem accept_dial_meet:
  assumes "GRPCBroker_Accept listen send b sid s = (Inr l, Some msg, s')"
    and "gb_addrTranslator b \<in> {None, Some (cmd_PluginToHost, cmd_HostToPlugin)}"
    and "tr \<in> {None, Some (cmd_PluginToHost, cmd_HostToPlugin)}"
  shows "ci_ServiceId msg = sid \<and> \<not> is_server_knock msg
    \<and> dial_address W tr msg = resolve_addr W (addr_Network (listen_addr l)) (addr_String (listen_addr l))"
  using assms
  by (auto simp: GRPCBroker_Accept_def advertise_def dial_address_def resolve_addr_def is_server_knock_def
      cmd_PluginToHost_def cmd_HostToPlugin_def Let_def split: prod.splits sum.splits option.splits)

text \<open>
  When the announcement cannot be sent, \<open>Accept\<close> returns the error but leaves its new listener open: the
  state of the file system is the one that creating the listener produced.
\<close>
theorem accept_leaks_listener:
  assumes "listen s = (Inr l, s')" "gb_addrTranslator b = None" "\<And>msg. send msg = Some err"
  shows "GRPCBroker_Accept listen send b sid s = (Inl err, None, s')"
  using assms by (simp add: GRPCBroker_Accept_def advertise_def Let_def)

section \<open>Close\<close>

text \<open>
  \<open>GRPCBroker.Close\<close> may be called any number of times: no call panics, and after the first one the
  channel that ends \<open>AcceptAndServe\<close> is closed and nothing changes any more.
\<close>
theorem grpc_close_many:
  "\<exists>b'. (\<forall>n. iterate_out (Suc n) GRPCBroker_Close (newGRPCBroker tls us tr mux) = Ret b') \<and> gb_doneCh b'"
  using grpc_broker_close.close_many [of "newGRPCBroker tls us tr mux"]
  by (auto simp: broker_inv_def newGRPCBroker_def)

section \<open>A knock whose acknowledgement is lost\<close>

abbreviation broker_steps :: "broker_sys \<Rightarrow> broker_sys \<Rightarrow> bool" where
  "broker_steps \<equiv> (\<lambda>s s'. broker_step s (Ret s'))\<^sup>*\<^sup>*"

text \<open>An entry that no table and no goroutine can route a message to.\<close>

definition orphan :: "broker_sys \<Rightarrow> nat \<Rightarrow> bool" where
  "orphan s p \<longleftrightarrow>
     p < length (gb_pendings (bs_broker s)) \<and> (\<forall>sid. gb_clientStreams (bs_broker s) sid \<noteq> Some p)
     \<and> (\<forall>sid. gb_serverStreams (bs_broker s) sid \<noteq> Some p) \<and> (\<forall>m. bs_run s \<noteq> Some (m, p))
     \<and> gp_ch (gpend s p) = None"

lemma orphan_get_client:
  assumes "orphan s p" "getClientStream sid (bs_broker s) = (q, b)"
  shows "orphan (s\<lparr>bs_broker := b\<rparr>) p \<and> q \<noteq> p"
  using assms by (auto simp: orphan_def getClientStream_def Let_def nth_append split: option.splits if_splits)

lemma orphan_get_server:
  assumes "orphan s p" "getServerStream sid (bs_broker s) = (q, b)"
  shows "orphan (s\<lparr>bs_broker := b\<rparr>) p \<and> q \<noteq> p"
  using assms by (auto simp: orphan_def getServerStream_def Let_def nth_append split: option.splits if_splits)

lemma orphan_step: "broker_step s r \<Longrightarrow> r = Ret s' \<Longrightarrow> orphan s p \<Longrightarrow> orphan s' p"
proof (induction rule: broker_step.induct)
  case (run_recv s msg)
  obtain q b where g: "(if is_server_knock msg then getServerStream (ci_ServiceId msg) (bs_broker s)
      else getClientStream (ci_ServiceId msg) (bs_broker s)) = (q, b)" by fastforce
  then have "orphan (s\<lparr>bs_broker := b\<rparr>) p \<and> q \<noteq> p"
    using orphan_get_client [OF run_recv(3)] orphan_get_server [OF run_recv(3)] by (auto split: if_splits)
  then show ?case using run_recv g by (auto simp: Run_recv_def orphan_def)
next
  case (dial_begin s sid)
  then show ?case using orphan_get_client [of s p sid] by (auto simp: Dial_begin_def orphan_def split: prod.splits)
next
  case (knock_lookup sid s)
  then show ?case using orphan_get_client [of s p sid] by (auto simp: Knock_lookup_def orphan_def split: prod.splits)
next
  case (accept_mux s e sid)
  then show ?case using orphan_get_server [of s p sid] by (auto simp: Accept_mux_def orphan_def Let_def split: prod.splits if_splits)
next
  case (listen_begin sid s)
  then show ?case using orphan_get_server [of s p sid] by (auto simp: Listen_begin_def orphan_def split: prod.splits)
qed (auto simp: orphan_def Run_route_def timeoutWait_grpc_def Dial_recv_def Dial_close_def Dial_timeout_def Knock_begin_def
    Knock_recv_def Knock_timeout_def Listener_close_def Listen_recv_def Listen_ack_def Listen_done_def NextId_grpc_def
    delete_client_def delete_server_def ch_put ch_put_done bind_out_def Let_def
    split: if_splits outcome.splits prod.splits option.splits)

lemma orphan_steps: "broker_steps s s' \<Longrightarrow> orphan s p \<Longrightarrow> orphan s' p"
  by (induction rule: rtranclp_induct) (auto intro: orphan_step)

definition mux_start :: broker_sys where
  "mux_start = broker_init (newGRPCBroker None empty_unix_cfg None True)"

definition plain_start :: broker_sys where
  "plain_start = broker_init (newGRPCBroker None empty_unix_cfg None False)"

lemmas broker_eval = mux_start_def plain_start_def broker_init_def newGRPCBroker_def Run_recv_def Run_route_def
  timeoutWait_grpc_def Dial_begin_def Dial_recv_def Dial_close_def Knock_begin_def Knock_lookup_def Knock_recv_def
  Accept_mux_def Listen_begin_def Listener_close_def grpc_store_defs ack_msg_def knock_msg_def is_server_knock_def
  knock_answer_def is_ack_def knocking_def close_chan_def once_Do_def bind_out_def Let_def

text \<open>A knock on identifier 1 that is acknowledged; the \<open>timeoutWait\<close> of the acknowledgement is still waiting.\<close>

definition knocked_once :: broker_sys where
  "knocked_once =
     Knock_recv 1 0 (ack_msg 1 []) (Run_route (ack_msg 1 []) 0 (Run_recv (ack_msg 1 []) (Knock_lookup 1 (Knock_begin None 1 mux_start))))"

lemma reach_knocked_once: "broker_reach True knocked_once"
proof -
  let ?s1 = "Knock_begin None 1 mux_start" let ?s2 = "Knock_lookup 1 ?s1" let ?s3 = "Run_recv (ack_msg 1 []) ?s2"
  let ?s4 = "Run_route (ack_msg 1 []) 0 ?s3"
  have 0: "broker_reach True mux_start" unfolding mux_start_def by (rule breach_init)
  have 1: "broker_reach True ?s1" by (rule breach_step [OF 0 knock_begin]) (simp_all add: broker_eval)
  have 2: "broker_reach True ?s2" by (rule breach_step [OF 1 knock_lookup]) (simp add: broker_eval)
  have 3: "broker_reach True ?s3" by (rule breach_step [OF 2 run_recv]) (simp add: broker_eval)
  have 4: "broker_reach True ?s4" by (rule breach_step [OF 3 run_route]) (simp add: broker_eval)
  show ?thesis unfolding knocked_once_def by (rule breach_step [OF 4 knock_recv]) (simp_all add: broker_eval)
qed

text \<open>
  The second knock on it: it finds the entry of the first one, which that \<open>timeoutWait\<close> then deletes, and the
  second acknowledgement is queued in a new entry.
\<close>

definition knocked_twice :: broker_sys where
  "knocked_twice =
     Run_route (ack_msg 1 []) 1 (Run_recv (ack_msg 1 []) (timeoutWait_grpc 1 0 (Knock_lookup 1 (Knock_begin None 1 knocked_once))))"

lemma reach_knocked_twice: "broker_reach True knocked_twice"
proof -
  let ?s1 = "Knock_begin None 1 knocked_once" let ?s2 = "Knock_lookup 1 ?s1" let ?s3 = "timeoutWait_grpc 1 0 ?s2"
  let ?s4 = "Run_recv (ack_msg 1 []) ?s3"
  have 1: "broker_reach True ?s1" by (rule breach_step [OF reach_knocked_once knock_begin]) (simp_all add: knocked_once_def broker_eval)
  have 2: "broker_reach True ?s2" by (rule breach_step [OF 1 knock_lookup]) (simp add: knocked_once_def broker_eval)
  have 3: "broker_reach True ?s3" by (rule breach_step [OF 2 wait_end]) (simp add: knocked_once_def broker_eval)
  have 4: "broker_reach True ?s4" by (rule breach_step [OF 3 run_recv]) (simp add: knocked_once_def broker_eval)
  show ?thesis unfolding knocked_twice_def
    by (rule breach_step [OF 4 run_route]) (simp add: knocked_once_def broker_eval)
qed

text \<open>
  A second knock on an identifier can time out although the peer acknowledged it in time. There is a run
  in which two knocks on identifier 1 were sent and two acknowledgements without error arrived, while the
  second knock waits on an entry that, whatever happens later, never holds a message again, so that only its
  timeout can end it.
\<close>
theorem knock_ack_lost:
  "\<exists>s. broker_reach True s \<and> bs_sent s = [knock_msg 1, knock_msg 1] \<and> bs_arrived s = [ack_msg 1 [], ack_msg 1 []]
     \<and> KnockWait 1 0 \<in> set (bs_dials s) \<and> \<not> (\<exists>s'. broker_steps s s' \<and> gp_ch (gpend s' 0) \<noteq> None)"
proof -
  have "orphan knocked_twice 0" by (simp add: orphan_def knocked_twice_def knocked_once_def broker_eval)
  then have n: "gp_ch (gpend s' 0) = None" if "broker_steps knocked_twice s'" for s'
    using orphan_steps [OF that] by (simp add: orphan_def)
  have "bs_sent knocked_twice = [knock_msg 1, knock_msg 1]" "bs_arrived knocked_twice = [ack_msg 1 [], ack_msg 1 []]"
    "KnockWait 1 0 \<in> set (bs_dials knocked_twice)"
    by (simp_all add: knocked_twice_def knocked_once_def broker_eval)
  with reach_knocked_twice n show ?thesis by (intro exI [of _ knocked_twice]) simp
qed

section \<open>Two dials of one identifier\<close>

definition announcement :: conn_info where
  "announcement = \<lparr>ci_ServiceId = 1, ci_Network = ''unix'', ci_Address = ''/a'', ci_Knock = None\<rparr>"

definition dialled_once :: broker_sys where
  "dialled_once =
     (let s = Dial_recv 1 0 announcement (Run_route announcement 0 (Run_recv announcement (Dial_begin 1 (Dial_begin 1 plain_start))))
      in Dial_recv 1 0 announcement (Run_route announcement 0 (Run_recv announcement s)))"

lemmas dial_eval = broker_eval announcement_def

lemma reach_dialled_once: "broker_reach False dialled_once"
proof -
  let ?s1 = "Dial_begin 1 plain_start" let ?s2 = "Dial_begin 1 ?s1" let ?s3 = "Run_recv announcement ?s2"
  let ?s4 = "Run_route announcement 0 ?s3" let ?s5 = "Dial_recv 1 0 announcement ?s4"
  let ?s6 = "Run_recv announcement ?s5" let ?s7 = "Run_route announcement 0 ?s6"
  have 0: "broker_reach False plain_start" unfolding plain_start_def by (rule breach_init)
  have 1: "broker_reach False ?s1" by (rule breach_step [OF 0 dial_begin]) (simp add: dial_eval)
  have 2: "broker_reach False ?s2" by (rule breach_step [OF 1 dial_begin]) (simp add: dial_eval)
  have 3: "broker_reach False ?s3" by (rule breach_step [OF 2 run_recv]) (simp add: dial_eval)
  have 4: "broker_reach False ?s4" by (rule breach_step [OF 3 run_route]) (simp add: dial_eval)
  have 5: "broker_reach False ?s5" by (rule breach_step [OF 4 dial_recv]) (simp_all add: dial_eval)
  have 6: "broker_reach False ?s6" by (rule breach_step [OF 5 run_recv]) (simp add: dial_eval)
  have 7: "broker_reach False ?s7" by (rule breach_step [OF 6 run_route]) (simp add: dial_eval)
  show ?thesis unfolding dialled_once_def Let_def by (rule breach_step [OF 7 dial_recv]) (simp_all add: dial_eval)
qed

text \<open>
  Two dials of one identifier, answered by two announcements, can crash the process: both take their
  announcement from one entry, and each closes its \<open>doneCh\<close>.
\<close>
theorem grpc_double_dial_panics: "\<exists>s. broker_reach False s \<and> broker_step s (Panic ''close of closed channel'')"
proof -
  have d: "DialTaken 1 0 announcement \<in> set (bs_dials dialled_once)" by (simp add: dialled_once_def dial_eval)
  obtain s where s: "Dial_close 1 0 announcement dialled_once = Ret s" "DialTaken 1 0 announcement \<in> set (bs_dials s)"
    "Dial_close 1 0 announcement s = Panic ''close of closed channel''"
    by (simp add: dialled_once_def dial_eval)
  have "broker_step dialled_once (Ret s)" using dial_close [OF d] s(1) by simp
  then have "broker_reach False s" using breach_step [OF reach_dialled_once] by blast
  moreover have "broker_step s (Panic ''close of closed channel'')" using dial_close [OF s(2)] s(3) by simp
  ultimately show ?thesis by blast
qed

section \<open>A listener closed too early\<close>

text \<open>
  Closing a multiplexed listener right after \<open>Accept\<close> can leave its knock goroutine behind for ever: the
  goroutine looks up its entry only after the listener removed it, gets a new one that no listener knows, and
  waits on it; it would still acknowledge knocks for a listener that is gone.
\<close>
theorem listen_goroutine_leaks:
  "\<exists>s. broker_reach True s \<and> bs_listeners s = [] \<and> ListenWait 1 1 \<in> set (bs_listens s)
     \<and> \<not> gp_doneCh (gpend s 1) \<and> gb_serverStreams (bs_broker s) 1 = Some 1"
proof -
  let ?s1 = "Accept_mux None 1 mux_start"
  have 0: "broker_reach True mux_start" unfolding mux_start_def by (rule breach_init)
  have 1: "broker_reach True ?s1" by (rule breach_step [OF 0 accept_mux]) (simp add: broker_eval)
  have l: "(1, 0) \<in> set (bs_listeners ?s1)" by (simp add: broker_eval)
  obtain s2 where s2: "Listener_close 1 0 ?s1 = Ret s2" "ListenStart 1 \<in> set (bs_listens s2)"
    "bs_listeners (Listen_begin 1 s2) = []" "ListenWait 1 1 \<in> set (bs_listens (Listen_begin 1 s2))"
    "\<not> gp_doneCh (gpend (Listen_begin 1 s2) 1)" "gb_serverStreams (bs_broker (Listen_begin 1 s2)) 1 = Some 1"
    by (simp add: broker_eval)
  have "broker_step ?s1 (Ret s2)" using listener_close [OF l] s2(1) by simp
  then have "broker_reach True s2" using breach_step [OF 1] by blast
  then have "broker_reach True (Listen_begin 1 s2)" using breach_step listen_begin [OF s2(2)] by blast
  with s2(3-6) show ?thesis by blast
qed

section \<open>Concrete runs\<close>

theorem grpc_routing_witness:
  "(1, None) \<in> set (bs_knocked knocked_once) \<and> (\<exists>m \<in> set (bs_arrived knocked_once). ci_ServiceId m = 1 \<and> is_ack m)"
proof -
  have k: "(1, None) \<in> set (bs_knocked knocked_once)" by (simp add: knocked_once_def broker_eval)
  with grpc_routing [OF reach_knocked_once] show ?thesis by blast
qed

theorem grpc_no_leak_witness: "owned knocked_once 1 0"
proof -
  have "gb_clientStreams (bs_broker knocked_once) 1 = Some 0" by (simp add: knocked_once_def broker_eval)
  with grpc_no_leak [OF reach_knocked_once, of 1 0] show ?thesis by blast
qed

theorem accept_dial_meet_witness:
  "\<exists>msg. GRPCBroker_Accept (\<lambda>s. (Inr (UnixListener ''/s''), s)) (\<lambda>m. None) (newGRPCBroker None empty_unix_cfg None False) 3 demo_fs
       = (Inr (UnixListener ''/s''), Some msg, demo_fs)
     \<and> dial_address demo_start (Some (cmd_PluginToHost, cmd_HostToPlugin)) msg = Inr \<lparr>addr_Network = ''unix'', addr_String = ''/s''\<rparr>"
proof -
  obtain msg where m: "GRPCBroker_Accept (\<lambda>s. (Inr (UnixListener ''/s''), s)) (\<lambda>m. None) (newGRPCBroker None empty_unix_cfg None False) 3 demo_fs
      = (Inr (UnixListener ''/s''), Some msg, demo_fs)"
    by (simp add: GRPCBroker_Accept_def advertise_def newGRPCBroker_def Let_def)
  have "resolve_addr demo_start ''unix'' ''/s'' = Inr \<lparr>addr_Network = ''unix'', addr_String = ''/s''\<rparr>"
    by (simp add: resolve_addr_def demo_start_def)
  with accept_dial_meet [OF m, of "Some (cmd_PluginToHost, cmd_HostToPlugin)" demo_start] m show ?thesis
    by (auto simp: newGRPCBroker_def)
qed

theorem accept_leaks_listener_witness:
  "GRPCBroker_Accept (\<lambda>s. (Inr (UnixListener ''/s''), add_file ''/s'' s)) (\<lambda>m. Some (ErrNew ''broker closed''))
     (newGRPCBroker None empty_unix_cfg None False) 3 demo_fs
   = (Inl (ErrNew ''broker closed''), None, add_file ''/s'' demo_fs)"
  by (rule accept_leaks_listener) (simp_all add: newGRPCBroker_def)

end
