(* ===== verification/LogPump.thy ===== *)
theory LogPump
  imports ClientStart
begin

text \<open>
  The log pump of the host (\<open>client.go\<close>, \<open>log_entry.go\<close>): \<open>logStderr\<close> reads what the plugin writes to its
  standard error line by line, copies it to the configured writer and passes it on to the logger, after
  \<open>parseJSON\<close> when the line is a log entry. The JSON decoder, the time formats and the names of the levels
  are arguments; so is the writer, which may panic.
\<close>

section \<open>Reading lines\<close>

abbreviation newline :: char where "newline \<equiv> byte_char 10"

abbreviation carriage_return :: char where "carriage_return \<equiv> byte_char 13"

text \<open>
  \<open>bufio.Reader.ReadLine\<close> on the bytes that are still to come, for a buffer of at least 16 bytes that reports its
  end by itself, as a pipe does: the line without its end, whether it is only the beginning of a line that
  is longer than the buffer, and what is left. A carriage return at the end of a full buffer is put back.
\<close>

definition ReadLine :: "nat \<Rightarrow> string \<Rightarrow> (string \<times> bool \<times> string) option" where
  "ReadLine bsize s =
     (let n = max 16 bsize; w = take n s
      in if s = [] then None
         else if newline \<in> set w
         then Some (drop_cr (takeWhile (\<lambda>c. c \<noteq> newline) s), False, tl (dropWhile (\<lambda>c. c \<noteq> newline) s))
         else if length w < n then Some (s, False, [])
         else if last w = carriage_return then Some (butlast w, True, carriage_return # drop n s)
         else Some (w, True, drop n s))"

section \<open>Log entries\<close>

text \<open>What \<open>encoding/json\<close> decodes into a value of type \<open>any\<close>; a number is kept as it is written.\<close>

datatype json = JNull | JBool bool | JNum string | JStr string | JArr "json list" | JObj "(string \<times> json) list"

text \<open>The levels of the logger, and the arguments of a call after the message.\<close>

datatype hclog_level = NoLevel | TraceLevel | DebugLevel | InfoLevel | WarnLevel | ErrorLevel | OffLevel

primrec level_num :: "hclog_level \<Rightarrow> nat" where
  "level_num NoLevel = 0"
| "level_num TraceLevel = 1"
| "level_num DebugLevel = 2"
| "level_num InfoLevel = 3"
| "level_num WarnLevel = 4"
| "level_num ErrorLevel = 5"
| "level_num OffLevel = 6"

datatype goany = AnyStr string | AnyJson json | AnyErr goerror

record log_call =
  lc_level :: hclog_level
  lc_msg :: string
  lc_args :: "goany list"

abbreviation log_plain :: "hclog_level \<Rightarrow> string \<Rightarrow> log_call" where
  "log_plain lvl line \<equiv> \<lparr>lc_level = lvl, lc_msg = line, lc_args = []\<rparr>"

text \<open>An instant is its distance from the zero value of \<open>time.Time\<close>.\<close>

record log_ops =
  json_Unmarshal :: "string \<Rightarrow> (string, json) amap res"
  time_Parse :: "string \<Rightarrow> int res"
  time_Format :: "int \<Rightarrow> string"
  LevelFromString :: "string \<Rightarrow> hclog_level"

record logEntry =
  Message :: string
  Level :: string
  Timestamp :: int
  KVPairs :: "(string \<times> json) list"

definition flattenKVPairs :: "(string \<times> json) list \<Rightarrow> goany list" where
  "flattenKVPairs kvs = concat (map (\<lambda>(k, v). [AnyStr k, AnyJson v]) kvs)"

definition json_string :: "json option \<Rightarrow> string option" where
  "json_string v = (case v of Some (JStr s) \<Rightarrow> Some s | _ \<Rightarrow> None)"

definition amap_delete :: "'k \<Rightarrow> ('k, 'v) amap \<Rightarrow> ('k, 'v) amap" where
  "amap_delete k m = filter (\<lambda>(k', v). k' \<noteq> k) m"

definition parseJSON :: "log_ops \<Rightarrow> string \<Rightarrow> logEntry res" where
  "parseJSON E input =
     (case json_Unmarshal E input of
        Inl err \<Rightarrow> Inl err
      | Inr raw \<Rightarrow>
          (let msg = (case json_string (map_of raw ''@message'') of Some s \<Rightarrow> s | None \<Rightarrow> []);
               raw1 = amap_delete ''@message'' raw;
               lvl = (case json_string (map_of raw1 ''@level'') of Some s \<Rightarrow> s | None \<Rightarrow> []);
               raw2 = amap_delete ''@level'' raw1
           in case (case json_string (map_of raw2 ''@timestamp'') of Some s \<Rightarrow> time_Parse E s | None \<Rightarrow> Inr 0) of
                Inl err \<Rightarrow> Inl err
              | Inr t \<Rightarrow>
                  Inr \<lparr>Message = msg, Level = lvl, Timestamp = t, KVPairs = amap_delete ''@timestamp'' raw2\<rparr>))"

section \<open>Logging a line\<close>

text \<open>A line that is not an entry: the level its prefix names; \<open>inPanic\<close> is kept from line to line.\<close>

definition log_text :: "string \<Rightarrow> bool \<Rightarrow> log_call \<times> bool" where
  "log_text line inPanic =
     (if HasPrefix line ''[TRACE]'' then (log_plain TraceLevel line, inPanic)
      else if HasPrefix line ''[DEBUG]'' then (log_plain DebugLevel line, inPanic)
      else if HasPrefix line ''[INFO]'' then (log_plain InfoLevel line, inPanic)
      else if HasPrefix line ''[WARN]'' then (log_plain WarnLevel line, inPanic)
      else if HasPrefix line ''[ERROR]'' then (log_plain ErrorLevel line, inPanic)
      else if HasPrefix line ''panic: '' \<or> HasPrefix line ''fatal error: '' then (log_plain ErrorLevel line, True)
      else if inPanic then (log_plain ErrorLevel line, inPanic)
      else (log_plain DebugLevel line, inPanic))"

definition log_entry_call :: "log_ops \<Rightarrow> string \<Rightarrow> logEntry \<Rightarrow> log_call" where
  "log_entry_call E line entry =
     (let logLevel = LevelFromString E (Level entry);
          out = flattenKVPairs (KVPairs entry) @ [AnyStr ''timestamp'', AnyStr (time_Format E (Timestamp entry))]
      in if logLevel \<in> {TraceLevel, DebugLevel, InfoLevel, WarnLevel, ErrorLevel}
         then \<lparr>lc_level = logLevel, lc_msg = Message entry, lc_args = out\<rparr>
         else log_plain DebugLevel line)"

definition log_line :: "log_ops \<Rightarrow> hclog_level \<Rightarrow> string \<Rightarrow> bool \<Rightarrow> log_call list \<times> bool" where
  "log_line E loggerLevel line inPanic =
     (if loggerLevel = OffLevel then ([], inPanic)
      else case parseJSON E line of
             Inl err \<Rightarrow> (case log_text line inPanic of (call, p) \<Rightarrow> ([call], p))
           | Inr entry \<Rightarrow>
               (let logLevel = LevelFromString E (Level entry)
                in if logLevel \<noteq> NoLevel \<and> level_num logLevel < level_num loggerLevel then ([], inPanic)
                   else ([log_entry_call E line entry], inPanic)))"

section \<open>The pump\<close>

record pump =
  pm_written :: "string list"
  pm_logged :: "log_call list"
  pm_continuation :: bool
  pm_inPanic :: bool

definition pump_start :: pump where
  "pump_start = \<lparr>pm_written = [], pm_logged = [], pm_continuation = False, pm_inPanic = False\<rparr>"

text \<open>
  A write to the configured writer: its errors are ignored, and \<open>wr\<close> says with which message it panics,
  if it does, after the writes so far. A panic ends the pump.
\<close>

type_synonym 's panicking = "'s \<times> string option"

definition then_do :: "'s panicking \<Rightarrow> ('s \<Rightarrow> 's panicking) \<Rightarrow> 's panicking" where
  "then_do r f = (case r of (s, Some m) \<Rightarrow> (s, Some m) | (s, None) \<Rightarrow> f s)"

definition Stderr_Write :: "(string list \<Rightarrow> string option) \<Rightarrow> string \<Rightarrow> pump \<Rightarrow> pump panicking" where
  "Stderr_Write wr bs p =
     (case wr (pm_written p) of
        Some m \<Rightarrow> (p, Some m)
      | None \<Rightarrow> (p\<lparr>pm_written := pm_written p @ [bs]\<rparr>, None))"

text \<open>
  One turn of the loop. What is logged for a complete line is the argument \<open>L\<close>, so that the pump can be
  compared with one that logs differently.
\<close>

type_synonym line_logger = "string \<Rightarrow> bool \<Rightarrow> log_call list \<times> bool"

definition pump_part :: "(string list \<Rightarrow> string option) \<Rightarrow> string \<Rightarrow> bool \<Rightarrow> pump \<Rightarrow> pump panicking" where
  "pump_part wr line isPrefix p =
     (let p1 = p\<lparr>pm_logged := pm_logged p @ [log_plain DebugLevel line]\<rparr>
      in then_do (if isPrefix then (p1, None) else Stderr_Write wr [newline] p1)
           (\<lambda>p2. (p2\<lparr>pm_continuation := isPrefix\<rparr>, None)))"

definition pump_whole :: "line_logger \<Rightarrow> (string list \<Rightarrow> string option) \<Rightarrow> string \<Rightarrow> pump \<Rightarrow> pump panicking" where
  "pump_whole L wr line p =
     then_do (Stderr_Write wr [newline] p) (\<lambda>p1.
       let r = L line (pm_inPanic p1)
       in (p1\<lparr>pm_logged := pm_logged p1 @ fst r, pm_inPanic := snd r\<rparr>, None))"

definition pump_line ::
  "line_logger \<Rightarrow> (string list \<Rightarrow> string option) \<Rightarrow> string \<Rightarrow> bool \<Rightarrow> pump \<Rightarrow> pump panicking" where
  "pump_line L wr line isPrefix p0 =
     then_do (Stderr_Write wr line p0) (\<lambda>p.
       if isPrefix \<or> pm_continuation p then pump_part wr line isPrefix p else pump_whole L wr line p)"

lemma ReadLine_shorter: "ReadLine bsize s = Some (line, isPrefix, rest) \<Longrightarrow> length rest < length s"
proof -
  assume r: "ReadLine bsize s = Some (line, isPrefix, rest)"
  have "length (tl (dropWhile P s)) < length s" if "s \<noteq> []" for P
    using that length_dropWhile_le [of P s] by (cases s) (auto simp: less_Suc_eq_le le_diff_conv)
  with r show ?thesis by (auto simp: ReadLine_def Let_def split: if_splits)
qed

function pump_loop ::
  "line_logger \<Rightarrow> (string list \<Rightarrow> string option) \<Rightarrow> nat \<Rightarrow> string \<Rightarrow> pump \<Rightarrow> pump panicking" where
  "pump_loop L wr bsize s p =
     (case ReadLine bsize s of
        None \<Rightarrow> (p, None)
      | Some (line, isPrefix, rest) \<Rightarrow> then_do (pump_line L wr line isPrefix p) (pump_loop L wr bsize rest))"
  by pat_completeness auto
termination
  by (relation "measure (\<lambda>(L, wr, bsize, s, p). length s)") (auto dest: ReadLine_shorter)

declare pump_loop.simps [simp del]

text \<open>
  \<open>logStderr\<close>: the loop, the error that ended the stream if it was not its end, the recovery from a panic,
  and the two wait groups.
\<close>

definition read_error_calls :: "goerror option \<Rightarrow> log_call list" where
  "read_error_calls rerr =
     (case rerr of
        None \<Rightarrow> []
      | Some err \<Rightarrow>
          (if errors_Is err io_EOF then []
           else [\<lparr>lc_level = ErrorLevel, lc_msg = ''reading plugin stderr'', lc_args = [AnyStr ''error'', AnyErr err]\<rparr>]))"

definition logStderr ::
  "log_ops \<Rightarrow> (string list \<Rightarrow> string option) \<Rightarrow> hclog_level \<Rightarrow> string \<Rightarrow> string \<Rightarrow> goerror option \<Rightarrow> 'p client
   \<Rightarrow> pump \<times> 'p client" where
  "logStderr E wr loggerLevel nam s rerr c =
     (let c' = c\<lparr>pipesWaitGroup := pipesWaitGroup c - 1, clientWaitGroup := clientWaitGroup c - 1\<rparr>
      in case pump_loop (log_line E loggerLevel) wr (nat (cc_PluginLogBufferSize (config c))) s pump_start of
           (p, None) \<Rightarrow> (p\<lparr>pm_logged := pm_logged p @ read_error_calls rerr\<rparr>, c')
         | (p, Some m) \<Rightarrow>
             (p\<lparr>pm_logged := pm_logged p
                  @ [\<lparr>lc_level = ErrorLevel, lc_msg = ''panic in plugin stderr log pump (recovered)'',
                      lc_args = [AnyStr ''plugin'', AnyStr nam, AnyStr ''panic'', AnyStr m]\<rparr>]\<rparr>, c'))"

section \<open>Facts about reading\<close>

text \<open>What line-wise copying does to the bytes: a carriage return before a newline disappears.\<close>

fun crlf :: "string \<Rightarrow> string" where
  "crlf [] = []"
| "crlf [c] = [c]"
| "crlf (c # d # s) = (if c = carriage_return \<and> d = newline then crlf (d # s) else c # crlf (d # s))"

lemma cr_not_newline [simp]: "carriage_return \<noteq> newline" "newline \<noteq> carriage_return"
  by (simp_all add: byte_char_def char_of_def)

lemma crlf_newline [simp]: "crlf (newline # s) = newline # crlf s"
  by (cases s) simp_all

lemma crlf_append:
  "newline \<notin> set w \<Longrightarrow> w = [] \<or> last w \<noteq> carriage_return \<or> s = [] \<or> hd s \<noteq> newline \<Longrightarrow> crlf (w @ s) = w @ crlf s"
proof (induction w rule: crlf.induct)
  case (2 c)
  then show ?case by (cases s) auto
qed auto

lemma crlf_line: "newline \<notin> set w \<Longrightarrow> crlf (w @ newline # s) = drop_cr w @ newline # crlf s"
proof (cases "w \<noteq> [] \<and> last w = carriage_return")
  case True
  assume n: "newline \<notin> set w"
  have w: "w = butlast w @ [carriage_return]" using True by (metis append_butlast_last_id)
  have "newline \<notin> set (butlast w)" using n by (auto dest: in_set_butlastD)
  then have "crlf (butlast w @ carriage_return # newline # s) = butlast w @ newline # crlf s"
    by (subst crlf_append) simp_all
  then show ?thesis using True by (subst w) (simp add: drop_cr_def)
next
  case False
  assume "newline \<notin> set w"
  with False show ?thesis by (subst crlf_append) (auto simp: drop_cr_def)
qed

lemma crlf_no_newline: "newline \<notin> set s \<Longrightarrow> crlf s = s"
  using crlf_append [of s "[]"] by simp

lemma first_newline:
  assumes "newline \<in> set (take n s)"
  obtains w where "takeWhile (\<lambda>c. c \<noteq> newline) s = w" "newline \<notin> set w" "length w < n"
    "s = w @ newline # tl (dropWhile (\<lambda>c. c \<noteq> newline) s)"
proof -
  obtain w r where s: "s = w @ newline # r" "newline \<notin> set w"
    using split_list_first [of newline s] assms by (auto dest: in_set_takeD)
  have "length w < n"
  proof (rule ccontr)
    assume "\<not> length w < n"
    then have "take n s = take n w" using s(1) by simp
    with assms s(2) show False by (metis in_set_takeD)
  qed
  moreover have "takeWhile (\<lambda>c. c \<noteq> newline) s = w" "dropWhile (\<lambda>c. c \<noteq> newline) s = newline # r"
    using s by (auto simp: takeWhile_append dropWhile_append takeWhile_eq_all_conv dropWhile_eq_Nil_conv)
  ultimately show thesis using s by (intro that [of w]) simp_all
qed

lemma full_buffer_cr:
  assumes "take n s = w" "length w = n" "2 \<le> n" "last w = carriage_return"
  shows "s = butlast w @ carriage_return # drop n s" "butlast w \<noteq> []"
proof -
  have "w \<noteq> []" using assms by auto
  then have "w = butlast w @ [carriage_return]" using assms(4) by (metis append_butlast_last_id)
  moreover have "s = w @ drop n s" using assms(1) by (metis append_take_drop_id)
  ultimately show "s = butlast w @ carriage_return # drop n s" by (metis append.assoc append_Cons append_Nil)
  have "length (butlast w) \<noteq> 0" using assms by simp
  then show "butlast w \<noteq> []" by (metis length_0_conv)
qed

text \<open>The three outcomes of \<open>ReadLine\<close>: a line, the beginning of a long line, the last line without an end.\<close>

lemma ReadLine_cases:
  assumes "ReadLine bsize s = Some (line, isPrefix, rest)"
  obtains (line) w where "\<not> isPrefix" "newline \<notin> set w" "s = w @ newline # rest" "line = drop_cr w" "length w < max 16 bsize"
  | (prefix) "isPrefix" "newline \<notin> set line" "s = line @ rest" "line \<noteq> []" "max 16 bsize \<le> length s"
      "last line \<noteq> carriage_return \<or> rest \<noteq> [] \<and> hd rest \<noteq> newline"
  | (final) "\<not> isPrefix" "newline \<notin> set s" "line = s" "rest = []" "s \<noteq> []" "length s < max 16 bsize"
proof -
  define n where "n = max 16 bsize"
  define w where "w = take n s"
  have s: "s \<noteq> []" using assms by (auto simp: ReadLine_def Let_def)
  have n: "2 \<le> n" by (simp add: n_def)
  have r: "(if newline \<in> set w
       then Some (drop_cr (takeWhile (\<lambda>c. c \<noteq> newline) s), False, tl (dropWhile (\<lambda>c. c \<noteq> newline) s))
       else if length w < n then Some (s, False, [])
       else if last w = carriage_return then Some (butlast w, True, carriage_return # drop n s)
       else Some (w, True, drop n s)) = Some (line, isPrefix, rest)"
    using assms unfolding ReadLine_def Let_def if_not_P [OF s] w_def n_def .
  consider (1) "newline \<in> set w" | (2) "newline \<notin> set w" "length w < n"
    | (3) "newline \<notin> set w" "length w = n" "last w = carriage_return"
    | (4) "newline \<notin> set w" "length w = n" "last w \<noteq> carriage_return" by (fastforce simp: w_def)
  then show thesis
  proof cases
    case 1
    then obtain v where "takeWhile (\<lambda>c. c \<noteq> newline) s = v" "newline \<notin> set v" "length v < n"
      "s = v @ newline # tl (dropWhile (\<lambda>c. c \<noteq> newline) s)" unfolding w_def by (rule first_newline)
    with 1 r show thesis by (intro line [of v]) (simp_all add: n_def)
  next
    case 2
    then have "w = s" by (simp add: w_def)
    with 2 r s show thesis by (intro final) (simp_all add: n_def)
  next
    case 3
    note cr = full_buffer_cr [OF w_def [symmetric] 3(2) n 3(3)]
    have "newline \<notin> set (butlast w)" using 3(1) by (auto dest: in_set_butlastD)
    moreover have "n \<le> length s" using 3(2) by (simp add: w_def)
    moreover have "line = butlast w" isPrefix "rest = carriage_return # drop n s" using 3 r by simp_all
    ultimately show thesis using cr unfolding n_def by (intro prefix) (metis cr_not_newline(1) list.sel(1) list.distinct(1))+
  next
    case 4
    have "w \<noteq> []" using 4(2) n by auto
    moreover have "n \<le> length s" using 4(2) by (simp add: w_def)
    moreover have "s = w @ drop n s" by (simp add: w_def)
    ultimately show thesis using 4 r by (intro prefix) (simp_all add: n_def)
  qed
qed

section \<open>Facts about the pump\<close>

lemma then_do_simps [simp]:
  "then_do (s, None) f = f s"
  "then_do (s, Some m) f = (s, Some m)"
  by (simp_all add: then_do_def)

definition well_behaved :: "(string list \<Rightarrow> string option) \<Rightarrow> bool" where
  "well_behaved wr \<longleftrightarrow> wr = (\<lambda>_. None)"

lemma Stderr_Write_ok [simp]:
  "well_behaved wr \<Longrightarrow> Stderr_Write wr bs p = (p\<lparr>pm_written := pm_written p @ [bs]\<rparr>, None)"
  by (simp add: Stderr_Write_def well_behaved_def)

text \<open>One turn with a writer that does not panic: what it writes, and that it remembers whether the line goes on.\<close>

lemma pump_line_ok:
  assumes "well_behaved wr"
  shows "\<exists>p'. pump_line L wr line isPrefix p = (p', None) \<and> pm_continuation p' = isPrefix
    \<and> concat (pm_written p') = concat (pm_written p) @ line @ (if isPrefix then [] else [newline])"
  using assms by (auto simp: pump_line_def pump_part_def pump_whole_def Let_def)

lemma pump_loop_written:
  assumes "well_behaved wr"
  shows "\<exists>p'. pump_loop L wr bsize s p = (p', None)
    \<and> concat (pm_written p') \<in> {concat (pm_written p) @ crlf s, concat (pm_written p) @ crlf s @ [newline]}
    \<and> (s = [] \<or> last s = newline \<longrightarrow> concat (pm_written p') = concat (pm_written p) @ crlf s)"
proof (induction s arbitrary: p rule: length_induct)
  case (1 s)
  show ?case
  proof (cases "ReadLine bsize s")
    case None
    then have "s = []" by (auto simp: ReadLine_def Let_def split: if_splits)
    with None show ?thesis by (simp add: pump_loop.simps)
  next
    case (Some r)
    then obtain line isPrefix rest where r: "ReadLine bsize s = Some (line, isPrefix, rest)" by (cases r) auto
    obtain p1 where p1: "pump_line L wr line isPrefix p = (p1, None)"
      "concat (pm_written p1) = concat (pm_written p) @ line @ (if isPrefix then [] else [newline])"
      using pump_line_ok [OF assms] by blast
    have step: "pump_loop L wr bsize s p = pump_loop L wr bsize rest p1"
      by (subst pump_loop.simps) (simp add: r p1)
    obtain p2 where p2: "pump_loop L wr bsize rest p1 = (p2, None)"
      "concat (pm_written p2) \<in> {concat (pm_written p1) @ crlf rest, concat (pm_written p1) @ crlf rest @ [newline]}"
      "rest = [] \<or> last rest = newline \<longrightarrow> concat (pm_written p2) = concat (pm_written p1) @ crlf rest"
      using 1 ReadLine_shorter [OF r] by blast
    from r show ?thesis
    proof (cases rule: ReadLine_cases)
      case (line w)
      then have "crlf s = line @ newline # crlf rest" by (simp add: crlf_line)
      moreover have "last s = newline \<longrightarrow> rest = [] \<or> last rest = newline" using line by auto
      ultimately show ?thesis using step p1 p2 line by auto
    next
      case prefix
      then have "crlf s = line @ crlf rest" by (simp add: crlf_append)
      moreover have "last s = newline \<longrightarrow> rest = [] \<or> last rest = newline" using prefix by (cases "rest = []") simp_all
      ultimately show ?thesis using step p1 p2 prefix by auto
    next
      case final
      then have "crlf s = s" "last s \<noteq> newline" using last_in_set [OF \<open>s \<noteq> []\<close>] by (simp add: crlf_no_newline, metis)
      then show ?thesis using step p1 p2 final by auto
    qed
  qed
qed

text \<open>The logger without the two shortcuts: every line is parsed and logged.\<close>

definition log_line_plain :: "log_ops \<Rightarrow> string \<Rightarrow> bool \<Rightarrow> log_call list \<times> bool" where
  "log_line_plain E line inPanic =
     (case parseJSON E line of
        Inl err \<Rightarrow> (case log_text line inPanic of (call, p) \<Rightarrow> ([call], p))
      | Inr entry \<Rightarrow> ([log_entry_call E line entry], inPanic))"

text \<open>What a logger with a level puts out: the calls of at least that level.\<close>

definition emitted :: "hclog_level \<Rightarrow> log_call list \<Rightarrow> log_call list" where
  "emitted lvl calls = filter (\<lambda>c. level_num lvl \<le> level_num (lc_level c)) calls"

lemma emitted_append [simp]: "emitted lvl (xs @ ys) = emitted lvl xs @ emitted lvl ys"
  by (simp add: emitted_def)

lemma log_text_level: "level_num (lc_level (fst (log_text line b))) < 6"
  by (simp add: log_text_def)

lemma log_entry_level:
  "level_num (lc_level (log_entry_call E line entry)) < 6"
  "LevelFromString E (Level entry) \<noteq> NoLevel \<Longrightarrow> level_num (LevelFromString E (Level entry)) < 6 \<Longrightarrow>
     lc_level (log_entry_call E line entry) = LevelFromString E (Level entry)"
  by (cases "LevelFromString E (Level entry)"; simp add: log_entry_call_def Let_def)+

lemma log_line_off: "emitted OffLevel (fst (log_line_plain E line b)) = []"
  using log_text_level [of line b] log_entry_level(1) [of E line]
  by (cases "log_text line b") (auto simp: log_line_plain_def emitted_def not_le split: sum.split)

lemma level_num_le: "level_num lvl \<le> 6"
  by (cases lvl) simp_all

lemma log_line_emitted:
  assumes "lvl \<noteq> OffLevel"
  shows "emitted lvl (fst (log_line E lvl line b)) = emitted lvl (fst (log_line_plain E line b))"
    and "snd (log_line E lvl line b) = snd (log_line_plain E line b)"
proof -
  have "lc_level (log_entry_call E line entry) = LevelFromString E (Level entry)"
    if "LevelFromString E (Level entry) \<noteq> NoLevel" "level_num (LevelFromString E (Level entry)) < level_num lvl" for entry
    using that level_num_le [of lvl] by (intro log_entry_level(2)) auto
  then show "emitted lvl (fst (log_line E lvl line b)) = emitted lvl (fst (log_line_plain E line b))"
    using assms by (auto simp: log_line_def log_line_plain_def emitted_def Let_def split: sum.split prod.split)
  show "snd (log_line E lvl line b) = snd (log_line_plain E line b)"
    using assms by (simp add: log_line_def log_line_plain_def Let_def split: sum.split prod.split)
qed

text \<open>Two pumps that agree on everything that can be seen at a level.\<close>

definition same_pump :: "hclog_level \<Rightarrow> pump \<Rightarrow> pump \<Rightarrow> bool" where
  "same_pump lvl p q \<longleftrightarrow> pm_written p = pm_written q \<and> pm_continuation p = pm_continuation q
     \<and> emitted lvl (pm_logged p) = emitted lvl (pm_logged q) \<and> (lvl \<noteq> OffLevel \<longrightarrow> pm_inPanic p = pm_inPanic q)"

definition same_result :: "hclog_level \<Rightarrow> pump panicking \<Rightarrow> pump panicking \<Rightarrow> bool" where
  "same_result lvl r r' \<longleftrightarrow> same_pump lvl (fst r) (fst r') \<and> snd r = snd r'"

lemma same_Write: "same_pump lvl p q \<Longrightarrow> same_result lvl (Stderr_Write wr bs p) (Stderr_Write wr bs q)"
  by (auto simp: Stderr_Write_def same_pump_def same_result_def split: option.splits)

lemma same_then_do:
  assumes "same_result lvl r r'" "\<And>p q. same_pump lvl p q \<Longrightarrow> same_result lvl (f p) (g q)"
  shows "same_result lvl (then_do r f) (then_do r' g)"
  using assms by (cases r; cases r') (auto simp: then_do_def same_result_def split: option.splits)

lemma same_part: "same_pump lvl p q \<Longrightarrow> same_result lvl (pump_part wr line isPrefix p) (pump_part wr line isPrefix q)"
  unfolding pump_part_def Let_def
proof (rule same_then_do)
  assume "same_pump lvl p q"
  then have pq: "same_pump lvl (p\<lparr>pm_logged := pm_logged p @ [log_plain DebugLevel line]\<rparr>)
      (q\<lparr>pm_logged := pm_logged q @ [log_plain DebugLevel line]\<rparr>)" (is "same_pump lvl ?P ?Q")
    by (simp add: same_pump_def)
  then have "same_result lvl (?P, None) (?Q, None)" by (simp add: same_result_def)
  with same_Write [OF pq]
  show "same_result lvl (if isPrefix then (?P, None) else Stderr_Write wr [newline] ?P)
      (if isPrefix then (?Q, None) else Stderr_Write wr [newline] ?Q)" by simp
qed (simp add: same_result_def same_pump_def)

lemma same_whole:
  assumes "same_pump lvl p q"
  shows "same_result lvl (pump_whole (log_line E lvl) wr line p) (pump_whole (log_line_plain E) wr line q)"
  unfolding pump_whole_def Let_def
proof (rule same_then_do [OF same_Write [OF assms]])
  fix p q
  assume pq: "same_pump lvl p q"
  let ?a = "log_line E lvl line (pm_inPanic p)" let ?b = "log_line_plain E line (pm_inPanic q)"
  have "emitted lvl (fst ?a) = emitted lvl (fst ?b) \<and> (lvl \<noteq> OffLevel \<longrightarrow> snd ?a = snd ?b)"
  proof (cases "lvl = OffLevel")
    case True
    then show ?thesis using log_line_off [of E line "pm_inPanic q"] by (simp add: log_line_def emitted_def)
  next
    case False
    with pq have "pm_inPanic p = pm_inPanic q" by (simp add: same_pump_def)
    with False show ?thesis by (simp add: log_line_emitted)
  qed
  with pq show "same_result lvl (p\<lparr>pm_logged := pm_logged p @ fst ?a, pm_inPanic := snd ?a\<rparr>, None)
      (q\<lparr>pm_logged := pm_logged q @ fst ?b, pm_inPanic := snd ?b\<rparr>, None)"
    by (simp add: same_result_def same_pump_def)
qed

lemma same_line:
  assumes "same_pump lvl p q"
  shows "same_result lvl (pump_line (log_line E lvl) wr line isPrefix p) (pump_line (log_line_plain E) wr line isPrefix q)"
  unfolding pump_line_def
proof (rule same_then_do [OF same_Write [OF assms]])
  fix p q
  assume pq: "same_pump lvl p q"
  then have "pm_continuation p = pm_continuation q" by (simp add: same_pump_def)
  with pq show "same_result lvl
      (if isPrefix \<or> pm_continuation p then pump_part wr line isPrefix p else pump_whole (log_line E lvl) wr line p)
      (if isPrefix \<or> pm_continuation q then pump_part wr line isPrefix q else pump_whole (log_line_plain E) wr line q)"
    by (simp add: same_part same_whole)
qed

lemma same_loop:
  "same_pump lvl p q \<Longrightarrow>
     same_result lvl (pump_loop (log_line E lvl) wr bsize s p) (pump_loop (log_line_plain E) wr bsize s q)"
proof (induction s arbitrary: p q rule: length_induct)
  case (1 s)
  show ?case
  proof (cases "ReadLine bsize s")
    case None
    with 1 show ?thesis by (simp add: pump_loop.simps same_result_def)
  next
    case (Some r)
    then obtain line isPrefix rest where r: "ReadLine bsize s = Some (line, isPrefix, rest)" by (cases r) auto
    have "same_result lvl (pump_loop (log_line E lvl) wr bsize rest p) (pump_loop (log_line_plain E) wr bsize rest q)"
      if "same_pump lvl p q" for p q using 1(1) ReadLine_shorter [OF r] that by blast
    with same_line [OF 1(2)] show ?thesis
      by (subst (1 2) pump_loop.simps) (simp add: r same_then_do)
  qed
qed

section \<open>Complete lines\<close>

text \<open>The reference: each line by itself, in order.\<close>

fun log_lines :: "line_logger \<Rightarrow> string list \<Rightarrow> bool \<Rightarrow> log_call list \<times> bool" where
  "log_lines L [] inPanic = ([], inPanic)"
| "log_lines L (l # ls) inPanic =
     (let r = L l inPanic; r' = log_lines L ls (snd r) in (fst r @ fst r', snd r'))"

lemma ReadLine_line:
  assumes "newline \<notin> set w" "length w < max 16 bsize"
  shows "ReadLine bsize (w @ newline # s) = Some (drop_cr w, False, s)"
proof -
  have "newline \<in> set (take (max 16 bsize) (w @ newline # s))"
    using assms(2) by (auto simp: take_Cons')
  moreover have "takeWhile (\<lambda>c. c \<noteq> newline) (w @ newline # s) = w" "dropWhile (\<lambda>c. c \<noteq> newline) (w @ newline # s) = newline # s"
    using assms(1) by (auto simp: takeWhile_append dropWhile_append takeWhile_eq_all_conv dropWhile_eq_Nil_conv)
  ultimately show ?thesis by (simp add: ReadLine_def Let_def)
qed

lemma pump_whole_line:
  assumes "well_behaved wr" "\<not> pm_continuation p"
  shows "pump_line L wr line False p =
    (p\<lparr>pm_written := pm_written p @ [line, [newline]], pm_logged := pm_logged p @ fst (L line (pm_inPanic p)),
       pm_inPanic := snd (L line (pm_inPanic p))\<rparr>, None)"
  using assms by (simp add: pump_line_def pump_whole_def Let_def)

lemma pump_loop_lines:
  assumes "well_behaved wr" "\<forall>l \<in> set ls. newline \<notin> set l \<and> length l < max 16 bsize" "\<not> pm_continuation p"
  shows "pm_logged (fst (pump_loop L wr bsize (concat (map (\<lambda>l. l @ [newline]) ls)) p)) =
    pm_logged p @ fst (log_lines L (map drop_cr ls) (pm_inPanic p))"
  using assms(2,3)
proof (induction ls arbitrary: p)
  case Nil
  then show ?case by (simp add: pump_loop.simps ReadLine_def)
next
  case (Cons l ls)
  then have "ReadLine bsize (l @ newline # concat (map (\<lambda>l. l @ [newline]) ls)) = Some (drop_cr l, False, concat (map (\<lambda>l. l @ [newline]) ls))"
    by (intro ReadLine_line) auto
  with Cons show ?case
    by (simp add: pump_loop.simps [of L wr bsize "l @ newline # concat (map (\<lambda>l. l @ [newline]) ls)"] pump_whole_line assms(1) Let_def)
qed

text \<open>After a line that begins a panic, every line that is not an entry and has no tag is an error.\<close>

definition untagged :: "string \<Rightarrow> bool" where
  "untagged l \<longleftrightarrow> (\<forall>tag \<in> {''[TRACE]'', ''[DEBUG]'', ''[INFO]'', ''[WARN]'', ''[ERROR]''}. \<not> HasPrefix l tag)"

lemma log_lines_append:
  "fst (log_lines L (xs @ ys) b) = fst (log_lines L xs b) @ fst (log_lines L ys (snd (log_lines L xs b)))"
  by (induction xs arbitrary: b) (simp_all add: Let_def)

lemma panic_untagged: "HasPrefix p ''panic: '' \<or> HasPrefix p ''fatal error: '' \<Longrightarrow> untagged p"
  by (cases p) (auto simp: untagged_def)

lemma log_line_panic:
  assumes "lvl \<noteq> OffLevel" "\<exists>err. parseJSON E l = Inl err" "untagged l"
    and "b \<or> HasPrefix l ''panic: '' \<or> HasPrefix l ''fatal error: ''"
  shows "log_line E lvl l b = ([log_plain ErrorLevel l], True)"
  using assms by (auto simp: log_line_def log_text_def untagged_def)

lemma log_lines_trace:
  "lvl \<noteq> OffLevel \<Longrightarrow> \<forall>l \<in> set ls. (\<exists>err. parseJSON E l = Inl err) \<and> untagged l \<Longrightarrow>
     fst (log_lines (log_line E lvl) ls True) = map (log_plain ErrorLevel) ls"
  by (induction ls) (simp_all add: Let_def log_line_panic)

lemma log_lines_panic:
  assumes "lvl \<noteq> OffLevel" "HasPrefix p ''panic: '' \<or> HasPrefix p ''fatal error: ''"
    and "\<exists>err. parseJSON E p = Inl err" "\<forall>l \<in> set ls. (\<exists>err. parseJSON E l = Inl err) \<and> untagged l"
  shows "fst (log_lines (log_line E lvl) (p # ls) b) = map (log_plain ErrorLevel) (p # ls)"
  using assms by (simp add: Let_def log_line_panic panic_untagged log_lines_trace)

section \<open>Properties\<close>

text \<open>
  C28: The log pump copies the plugin's standard error faithfully: with a writer that does not panic, what
  arrives at the configured writer is what the plugin wrote, byte by byte and whatever the length of its
  lines and the size of the buffer, except that a carriage return before a newline is dropped and that a
  last line without an end may get a newline. The pump always ends with its stream, and leaves both wait
  groups exactly once.
\<close>
theorem log_pump_bytes:
  assumes "well_behaved wr"
  shows "concat (pm_written (fst (logStderr E wr lvl nam s rerr c))) \<in> {crlf s, crlf s @ [newline]}
    \<and> (s = [] \<or> last s = newline \<longrightarrow> concat (pm_written (fst (logStderr E wr lvl nam s rerr c))) = crlf s)
    \<and> snd (logStderr E wr lvl nam s rerr c)
        = c\<lparr>pipesWaitGroup := pipesWaitGroup c - 1, clientWaitGroup := clientWaitGroup c - 1\<rparr>"
proof -
  obtain p where p: "pump_loop (log_line E lvl) wr (nat (cc_PluginLogBufferSize (config c))) s pump_start = (p, None)"
    "concat (pm_written p) \<in> {crlf s, crlf s @ [newline]}" "s = [] \<or> last s = newline \<longrightarrow> concat (pm_written p) = crlf s"
    using pump_loop_written [OF assms, of "log_line E lvl" "nat (cc_PluginLogBufferSize (config c))" s pump_start]
    by (auto simp: pump_start_def)
  then show ?thesis by (simp add: logStderr_def Let_def)
qed

text \<open>
  C29: The two shortcuts of the log pump cannot be observed: skipping all parsing when the logger is off, and
  skipping entries below its level, give the same output of a logger that drops calls below its level, the
  same bytes at the configured writer and the same outcome as parsing and logging every line.
\<close>
theorem log_shortcuts_sound:
  "same_result lvl (pump_loop (log_line E lvl) wr bsize s pump_start) (pump_loop (log_line_plain E) wr bsize s pump_start)"
  by (rule same_loop) (simp add: same_pump_def)

text \<open>
  The output of a crashing plugin. Lines that fit into the buffer are logged one by one and in order,
  independent of the size of the buffer; from a line that begins a panic on, every line that is neither an
  entry nor tagged with a level is logged as an error.
\<close>
theorem panic_trace_errors:
  assumes "well_behaved wr" "lvl \<noteq> OffLevel" "HasPrefix p ''panic: '' \<or> HasPrefix p ''fatal error: ''"
    and "\<forall>l \<in> set (pre @ p # post). newline \<notin> set l \<and> length l < max 16 (nat (cc_PluginLogBufferSize (config c)))"
    and "\<forall>l \<in> set (p # post). \<exists>err. parseJSON E (drop_cr l) = Inl err" "\<forall>l \<in> set post. untagged (drop_cr l)" "drop_cr p = p"
  shows "pm_logged (fst (logStderr E wr lvl nam (concat (map (\<lambda>l. l @ [newline]) (pre @ p # post))) None c))
    = fst (log_lines (log_line E lvl) (map drop_cr pre) False) @ map (log_plain ErrorLevel) (map drop_cr (p # post))"
proof -
  let ?s = "concat (map (\<lambda>l. l @ [newline]) (pre @ p # post))"
  let ?n = "nat (cc_PluginLogBufferSize (config c))"
  obtain q where q: "pump_loop (log_line E lvl) wr ?n ?s pump_start = (q, None)" using pump_loop_written [OF assms(1)] by blast
  have "pm_logged q = fst (log_lines (log_line E lvl) (map drop_cr (pre @ p # post)) False)"
    using pump_loop_lines [OF assms(1) assms(4), of pump_start "log_line E lvl"] q by (simp add: pump_start_def)
  also have "\<dots> = fst (log_lines (log_line E lvl) (map drop_cr pre) False) @ map (log_plain ErrorLevel) (map drop_cr (p # post))"
    using log_lines_panic [OF assms(2,3), of E "map drop_cr post"] assms(5-7) by (simp add: log_lines_append)
  finally show ?thesis using q by (simp add: logStderr_def read_error_calls_def)
qed

section \<open>Concrete runs\<close>

definition demo_log_ops :: log_ops where
  "demo_log_ops =
     \<lparr>json_Unmarshal = (\<lambda>s. if HasPrefix s ''{'' then Inr [(''@message'', JStr ''hi''), (''@level'', JStr ''warn''), (''n'', JNum ''1'')]
                            else Inl (ErrStd ''invalid character'')),
      time_Parse = (\<lambda>s. Inr 0), time_Format = (\<lambda>t. ''0001-01-01T00:00:00.000Z''),
      LevelFromString = (\<lambda>s. if s = ''warn'' then WarnLevel else NoLevel)\<rparr>"

lemma well_behaved_quiet: "well_behaved (\<lambda>_. None)"
  by (simp add: well_behaved_def)

lemma demo_chars: "newline = CHR 0x0A" "carriage_return = CHR 0x0D"
  by (code_simp, code_simp)

theorem log_pump_bytes_witness:
  "concat (pm_written (fst (logStderr demo_log_ops (\<lambda>_. None) InfoLevel ''p'' (''ab'' @ [carriage_return, newline]) None (new_client demo_config :: nat client))))
   = ''ab'' @ [newline]"
proof -
  have "crlf (''ab'' @ [carriage_return, newline]) = ''ab'' @ [newline]" by (simp add: demo_chars)
  then show ?thesis
    using log_pump_bytes [OF well_behaved_quiet, of demo_log_ops InfoLevel "''p''" "''ab'' @ [carriage_return, newline]" None "new_client demo_config :: nat client"]
    by (simp del: crlf.simps)
qed

theorem panic_trace_errors_witness:
  "pm_logged (fst (logStderr demo_log_ops (\<lambda>_. None) InfoLevel ''p''
      (''{}'' @ [newline] @ ''panic: x'' @ [newline] @ ''goroutine 1'' @ [newline]) None (new_client demo_config :: nat client)))
   = [\<lparr>lc_level = WarnLevel, lc_msg = ''hi'', lc_args = [AnyStr ''n'', AnyJson (JNum ''1''), AnyStr ''timestamp'', AnyStr ''0001-01-01T00:00:00.000Z'']\<rparr>,
      log_plain ErrorLevel ''panic: x'', log_plain ErrorLevel ''goroutine 1'']"
proof -
  have entry: "log_lines (log_line demo_log_ops InfoLevel) [''{}''] False = ([\<lparr>lc_level = WarnLevel, lc_msg = ''hi'',
      lc_args = [AnyStr ''n'', AnyJson (JNum ''1''), AnyStr ''timestamp'', AnyStr ''0001-01-01T00:00:00.000Z'']\<rparr>], False)"
    by (simp add: demo_log_ops_def parseJSON_def json_string_def amap_delete_def log_line_def log_entry_call_def flattenKVPairs_def HasPrefix_def Let_def)
  have txts: "parseJSON demo_log_ops ''panic: x'' = Inl (ErrStd ''invalid character'')"
    "parseJSON demo_log_ops ''goroutine 1'' = Inl (ErrStd ''invalid character'')"
    by (simp_all add: demo_log_ops_def parseJSON_def HasPrefix_def)
  have short: "\<forall>l \<in> set [''{}'', ''panic: x'', ''goroutine 1'']. newline \<notin> set l
      \<and> length l < max 16 (nat (cc_PluginLogBufferSize (config (new_client demo_config :: nat client))))"
    by (simp add: demo_chars new_client_def demo_config_def)
  show ?thesis
    using panic_trace_errors [OF well_behaved_quiet, of InfoLevel "''panic: x''" "[''{}'']" "[''goroutine 1'']" "new_client demo_config :: nat client" demo_log_ops "''p''"]
      short entry txts by (simp add: untagged_def drop_cr_def demo_chars)
qed

end
