(* ===== verification/GRPCMux.thy ===== *)
theory GRPCMux
  imports GRPCBroker
begin

text \<open>
  The multiplexers of \<open>internal/grpcmux\<close>, which carry the connections of the gRPC broker over one yamux
  session: the plugin's \<open>GRPCServerMuxer\<close> with its blocked listeners, the host's \<open>GRPCClientMuxer\<close>, and the
  interleavings of knocks, dials and accepts at either end. Streams of the session are modelled by what
  their dialer opened them for: \<open>Some id\<close> after a knock on that identifier, \<open>None\<close> without a knock.
\<close>

section \<open>The plugin's multiplexer\<close>

text \<open>
  The session: not yet accepted; failed, with the error still to be handed out on \<open>sessionErrCh\<close>; or that
  channel closed, with or without a session. A listener is known by its position in the list, which also
  stands for its channel \<open>acceptCh\<close>. The channel \<open>knockCh\<close> holds one identifier.
\<close>

datatype session_state = SessionPending | SessionFailed goerror | SessionClosed bool

record blocked_server_listener =
  bsl_addr :: net_addr
  bsl_doneCh :: bool

record server_muxer =
  sm_addr :: net_addr
  sm_session :: session_state
  sm_knockCh :: "stream_id option"
  sm_acceptChannels :: "stream_id \<Rightarrow> nat option"
  sm_listeners :: "blocked_server_listener list"
  sm_sessionInitTimeout :: duration

definition NewGRPCServerMuxer :: "net_addr \<Rightarrow> server_muxer" where
  "NewGRPCServerMuxer addr =
     \<lparr>sm_addr = addr, sm_session = SessionPending, sm_knockCh = None, sm_acceptChannels = Map.empty,
      sm_listeners = [], sm_sessionInitTimeout = 0\<rparr>"

definition SetSessionInitTimeout :: "duration \<Rightarrow> server_muxer \<Rightarrow> server_muxer" where
  "SetSessionInitTimeout d m = m\<lparr>sm_sessionInitTimeout := d\<rparr>"

definition defaultSessionInitTimeout :: duration where "defaultSessionInitTimeout = 5 * second"

definition session_timeout :: "server_muxer \<Rightarrow> duration" where
  "session_timeout m =
     (if sm_sessionInitTimeout m \<le> 0 then defaultSessionInitTimeout else sm_sessionInitTimeout m)"

text \<open>\<open>acceptSession\<close>, with the errors of the listener and of yamux.\<close>

definition acceptSession :: "goerror option \<Rightarrow> goerror option \<Rightarrow> server_muxer \<Rightarrow> server_muxer" where
  "acceptSession accept_err yamux_err m =
     (case accept_err of
        Some err \<Rightarrow> m\<lparr>sm_session := SessionFailed err\<rparr>
      | None \<Rightarrow>
          (case yamux_err of
             Some err \<Rightarrow> m\<lparr>sm_session := SessionFailed err\<rparr>
           | None \<Rightarrow> m\<lparr>sm_session := SessionClosed True\<rparr>))"

text \<open>\<open>session\<close>, in the state in which it returns: while the session is pending only its timeout returns.\<close>

definition mux_session :: "server_muxer \<Rightarrow> goerror option \<times> server_muxer" where
  "mux_session m =
     (case sm_session m of
        SessionPending \<Rightarrow> (Some (ErrNew ''timed out waiting for connection to be established''), m)
      | SessionFailed err \<Rightarrow> (Some err, m\<lparr>sm_session := SessionClosed False\<rparr>)
      | SessionClosed established \<Rightarrow>
          (if established then None else Some (ErrNew ''no connection established and no error received''), m))"

definition ServerMuxer_Listener :: "net_addr \<Rightarrow> stream_id \<Rightarrow> server_muxer \<Rightarrow> nat res \<times> server_muxer" where
  "ServerMuxer_Listener sess_addr sid m0 =
     (case mux_session m0 of
        (Some err, m) \<Rightarrow> (Inl err, m)
      | (None, m) \<Rightarrow>
          (let l = length (sm_listeners m)
           in (Inr l, m\<lparr>sm_listeners := sm_listeners m @ [\<lparr>bsl_addr = sess_addr, bsl_doneCh = False\<rparr>],
                        sm_acceptChannels := (sm_acceptChannels m)(sid \<mapsto> l)\<rparr>)))"

definition ServerMuxer_Dial :: "nat res \<Rightarrow> server_muxer \<Rightarrow> nat res \<times> server_muxer" where
  "ServerMuxer_Dial open_stream m0 =
     (case mux_session m0 of
        (Some err, m) \<Rightarrow> (Inl err, m)
      | (None, m) \<Rightarrow>
          (case open_stream of
             Inl err \<Rightarrow> (Inl (Errorf ''error dialling new server stream: %w'' [FErr err]), m)
           | Inr stream \<Rightarrow> (Inr stream, m)))"

definition ServerMuxer_Close :: "goerror option \<Rightarrow> server_muxer \<Rightarrow> goerror option \<times> server_muxer" where
  "ServerMuxer_Close close_err m0 =
     (case mux_session m0 of
        (Some err, m) \<Rightarrow> (Some err, m)
      | (None, m) \<Rightarrow> (close_err, m))"

definition ServerMuxer_Addr :: "server_muxer \<Rightarrow> net_addr" where
  "ServerMuxer_Addr m = sm_addr m"

text \<open>\<open>AcceptKnock\<close> sends into \<open>knockCh\<close>; \<open>None\<close> while the send blocks.\<close>

definition ServerMuxer_AcceptKnock :: "stream_id \<Rightarrow> server_muxer \<Rightarrow> server_muxer option" where
  "ServerMuxer_AcceptKnock sid m =
     (case sm_knockCh m of
        None \<Rightarrow> Some (m\<lparr>sm_knockCh := Some sid\<rparr>)
      | Some _ \<Rightarrow> None)"

text \<open>
  \<open>Accept\<close>: the error of the session, or one turn of the loop with what the session accepted. A turn
  returns it to the default listener, sends it to the listener of the last knock, or fails and closes it.
\<close>

datatype 'c accept_route = ToDefault "'c res" | ToListener nat "'c res" | AcceptFails goerror

definition no_listener_err :: "stream_id \<Rightarrow> goerror" where
  "no_listener_err sid = Errorf ''received knock on ID %d that doesn't have a listener'' [FInt (uint sid)]"

definition Accept_route :: "'c res \<Rightarrow> server_muxer \<Rightarrow> 'c accept_route \<times> server_muxer" where
  "Accept_route accepted m =
     (case sm_knockCh m of
        None \<Rightarrow> (ToDefault accepted, m)
      | Some sid \<Rightarrow>
          (let m' = m\<lparr>sm_knockCh := None\<rparr>
           in case sm_acceptChannels m sid of
                None \<Rightarrow> (AcceptFails (no_listener_err sid), m')
              | Some l \<Rightarrow> (ToListener l accepted, m')))"

definition ServerMuxer_Accept_err :: "server_muxer \<Rightarrow> goerror option \<times> server_muxer" where
  "ServerMuxer_Accept_err m =
     (case mux_session m of
        (Some err, m') \<Rightarrow> (Some (Errorf ''error establishing yamux session: %w'' [FErr err]), m')
      | (None, m') \<Rightarrow> (None, m'))"

text \<open>\<open>blockedServerListener\<close>: its \<open>Accept\<close> returns what is sent to it, or the end once it is closed.\<close>

definition ServerListener_Accept :: "'c res option \<Rightarrow> blocked_server_listener \<Rightarrow> 'c res option" where
  "ServerListener_Accept sent l =
     (case sent of
        Some r \<Rightarrow> Some r
      | None \<Rightarrow> (if bsl_doneCh l then Some (Inl io_EOF) else None))"

section \<open>The host's multiplexer\<close>

text \<open>
  A listener of the host waits for a token in \<open>waitCh\<close>, which holds one, and then accepts from the
  session itself. \<open>AcceptKnock\<close> keeps the mutex while it hands over the token: it is \<open>None\<close> while that blocks.
\<close>

record blocked_client_listener =
  bcl_waitCh :: bool
  bcl_doneCh :: bool

record client_muxer =
  cm_listeners :: "blocked_client_listener list"
  cm_acceptListeners :: "stream_id \<Rightarrow> nat option"

definition NewGRPCClientMuxer :: "goerror option \<Rightarrow> goerror option \<Rightarrow> client_muxer res" where
  "NewGRPCClientMuxer dial_err yamux_err =
     (case dial_err of
        Some err \<Rightarrow> Inl err
      | None \<Rightarrow>
          (case yamux_err of
             Some err \<Rightarrow> Inl err
           | None \<Rightarrow> Inr \<lparr>cm_listeners = [], cm_acceptListeners = Map.empty\<rparr>))"

definition newBlockedClientListener :: blocked_client_listener where
  "newBlockedClientListener = \<lparr>bcl_waitCh = False, bcl_doneCh = False\<rparr>"

definition ClientMuxer_Listener :: "stream_id \<Rightarrow> client_muxer \<Rightarrow> nat \<times> client_muxer" where
  "ClientMuxer_Listener sid m =
     (let l = length (cm_listeners m)
      in (l, m\<lparr>cm_listeners := cm_listeners m @ [newBlockedClientListener],
               cm_acceptListeners := (cm_acceptListeners m)(sid \<mapsto> l)\<rparr>))"

definition unblock :: "nat \<Rightarrow> client_muxer \<Rightarrow> client_muxer option" where
  "unblock l m =
     (if bcl_waitCh (cm_listeners m ! l) then None
      else Some (m\<lparr>cm_listeners := (cm_listeners m)[l := (cm_listeners m ! l)\<lparr>bcl_waitCh := True\<rparr>]\<rparr>))"

definition ClientMuxer_AcceptKnock :: "stream_id \<Rightarrow> client_muxer \<Rightarrow> (goerror option \<times> client_muxer) option" where
  "ClientMuxer_AcceptKnock sid m =
     (case cm_acceptListeners m sid of
        None \<Rightarrow> Some (Some (Errorf ''no listener for id %d'' [FInt (uint sid)]), m)
      | Some l \<Rightarrow> map_option (\<lambda>m'. (None, m')) (unblock l m))"

definition ClientMuxer_Dial :: "nat res \<Rightarrow> nat res" where
  "ClientMuxer_Dial open_stream =
     (case open_stream of
        Inl err \<Rightarrow> Inl (Errorf ''error dialling new client stream: %w'' [FErr err])
      | Inr stream \<Rightarrow> Inr stream)"

text \<open>
  The select of \<open>blockedClientListener.Accept\<close>: \<open>Some None\<close> goes on to the session with the token taken,
  \<open>Some (Some err)\<close> returns, and \<open>None\<close> waits. With both channels ready the code may take either; \<open>prefer_done\<close>
  says which.
\<close>

definition ClientListener_select :: "bool \<Rightarrow> nat \<Rightarrow> client_muxer \<Rightarrow> (goerror option \<times> client_muxer) option" where
  "ClientListener_select prefer_done l m =
     (let b = cm_listeners m ! l
      in if bcl_waitCh b \<and> \<not> (prefer_done \<and> bcl_doneCh b)
         then Some (None, m\<lparr>cm_listeners := (cm_listeners m)[l := b\<lparr>bcl_waitCh := False\<rparr>]\<rparr>)
         else if bcl_doneCh b then Some (Some io_EOF, m) else None)"

end
