(* ===== verification/GRPCMuxRouting.thy ===== *)
theory GRPCMuxRouting
  imports GRPCMux
begin

text \<open>
  Which connection reaches which listener when the broker is multiplexed. The two systems below interleave
  the pieces of the code at one end of the session, \<open>GRPCBroker.muxDial\<close> of the peer and the goroutines of
  \<open>listenForKnocks\<close>: at the plugin \<open>GRPCServerMuxer.Accept\<close> distributes all streams, at the host every
  listener accepts from the session itself. An event is a function from states to states that is
  undefined where it cannot happen, so that runs can be evaluated.
\<close>

section \<open>The plugin's end\<close>

text \<open>
  The state: the multiplexer, with the identifiers its listeners were made for; where \<open>Accept\<close> stands; the
  streams on their way, by what they were opened for; the peer's one \<open>muxDial\<close> at a time; the knocks
  that are about to be accepted and the acknowledgements on their way; what each listener and the default
  listener got.
\<close>

type_synonym purpose = "stream_id option"

datatype main_pc = MainAccept | MainHave purpose | MainSend nat purpose | MainFailed goerror

datatype peer_pc = PeerIdle | PeerKnocked stream_id | PeerAcked stream_id

record smux_sys =
  sx_mux :: server_muxer
  sx_made :: "stream_id list"
  sx_main :: main_pc
  sx_wire :: "purpose list"
  sx_peer :: peer_pc
  sx_knocks :: "stream_id list"
  sx_acks :: "stream_id list"
  sx_got :: "(nat \<times> purpose) list"
  sx_default :: "purpose list"

definition smux_init :: "net_addr \<Rightarrow> smux_sys" where
  "smux_init addr =
     \<lparr>sx_mux = acceptSession None None (NewGRPCServerMuxer addr), sx_made = [], sx_main = MainAccept, sx_wire = [],
      sx_peer = PeerIdle, sx_knocks = [], sx_acks = [], sx_got = [], sx_default = []\<rparr>"

text \<open>
  The events: a listener is made or closed; the peer knocks, the knock is accepted and acknowledged, the
  acknowledgement arrives and the peer dials; the peer gives up waiting, an acknowledgement comes too late
  or the dial fails; a stream is opened without a knock; \<open>Accept\<close> takes the next stream, routes it, and
  hands it over to a listener that is not closed.
\<close>

datatype mux_event =
    Listen stream_id | CloseListener nat
  | Knock stream_id | KnockAccepted stream_id | AckArrives | DialStream
  | GiveUp | AckLost stream_id | DialFails | PlainDial
  | MainAccepts | MainRoutes | Deliver

definition main_route :: "purpose \<Rightarrow> smux_sys \<Rightarrow> smux_sys" where
  "main_route p s =
     (case Accept_route (Inr p) (sx_mux s) of
        (ToDefault _, m) \<Rightarrow> s\<lparr>sx_mux := m, sx_main := MainAccept, sx_default := p # sx_default s\<rparr>
      | (ToListener l _, m) \<Rightarrow> s\<lparr>sx_mux := m, sx_main := MainSend l p\<rparr>
      | (AcceptFails err, m) \<Rightarrow> s\<lparr>sx_mux := m, sx_main := MainFailed err\<rparr>)"

definition close_listener :: "nat \<Rightarrow> server_muxer \<Rightarrow> server_muxer" where
  "close_listener l m = m\<lparr>sm_listeners := (sm_listeners m)[l := (sm_listeners m ! l)\<lparr>bsl_doneCh := True\<rparr>]\<rparr>"

fun smux_next :: "mux_event \<Rightarrow> smux_sys \<Rightarrow> smux_sys option" where
  "smux_next (Listen sid) s =
     (case ServerMuxer_Listener (sm_addr (sx_mux s)) sid (sx_mux s) of
        (Inr l, m) \<Rightarrow> Some (s\<lparr>sx_mux := m, sx_made := sx_made s @ [sid]\<rparr>)
      | (Inl err, m) \<Rightarrow> None)"
| "smux_next (CloseListener l) s =
     (if l < length (sx_made s) then Some (s\<lparr>sx_mux := close_listener l (sx_mux s)\<rparr>) else None)"
| "smux_next (Knock sid) s =
     (if sx_peer s = PeerIdle then Some (s\<lparr>sx_peer := PeerKnocked sid, sx_knocks := sid # sx_knocks s\<rparr>) else None)"
| "smux_next (KnockAccepted sid) s =
     (if sid \<in> set (sx_knocks s)
      then map_option (\<lambda>m. s\<lparr>sx_mux := m, sx_knocks := remove1 sid (sx_knocks s), sx_acks := sid # sx_acks s\<rparr>)
             (ServerMuxer_AcceptKnock sid (sx_mux s))
      else None)"
| "smux_next AckArrives s =
     (case sx_peer s of
        PeerKnocked sid \<Rightarrow>
          (if sid \<in> set (sx_acks s) then Some (s\<lparr>sx_peer := PeerAcked sid, sx_acks := remove1 sid (sx_acks s)\<rparr>) else None)
      | _ \<Rightarrow> None)"
| "smux_next DialStream s =
     (case sx_peer s of
        PeerAcked sid \<Rightarrow> Some (s\<lparr>sx_peer := PeerIdle, sx_wire := sx_wire s @ [Some sid]\<rparr>)
      | _ \<Rightarrow> None)"
| "smux_next GiveUp s = (case sx_peer s of PeerKnocked sid \<Rightarrow> Some (s\<lparr>sx_peer := PeerIdle\<rparr>) | _ \<Rightarrow> None)"
| "smux_next (AckLost sid) s =
     (if sid \<in> set (sx_acks s) then Some (s\<lparr>sx_acks := remove1 sid (sx_acks s)\<rparr>) else None)"
| "smux_next DialFails s = (case sx_peer s of PeerAcked sid \<Rightarrow> Some (s\<lparr>sx_peer := PeerIdle\<rparr>) | _ \<Rightarrow> None)"
| "smux_next PlainDial s = Some (s\<lparr>sx_wire := sx_wire s @ [None]\<rparr>)"
| "smux_next MainAccepts s =
     (case (sx_main s, sx_wire s) of
        (MainAccept, p # w) \<Rightarrow> Some (s\<lparr>sx_main := MainHave p, sx_wire := w\<rparr>)
      | _ \<Rightarrow> None)"
| "smux_next MainRoutes s = (case sx_main s of MainHave p \<Rightarrow> Some (main_route p s) | _ \<Rightarrow> None)"
| "smux_next Deliver s =
     (case sx_main s of
        MainSend l p \<Rightarrow>
          (if bsl_doneCh (sm_listeners (sx_mux s) ! l) then None
           else Some (s\<lparr>sx_main := MainAccept, sx_got := (l, p) # sx_got s\<rparr>))
      | _ \<Rightarrow> None)"

text \<open>
  An orderly peer waits for its acknowledgements and dials after them; it knocks only when its plain
  connections have been accepted (the first one carries the knocks), opens no further plain connection
  once it has begun to knock, and knocks only where a listener was made before.
\<close>

definition under_way :: "smux_sys \<Rightarrow> purpose list" where
  "under_way s = (case sx_main s of MainHave p \<Rightarrow> [p] | _ \<Rightarrow> []) @ sx_wire s"

fun orderly :: "mux_event \<Rightarrow> smux_sys \<Rightarrow> bool" where
  "orderly (Knock sid) s \<longleftrightarrow> None \<notin> set (under_way s)"
| "orderly (KnockAccepted sid) s \<longleftrightarrow> sm_acceptChannels (sx_mux s) sid \<noteq> None"
| "orderly GiveUp s \<longleftrightarrow> False"
| "orderly (AckLost sid) s \<longleftrightarrow> False"
| "orderly DialFails s \<longleftrightarrow> False"
| "orderly PlainDial s \<longleftrightarrow> sx_peer s = PeerIdle \<and> sm_knockCh (sx_mux s) = None"
| "orderly _ s \<longleftrightarrow> True"

inductive smux_reach :: "bool \<Rightarrow> smux_sys \<Rightarrow> bool" for only_orderly :: bool where
  smux_start: "smux_reach only_orderly (smux_init addr)"
| smux_step: "smux_reach only_orderly s \<Longrightarrow> smux_next ev s = Some s' \<Longrightarrow> \<not> only_orderly \<or> orderly ev s \<Longrightarrow> smux_reach only_orderly s'"

fun smux_run :: "mux_event list \<Rightarrow> smux_sys \<Rightarrow> smux_sys option" where
  "smux_run [] s = Some s"
| "smux_run (ev # evs) s = (case smux_next ev s of None \<Rightarrow> None | Some s' \<Rightarrow> smux_run evs s')"

lemma smux_run_reach: "smux_reach False s \<Longrightarrow> smux_run evs s = Some s' \<Longrightarrow> smux_reach False s'"
  by (induction evs arbitrary: s) (auto split: option.splits intro: smux_step)

section \<open>The invariant of orderly runs\<close>

text \<open>The table of listeners, and the phases a brokered connection goes through.\<close>

definition table_ok :: "smux_sys \<Rightarrow> bool" where
  "table_ok s \<longleftrightarrow> length (sm_listeners (sx_mux s)) = length (sx_made s) \<and> sm_session (sx_mux s) = SessionClosed True
     \<and> (\<forall>sid l. sm_acceptChannels (sx_mux s) sid = Some l \<longrightarrow> l < length (sx_made s) \<and> sx_made s ! l = sid)"

definition phase_ok :: "purpose list \<Rightarrow> stream_id option \<Rightarrow> peer_pc \<Rightarrow> stream_id list \<Rightarrow> stream_id list \<Rightarrow> bool" where
  "phase_ok ways knock peer knocks acks \<longleftrightarrow>
     (case knock of
        None \<Rightarrow> set ways \<subseteq> {None} \<and> acks = []
          \<and> (peer = PeerIdle \<and> knocks = [] \<or> (\<exists>sid. peer = PeerKnocked sid \<and> knocks = [sid] \<and> ways = []))
      | Some sid \<Rightarrow>
          ways = [] \<and> knocks = [] \<and> (peer = PeerKnocked sid \<and> acks = [sid] \<or> peer = PeerAcked sid \<and> acks = [])
          \<or> ways = [Some sid] \<and> acks = []
             \<and> (peer = PeerIdle \<and> knocks = [] \<or> (\<exists>sid'. peer = PeerKnocked sid' \<and> knocks = [sid'])))"

definition delivered_ok :: "smux_sys \<Rightarrow> bool" where
  "delivered_ok s \<longleftrightarrow> (\<forall>(l, p) \<in> set (sx_got s). l < length (sx_made s) \<and> p = Some (sx_made s ! l)) \<and> set (sx_default s) \<subseteq> {None}
     \<and> (case sx_main s of MainSend l p \<Rightarrow> l < length (sx_made s) \<and> p = Some (sx_made s ! l) | MainFailed err \<Rightarrow> False | _ \<Rightarrow> True)"

definition smux_ok :: "smux_sys \<Rightarrow> bool" where
  "smux_ok s \<longleftrightarrow> table_ok s \<and> delivered_ok s
     \<and> phase_ok (under_way s) (sm_knockCh (sx_mux s)) (sx_peer s) (sx_knocks s) (sx_acks s)
     \<and> (\<forall>sid. sm_knockCh (sx_mux s) = Some sid \<longrightarrow> sm_acceptChannels (sx_mux s) sid \<noteq> None)"

lemma smux_ok_init: "smux_ok (smux_init addr)"
  by (simp add: smux_ok_def smux_init_def table_ok_def delivered_ok_def phase_ok_def under_way_def
      acceptSession_def NewGRPCServerMuxer_def)

lemmas smux_ok_defs = smux_ok_def table_ok_def delivered_ok_def under_way_def

lemma only_None: "set w \<subseteq> {None} \<Longrightarrow> None \<notin> set w \<Longrightarrow> w = []"
  by (cases w) auto

lemma ok_listen:
  assumes "smux_ok s" "smux_next (Listen sid) s = Some s'"
  shows "smux_ok s'"
proof -
  let ?m = "sx_mux s" let ?n = "length (sm_listeners (sx_mux s))"
  have t: "table_ok s" "delivered_ok s" using assms(1) by (simp_all add: smux_ok_def)
  then have s': "s' = s\<lparr>sx_mux := ?m\<lparr>sm_listeners := sm_listeners ?m @ [\<lparr>bsl_addr = sm_addr ?m, bsl_doneCh = False\<rparr>],
      sm_acceptChannels := (sm_acceptChannels ?m)(sid \<mapsto> ?n)\<rparr>, sx_made := sx_made s @ [sid]\<rparr>"
    using assms(2) by (simp add: ServerMuxer_Listener_def mux_session_def table_ok_def Let_def)
  have "table_ok s'" using t(1) by (auto simp: s' table_ok_def nth_append intro: less_SucI)
  moreover have "delivered_ok s'" using t(2)
    by (cases "sx_main s") (fastforce simp: s' delivered_ok_def nth_append)+
  moreover have "under_way s' = under_way s" by (simp add: s' under_way_def)
  ultimately show ?thesis using assms(1) by (simp add: smux_ok_def s')
qed

lemma ok_close: "smux_ok s \<Longrightarrow> smux_next (CloseListener l) s = Some s' \<Longrightarrow> smux_ok s'"
  by (auto simp: smux_ok_defs close_listener_def split: if_splits main_pc.splits)

lemma ok_knock: "smux_ok s \<Longrightarrow> smux_next (Knock sid) s = Some s' \<Longrightarrow> orderly (Knock sid) s \<Longrightarrow> smux_ok s'"
  by (cases "sm_knockCh (sx_mux s)"; cases "sx_main s") (auto simp: smux_ok_defs phase_ok_def dest: only_None split: if_splits)

lemma ok_knock_accepted:
  "smux_ok s \<Longrightarrow> smux_next (KnockAccepted sid) s = Some s' \<Longrightarrow> orderly (KnockAccepted sid) s \<Longrightarrow> smux_ok s'"
  by (cases "sm_knockCh (sx_mux s)"; cases "sx_main s")
    (auto simp: smux_ok_defs phase_ok_def ServerMuxer_AcceptKnock_def split: if_splits)

lemma ok_ack: "smux_ok s \<Longrightarrow> smux_next AckArrives s = Some s' \<Longrightarrow> smux_ok s'"
  by (cases "sm_knockCh (sx_mux s)"; cases "sx_main s"; cases "sx_peer s")
    (auto simp: smux_ok_defs phase_ok_def split: if_splits)

lemma ok_dial: "smux_ok s \<Longrightarrow> smux_next DialStream s = Some s' \<Longrightarrow> smux_ok s'"
  by (cases "sm_knockCh (sx_mux s)"; cases "sx_main s"; cases "sx_peer s") (auto simp: smux_ok_defs phase_ok_def)

lemma ok_plain: "smux_ok s \<Longrightarrow> smux_next PlainDial s = Some s' \<Longrightarrow> orderly PlainDial s \<Longrightarrow> smux_ok s'"
  by (cases "sx_main s") (auto simp: smux_ok_defs phase_ok_def)

lemma ok_accepts: "smux_ok s \<Longrightarrow> smux_next MainAccepts s = Some s' \<Longrightarrow> smux_ok s'"
  by (cases "sx_main s"; cases "sx_wire s") (auto simp: smux_ok_defs)

lemma ok_routes: "smux_ok s \<Longrightarrow> smux_next MainRoutes s = Some s' \<Longrightarrow> smux_ok s'"
  by (cases "sm_knockCh (sx_mux s)"; cases "sx_main s")
    (auto simp: smux_ok_defs phase_ok_def main_route_def Accept_route_def Let_def)

lemma ok_deliver: "smux_ok s \<Longrightarrow> smux_next Deliver s = Some s' \<Longrightarrow> smux_ok s'"
  by (cases "sx_main s") (auto simp: smux_ok_defs split: if_splits)

lemma smux_ok_next:
  assumes "smux_ok s" "smux_next ev s = Some s'" "orderly ev s"
  shows "smux_ok s'"
proof (cases ev)
  case (Listen sid)
  show ?thesis using assms(1,2) unfolding Listen by (rule ok_listen)
next
  case (CloseListener l)
  show ?thesis using assms(1,2) unfolding CloseListener by (rule ok_close)
next
  case (Knock sid)
  show ?thesis using assms unfolding Knock by (rule ok_knock)
next
  case (KnockAccepted sid)
  show ?thesis using assms unfolding KnockAccepted by (rule ok_knock_accepted)
next
  case AckArrives
  show ?thesis using assms(1,2) unfolding AckArrives by (rule ok_ack)
next
  case DialStream
  show ?thesis using assms(1,2) unfolding DialStream by (rule ok_dial)
next
  case PlainDial
  show ?thesis using assms unfolding PlainDial by (rule ok_plain)
next
  case MainAccepts
  show ?thesis using assms(1,2) unfolding MainAccepts by (rule ok_accepts)
next
  case MainRoutes
  show ?thesis using assms(1,2) unfolding MainRoutes by (rule ok_routes)
next
  case Deliver
  show ?thesis using assms(1,2) unfolding Deliver by (rule ok_deliver)
qed (use assms(3) in simp_all)

lemma reach_smux_ok: "smux_reach True s \<Longrightarrow> smux_ok s"
  by (induction rule: smux_reach.induct) (auto intro: smux_ok_init smux_ok_next)

section \<open>Two ways to get stuck\<close>

text \<open>
  A knock that was accepted after its peer gave up stays in \<open>knockCh\<close>: nothing but a stream without a
  knock can take it out.
\<close>

definition jammed :: "smux_sys \<Rightarrow> bool" where
  "jammed s \<longleftrightarrow> sm_knockCh (sx_mux s) \<noteq> None \<and> sx_main s = MainAccept \<and> sx_wire s = [] \<and> sx_acks s = []
     \<and> (\<forall>sid. sx_peer s \<noteq> PeerAcked sid) \<and> sx_got s = []"

lemma jammed_next: "jammed s \<Longrightarrow> smux_next ev s = Some s' \<Longrightarrow> ev \<noteq> PlainDial \<Longrightarrow> jammed s'"
  by (cases ev; cases "sx_peer s")
    (auto simp: jammed_def ServerMuxer_Listener_def mux_session_def close_listener_def ServerMuxer_AcceptKnock_def Let_def
      split: if_splits session_state.splits)

lemma jammed_run: "jammed s \<Longrightarrow> smux_run evs s = Some s' \<Longrightarrow> PlainDial \<notin> set evs \<Longrightarrow> jammed s'"
proof (induction evs arbitrary: s)
  case (Cons ev evs)
  then obtain s1 where s1: "smux_next ev s = Some s1" "smux_run evs s1 = Some s'" by (auto split: option.splits)
  with Cons.prems have "jammed s1" by (intro jammed_next [OF _ s1(1)]) auto
  with Cons s1 show ?case by simp
qed simp

text \<open>A stream for a listener that is closed is never taken, and \<open>Accept\<close> waits with it.\<close>

definition stuck :: "nat \<Rightarrow> purpose \<Rightarrow> smux_sys \<Rightarrow> bool" where
  "stuck l p s \<longleftrightarrow> sx_main s = MainSend l p \<and> l < length (sm_listeners (sx_mux s)) \<and> bsl_doneCh (sm_listeners (sx_mux s) ! l)"

lemma close_keeps [simp]:
  "l < length xs \<Longrightarrow> bsl_doneCh (xs ! l) \<Longrightarrow> bsl_doneCh (xs[k := (xs ! k)\<lparr>bsl_doneCh := True\<rparr>] ! l)"
  by (cases "k = l") simp_all

lemma stuck_next: "stuck l p s \<Longrightarrow> smux_next ev s = Some s' \<Longrightarrow> stuck l p s'"
  by (cases ev; cases "sx_peer s")
    (auto simp: stuck_def ServerMuxer_Listener_def mux_session_def close_listener_def ServerMuxer_AcceptKnock_def Let_def
      nth_append split: if_splits session_state.splits option.splits)

lemma stuck_run: "stuck l p s \<Longrightarrow> smux_run evs s = Some s' \<Longrightarrow> stuck l p s'"
  by (induction evs arbitrary: s) (auto split: option.splits dest: stuck_next)

lemmas smux_eval = smux_init_def acceptSession_def NewGRPCServerMuxer_def ServerMuxer_Listener_def mux_session_def
  ServerMuxer_AcceptKnock_def main_route_def Accept_route_def close_listener_def Let_def

section \<open>Properties of the plugin's end\<close>

text \<open>
  C14: Routing at the plugin. As long as the peer is orderly, every stream that a listener of the multiplexer
  gets was dialled for the identifier of that listener, the default listener gets exactly the streams that
  were opened without a knock, and \<open>Accept\<close> does not fail; and an orderly peer can always connect: in a
  state where nothing is under way, a knock and a dial for an open listener reach it.
\<close>
theorem mux_routing:
  assumes "smux_reach True s"
  shows "(\<forall>(l, p) \<in> set (sx_got s). p = Some (sx_made s ! l)) \<and> set (sx_default s) \<subseteq> {None} \<and> (\<forall>err. sx_main s \<noteq> MainFailed err)
    \<and> (sx_peer s = PeerIdle \<and> sm_knockCh (sx_mux s) = None \<and> sx_main s = MainAccept \<and> sx_wire s = []
        \<and> sm_acceptChannels (sx_mux s) sid = Some l \<and> \<not> bsl_doneCh (sm_listeners (sx_mux s) ! l)
       \<longrightarrow> (\<exists>s'. smux_run [Knock sid, KnockAccepted sid, AckArrives, DialStream, MainAccepts, MainRoutes, Deliver] s = Some s'
             \<and> (l, Some sid) \<in> set (sx_got s')))"
proof -
  have "smux_ok s" using assms by (rule reach_smux_ok)
  then have d: "delivered_ok s" by (simp add: smux_ok_def)
  then have "sx_main s \<noteq> MainFailed err" for err by (auto simp: delivered_ok_def)
  with d show ?thesis
    by (auto simp: delivered_ok_def ServerMuxer_AcceptKnock_def main_route_def Accept_route_def Let_def)
qed

text \<open>
  C38: A knock that is accepted after its peer stopped waiting blocks the broker for good. After such a knock,
  whatever the peer and the plugin do, no knock is acknowledged any more and no listener ever gets a
  connection, unless the peer opens a stream without a knock, which then goes to the wrong listener.
\<close>
theorem knock_jam:
  "\<exists>s. smux_run [Listen 1, Knock 1, GiveUp, KnockAccepted 1, AckLost 1] (smux_init addr) = Some s \<and> sx_peer s = PeerIdle
     \<and> \<not> (\<exists>evs s'. smux_run evs s = Some s' \<and> PlainDial \<notin> set evs \<and> sx_got s' \<noteq> [])
     \<and> \<not> (\<exists>evs s'. smux_run evs s = Some s' \<and> PlainDial \<notin> set evs \<and> (\<exists>sid. sx_peer s' = PeerAcked sid))
     \<and> (\<exists>s'. smux_run [PlainDial, MainAccepts, MainRoutes, Deliver] s = Some s' \<and> sx_got s' = [(0, None)])"
proof -
  obtain s where s: "smux_run [Listen 1, Knock 1, GiveUp, KnockAccepted 1, AckLost 1] (smux_init addr) = Some s"
    "sx_peer s = PeerIdle" "jammed s" "\<exists>s'. smux_run [PlainDial, MainAccepts, MainRoutes, Deliver] s = Some s' \<and> sx_got s' = [(0, None)]"
    by (simp add: smux_eval jammed_def)
  then have "\<not> (\<exists>evs s'. smux_run evs s = Some s' \<and> PlainDial \<notin> set evs \<and> sx_got s' \<noteq> [])
     \<and> \<not> (\<exists>evs s'. smux_run evs s = Some s' \<and> PlainDial \<notin> set evs \<and> (\<exists>sid. sx_peer s' = PeerAcked sid))"
    by (meson jammed_run jammed_def)
  with s show ?thesis by blast
qed

text \<open>
  Closing a brokered listener at the wrong moment stops the plugin from accepting anything: when the
  listener is closed after its knock was acknowledged, \<open>Accept\<close> waits for ever to hand the stream over to it,
  also with an orderly peer, and takes no further stream, not even for the default listener.
\<close>
theorem closed_listener_jam:
  "\<exists>s. smux_run [Listen 1, Knock 1, KnockAccepted 1, AckArrives, CloseListener 0, DialStream, MainAccepts, MainRoutes]
         (smux_init addr) = Some s
     \<and> \<not> (\<exists>evs s'. smux_run evs s = Some s' \<and> sx_main s' \<noteq> MainSend 0 (Some 1))"
proof -
  obtain s where s: "smux_run [Listen 1, Knock 1, KnockAccepted 1, AckArrives, CloseListener 0, DialStream, MainAccepts, MainRoutes]
         (smux_init addr) = Some s" "stuck 0 (Some 1) s"
    by (simp add: smux_eval stuck_def)
  then have "\<not> (\<exists>evs s'. smux_run evs s = Some s' \<and> sx_main s' \<noteq> MainSend 0 (Some 1))"
    by (meson stuck_run stuck_def)
  with s show ?thesis by blast
qed

text \<open>
  A knock that is accepted before its listener is registered, which the order of the two in
  \<open>GRPCBroker.Accept\<close> allows, makes \<open>Accept\<close> of the main listener fail.
\<close>
lemma early_knock_fails:
  "\<exists>s. smux_run [Knock 1, KnockAccepted 1, AckArrives, DialStream, MainAccepts, MainRoutes] (smux_init addr) = Some s
     \<and> sx_main s = MainFailed (no_listener_err 1)"
  by (simp add: smux_eval)

section \<open>The host's end\<close>

text \<open>
  At the host every listener that got its token accepts from the session itself; \<open>cx_accepting\<close> are the
  listeners that do. A stream is known by the identifier its dialer knocked for. The peer waits for its
  acknowledgements; a knock without a listener is answered with an error.
\<close>

record cmux_sys =
  cx_mux :: client_muxer
  cx_made :: "stream_id list"
  cx_accepting :: "nat list"
  cx_wire :: "stream_id list"
  cx_peer :: peer_pc
  cx_knocks :: "stream_id list"
  cx_acks :: "stream_id list"
  cx_got :: "(nat \<times> stream_id) list"

definition cmux_init :: cmux_sys where
  "cmux_init =
     \<lparr>cx_mux = \<lparr>cm_listeners = [], cm_acceptListeners = Map.empty\<rparr>, cx_made = [], cx_accepting = [], cx_wire = [],
      cx_peer = PeerIdle, cx_knocks = [], cx_acks = [], cx_got = []\<rparr>"

datatype host_event =
    HListen stream_id | HKnock stream_id | HKnockAccepted stream_id | HAckArrives | HDialStream | HToken nat | HAccept nat

fun cmux_next :: "host_event \<Rightarrow> cmux_sys \<Rightarrow> cmux_sys option" where
  "cmux_next (HListen sid) s =
     (case ClientMuxer_Listener sid (cx_mux s) of
        (l, m) \<Rightarrow> Some (s\<lparr>cx_mux := m, cx_made := cx_made s @ [sid]\<rparr>))"
| "cmux_next (HKnock sid) s =
     (if cx_peer s = PeerIdle then Some (s\<lparr>cx_peer := PeerKnocked sid, cx_knocks := sid # cx_knocks s\<rparr>) else None)"
| "cmux_next (HKnockAccepted sid) s =
     (if sid \<in> set (cx_knocks s)
      then case ClientMuxer_AcceptKnock sid (cx_mux s) of
             None \<Rightarrow> None
           | Some (None, m) \<Rightarrow> Some (s\<lparr>cx_mux := m, cx_knocks := remove1 sid (cx_knocks s), cx_acks := sid # cx_acks s\<rparr>)
           | Some (Some err, m) \<Rightarrow> Some (s\<lparr>cx_mux := m, cx_knocks := remove1 sid (cx_knocks s), cx_peer := PeerIdle\<rparr>)
      else None)"
| "cmux_next HAckArrives s =
     (case cx_peer s of
        PeerKnocked sid \<Rightarrow>
          (if sid \<in> set (cx_acks s) then Some (s\<lparr>cx_peer := PeerAcked sid, cx_acks := remove1 sid (cx_acks s)\<rparr>) else None)
      | _ \<Rightarrow> None)"
| "cmux_next HDialStream s =
     (case cx_peer s of
        PeerAcked sid \<Rightarrow> Some (s\<lparr>cx_peer := PeerIdle, cx_wire := cx_wire s @ [sid]\<rparr>)
      | _ \<Rightarrow> None)"
| "cmux_next (HToken l) s =
     (if l < length (cx_made s) \<and> l \<notin> set (cx_accepting s)
      then case ClientListener_select False l (cx_mux s) of
             Some (None, m) \<Rightarrow> Some (s\<lparr>cx_mux := m, cx_accepting := l # cx_accepting s\<rparr>)
           | _ \<Rightarrow> None
      else None)"
| "cmux_next (HAccept l) s =
     (case cx_wire s of
        [] \<Rightarrow> None
      | sid # w \<Rightarrow>
          (if l \<in> set (cx_accepting s)
           then Some (s\<lparr>cx_accepting := remove1 l (cx_accepting s), cx_wire := w, cx_got := (l, sid) # cx_got s\<rparr>)
           else None))"

text \<open>Listeners are prompt when each has taken its stream before the next knock is accepted.\<close>

fun prompt :: "host_event \<Rightarrow> cmux_sys \<Rightarrow> bool" where
  "prompt (HKnockAccepted sid) s \<longleftrightarrow>
     cx_accepting s = [] \<and> (\<forall>b \<in> set (cm_listeners (cx_mux s)). \<not> bcl_waitCh b)"
| "prompt _ s \<longleftrightarrow> True"

inductive cmux_reach :: "bool \<Rightarrow> cmux_sys \<Rightarrow> bool" for only_prompt :: bool where
  cmux_start: "cmux_reach only_prompt cmux_init"
| cmux_step: "cmux_reach only_prompt s \<Longrightarrow> cmux_next ev s = Some s' \<Longrightarrow> \<not> only_prompt \<or> prompt ev s \<Longrightarrow> cmux_reach only_prompt s'"

fun cmux_run :: "host_event list \<Rightarrow> cmux_sys \<Rightarrow> cmux_sys option" where
  "cmux_run [] s = Some s"
| "cmux_run (ev # evs) s = (case cmux_next ev s of None \<Rightarrow> None | Some s' \<Rightarrow> cmux_run evs s')"

text \<open>
  The invariant: the listener that was let in last, if it has not got its stream yet, is the only one with
  a token or accepting, and it was made for the identifier that the peer is connecting to.
\<close>

definition tokens :: "client_muxer \<Rightarrow> nat set" where
  "tokens m = {l. l < length (cm_listeners m) \<and> bcl_waitCh (cm_listeners m ! l)}"

definition host_table_ok :: "cmux_sys \<Rightarrow> bool" where
  "host_table_ok s \<longleftrightarrow> length (cm_listeners (cx_mux s)) = length (cx_made s)
     \<and> (\<forall>sid l. cm_acceptListeners (cx_mux s) sid = Some l \<longrightarrow> l < length (cx_made s) \<and> cx_made s ! l = sid)
     \<and> (\<forall>(l, sid) \<in> set (cx_got s). l < length (cx_made s) \<and> sid = cx_made s ! l)"

definition let_in :: "nat option \<Rightarrow> cmux_sys \<Rightarrow> bool" where
  "let_in x s \<longleftrightarrow>
     (case x of
        None \<Rightarrow> tokens (cx_mux s) = {} \<and> cx_accepting s = []
      | Some l \<Rightarrow> l < length (cx_made s) \<and> (tokens (cx_mux s) = {l} \<and> cx_accepting s = [] \<or> tokens (cx_mux s) = {} \<and> cx_accepting s = [l]))"

definition host_phase :: "stream_id option \<Rightarrow> cmux_sys \<Rightarrow> bool" where
  "host_phase x s \<longleftrightarrow>
     (case x of
        None \<Rightarrow> cx_wire s = [] \<and> cx_acks s = []
          \<and> (cx_peer s = PeerIdle \<and> cx_knocks s = [] \<or> (\<exists>sid. cx_peer s = PeerKnocked sid \<and> cx_knocks s = [sid]))
      | Some sid \<Rightarrow>
          cx_wire s = [] \<and> cx_knocks s = [] \<and> (cx_peer s = PeerKnocked sid \<and> cx_acks s = [sid] \<or> cx_peer s = PeerAcked sid \<and> cx_acks s = [])
          \<or> cx_wire s = [sid] \<and> cx_acks s = []
             \<and> (cx_peer s = PeerIdle \<and> cx_knocks s = [] \<or> (\<exists>sid'. cx_peer s = PeerKnocked sid' \<and> cx_knocks s = [sid'])))"

definition cmux_ok :: "cmux_sys \<Rightarrow> bool" where
  "cmux_ok s \<longleftrightarrow> host_table_ok s \<and> (\<exists>x. let_in x s \<and> host_phase (map_option ((!) (cx_made s)) x) s)"

lemma tokens_empty: "(\<forall>b \<in> set (cm_listeners m). \<not> bcl_waitCh b) \<longleftrightarrow> tokens m = {}"
  by (auto simp: tokens_def all_set_conv_all_nth)

lemma tokens_append:
  "tokens (m\<lparr>cm_listeners := cm_listeners m @ [newBlockedClientListener], cm_acceptListeners := t\<rparr>) = tokens m"
  by (auto simp: tokens_def nth_append newBlockedClientListener_def less_Suc_eq)

lemma tokens_unblock: "unblock l m = Some m' \<Longrightarrow> l < length (cm_listeners m) \<Longrightarrow> tokens m' = insert l (tokens m)"
  by (auto simp: tokens_def unblock_def nth_list_update split: if_splits)

lemma tokens_select:
  "ClientListener_select False l m = Some (None, m') \<Longrightarrow> l < length (cm_listeners m) \<Longrightarrow> l \<in> tokens m \<and> tokens m' = tokens m - {l}"
  by (auto simp: tokens_def ClientListener_select_def Let_def nth_list_update split: if_splits)

lemma cmux_okI: "host_table_ok s \<Longrightarrow> let_in x s \<Longrightarrow> host_phase (map_option ((!) (cx_made s)) x) s \<Longrightarrow> cmux_ok s"
  by (auto simp: cmux_ok_def)

lemma cmux_okE:
  assumes "cmux_ok s"
  obtains (quiet) "host_table_ok s" "tokens (cx_mux s) = {}" "cx_accepting s = []" "host_phase None s"
  | (inside) l where "host_table_ok s" "l < length (cx_made s)" "host_phase (Some (cx_made s ! l)) s"
      "tokens (cx_mux s) = {l} \<and> cx_accepting s = [] \<or> tokens (cx_mux s) = {} \<and> cx_accepting s = [l]"
  using assms by (auto simp: cmux_ok_def let_in_def split: option.splits)

lemma host_listen:
  assumes "cmux_ok s" "cmux_next (HListen sid) s = Some s'"
  shows "cmux_ok s'"
proof -
  obtain x where x: "host_table_ok s" "let_in x s" "host_phase (map_option ((!) (cx_made s)) x) s"
    using assms(1) by (auto simp: cmux_ok_def)
  let ?m = "cx_mux s"
  have s': "s' = s\<lparr>cx_mux := ?m\<lparr>cm_listeners := cm_listeners ?m @ [newBlockedClientListener],
      cm_acceptListeners := (cm_acceptListeners ?m)(sid \<mapsto> length (cm_listeners ?m))\<rparr>, cx_made := cx_made s @ [sid]\<rparr>"
    using assms(2) by (simp add: ClientMuxer_Listener_def Let_def)
  have "host_table_ok s'" using x(1) by (fastforce simp: s' host_table_ok_def nth_append)
  moreover have "let_in x s'" using x(2) by (auto simp: s' let_in_def tokens_append split: option.splits)
  moreover have "map_option ((!) (cx_made s')) x = map_option ((!) (cx_made s)) x"
    using x(2) by (cases x) (simp_all add: s' let_in_def nth_append)
  moreover have "host_phase y s' = host_phase y s" for y by (cases y) (simp_all add: s' host_phase_def)
  ultimately show ?thesis using x(3) by (intro cmux_okI [of s' x]) simp_all
qed

text \<open>The events that only move the peer.\<close>

definition same_host :: "cmux_sys \<Rightarrow> cmux_sys \<Rightarrow> bool" where
  "same_host s s' \<longleftrightarrow> cx_mux s' = cx_mux s \<and> cx_made s' = cx_made s \<and> cx_accepting s' = cx_accepting s \<and> cx_got s' = cx_got s"

lemma host_peer:
  assumes "cmux_ok s" "same_host s s'" "\<And>x. host_phase x s \<Longrightarrow> host_phase x s'"
  shows "cmux_ok s'"
proof -
  obtain x where x: "host_table_ok s" "let_in x s" "host_phase (map_option ((!) (cx_made s)) x) s"
    using assms(1) by (auto simp: cmux_ok_def)
  with assms(2,3) show ?thesis
    by (intro cmux_okI [of s' x]) (simp_all add: same_host_def host_table_ok_def let_in_def split: option.splits)
qed

lemma host_knock: "cmux_ok s \<Longrightarrow> cmux_next (HKnock sid) s = Some s' \<Longrightarrow> cmux_ok s'"
  by (erule host_peer) (auto simp: same_host_def host_phase_def split: if_splits option.splits)

lemma host_ack: "cmux_ok s \<Longrightarrow> cmux_next HAckArrives s = Some s' \<Longrightarrow> cmux_ok s'"
  by (erule host_peer) (auto simp: same_host_def host_phase_def split: if_splits option.splits peer_pc.splits)

lemma host_dial: "cmux_ok s \<Longrightarrow> cmux_next HDialStream s = Some s' \<Longrightarrow> cmux_ok s'"
  by (erule host_peer) (auto simp: same_host_def host_phase_def split: option.splits peer_pc.splits)

lemma host_token:
  assumes "cmux_ok s" "cmux_next (HToken l) s = Some s'"
  shows "cmux_ok s'"
proof -
  obtain m where m: "l < length (cx_made s)" "ClientListener_select False l (cx_mux s) = Some (None, m)"
    "s' = s\<lparr>cx_mux := m, cx_accepting := l # cx_accepting s\<rparr>"
    using assms(2) by (auto split: if_splits option.splits)
  from assms(1) have len: "length (cm_listeners (cx_mux s)) = length (cx_made s)" by (auto simp: cmux_ok_def host_table_ok_def)
  have t: "l \<in> tokens (cx_mux s)" "tokens m = tokens (cx_mux s) - {l}" using tokens_select [OF m(2)] m(1) len by simp_all
  have keep: "cm_acceptListeners m = cm_acceptListeners (cx_mux s)" "length (cm_listeners m) = length (cm_listeners (cx_mux s))"
    using m(2) by (auto simp: ClientListener_select_def Let_def split: if_splits)
  from assms(1) show ?thesis
  proof (cases rule: cmux_okE)
    case (inside k)
    then have "k = l" using t by auto
    with inside t keep m show ?thesis
      by (intro cmux_okI [of s' "Some l"]) (auto simp: host_table_ok_def let_in_def host_phase_def)
  qed (use t in simp)
qed

lemma host_accept:
  assumes "cmux_ok s" "cmux_next (HAccept l) s = Some s'"
  shows "cmux_ok s'"
proof -
  obtain sid w where w: "cx_wire s = sid # w" "l \<in> set (cx_accepting s)"
    "s' = s\<lparr>cx_accepting := remove1 l (cx_accepting s), cx_wire := w, cx_got := (l, sid) # cx_got s\<rparr>"
    using assms(2) by (auto split: list.splits if_splits)
  from assms(1) show ?thesis
  proof (cases rule: cmux_okE)
    case (inside k)
    then have k: "k = l" "tokens (cx_mux s) = {}" "cx_accepting s = [l]" using w by auto
    with inside w have "sid = cx_made s ! l" "w = []" by (auto simp: host_phase_def)
    with inside k w show ?thesis
      by (intro cmux_okI [of s' None]) (auto simp: host_table_ok_def let_in_def host_phase_def)
  qed (use w in simp)
qed

lemma host_knock_accepted:
  assumes "cmux_ok s" "cmux_next (HKnockAccepted sid) s = Some s'" "prompt (HKnockAccepted sid) s"
  shows "cmux_ok s'"
proof -
  have q: "tokens (cx_mux s) = {}" "cx_accepting s = []" using assms(3) by (auto simp: tokens_empty)
  have k: "sid \<in> set (cx_knocks s)" using assms(2) by (auto split: if_splits)
  from assms(1) show ?thesis
  proof (cases rule: cmux_okE)
    case quiet
    then have p: "cx_peer s = PeerKnocked sid" "cx_knocks s = [sid]" "cx_wire s = []" "cx_acks s = []"
      using k by (auto simp: host_phase_def)
    show ?thesis
    proof (cases "cm_acceptListeners (cx_mux s) sid")
      case None
      with p assms(2) have "s' = s\<lparr>cx_knocks := [], cx_peer := PeerIdle\<rparr>" by (simp add: ClientMuxer_AcceptKnock_def)
      with quiet p show ?thesis by (intro cmux_okI [of s' None]) (simp_all add: host_table_ok_def let_in_def host_phase_def)
    next
      case (Some l)
      then have l: "l < length (cx_made s)" "cx_made s ! l = sid" "length (cm_listeners (cx_mux s)) = length (cx_made s)"
        using quiet(1) by (auto simp: host_table_ok_def)
      obtain m where m: "unblock l (cx_mux s) = Some m" "s' = s\<lparr>cx_mux := m, cx_knocks := [], cx_acks := [sid]\<rparr>"
        using assms(2) p Some by (auto simp: ClientMuxer_AcceptKnock_def split: option.splits)
      have "tokens m = {l}" using tokens_unblock [OF m(1)] l q by simp
      moreover have "host_table_ok s'"
        using quiet(1) m by (auto simp: host_table_ok_def unblock_def split: if_splits)
      ultimately show ?thesis using m(2) l p quiet by (intro cmux_okI [of s' "Some l"]) (simp_all add: let_in_def host_phase_def)
    qed
  qed (use q in auto)
qed

lemma cmux_ok_next:
  assumes "cmux_ok s" "cmux_next ev s = Some s'" "prompt ev s"
  shows "cmux_ok s'"
  using assms by (cases ev) (blast intro: host_listen host_knock host_knock_accepted host_ack host_dial host_token host_accept)+

lemma reach_cmux_ok: "cmux_reach True s \<Longrightarrow> cmux_ok s"
proof (induction rule: cmux_reach.induct)
  case cmux_start
  show ?case by (rule cmux_okI [of _ None]) (simp_all add: cmux_init_def host_table_ok_def let_in_def host_phase_def tokens_def)
qed (blast intro: cmux_ok_next)

section \<open>Properties of the host's end\<close>

text \<open>
  C30: Routing at the host. When every listener takes its stream before the next knock is accepted, each
  listener gets only streams that were dialled for its identifier. Without that, although the peer is
  orderly, a stream can reach the wrong listener: the listener of a second knock accepts from the session
  before the listener of the first one does, and gets its stream.
\<close>
theorem host_routing:
  "(cmux_reach True s \<longrightarrow> (\<forall>(l, sid) \<in> set (cx_got s). sid = cx_made s ! l))
   \<and> (\<exists>s'. cmux_run [HListen 1, HListen 2, HKnock 1, HKnockAccepted 1, HAckArrives, HDialStream,
                     HKnock 2, HKnockAccepted 2, HToken 1, HAccept 1] cmux_init = Some s'
         \<and> cx_made s' = [1, 2] \<and> cx_got s' = [(1, 1)])"
proof
  show "cmux_reach True s \<longrightarrow> (\<forall>(l, sid) \<in> set (cx_got s). sid = cx_made s ! l)"
    using reach_cmux_ok by (fastforce simp: cmux_ok_def host_table_ok_def)
  show "\<exists>s'. cmux_run [HListen 1, HListen 2, HKnock 1, HKnockAccepted 1, HAckArrives, HDialStream,
                     HKnock 2, HKnockAccepted 2, HToken 1, HAccept 1] cmux_init = Some s'
         \<and> cx_made s' = [1, 2] \<and> cx_got s' = [(1, 1)]"
    by (simp add: cmux_init_def ClientMuxer_Listener_def newBlockedClientListener_def ClientMuxer_AcceptKnock_def unblock_def
        ClientListener_select_def Let_def)
qed

section \<open>Concrete runs\<close>

definition demo_mux_addr :: net_addr where "demo_mux_addr = \<lparr>addr_Network = ''unix'', addr_String = ''/plugin''\<rparr>"

theorem mux_routing_witness:
  "\<exists>s s'. smux_run [Listen 7] (smux_init demo_mux_addr) = Some s
     \<and> smux_run [Knock 7, KnockAccepted 7, AckArrives, DialStream, MainAccepts, MainRoutes, Deliver] s = Some s'
     \<and> (0, Some 7) \<in> set (sx_got s')"
proof -
  obtain s where s: "smux_next (Listen 7) (smux_init demo_mux_addr) = Some s" "sx_peer s = PeerIdle" "sm_knockCh (sx_mux s) = None"
    "sx_main s = MainAccept" "sx_wire s = []" "sm_acceptChannels (sx_mux s) 7 = Some 0" "\<not> bsl_doneCh (sm_listeners (sx_mux s) ! 0)"
    by (simp add: smux_eval)
  have "smux_reach True s" by (rule smux_step [OF smux_start s(1)]) simp
  from mux_routing [OF this, of 7 0] s(2-) obtain s' where
    "smux_run [Knock 7, KnockAccepted 7, AckArrives, DialStream, MainAccepts, MainRoutes, Deliver] s = Some s'" "(0, Some 7) \<in> set (sx_got s')"
    by blast
  with s(1) show ?thesis by (intro exI [of _ s] exI [of _ s']) (simp del: smux_next.simps)
qed

fun prompts :: "host_event list \<Rightarrow> cmux_sys \<Rightarrow> bool" where
  "prompts [] s \<longleftrightarrow> True"
| "prompts (ev # evs) s \<longleftrightarrow> prompt ev s \<and> (case cmux_next ev s of None \<Rightarrow> True | Some s' \<Rightarrow> prompts evs s')"

lemma cmux_run_reach: "cmux_reach True s \<Longrightarrow> cmux_run evs s = Some s' \<Longrightarrow> prompts evs s \<Longrightarrow> cmux_reach True s'"
  by (induction evs arbitrary: s) (auto split: option.splits intro: cmux_step)

theorem host_routing_witness:
  "\<exists>s. cmux_run [HListen 5, HKnock 5, HKnockAccepted 5, HAckArrives, HDialStream, HToken 0, HAccept 0] cmux_init = Some s
     \<and> cx_got s = [(0, 5)] \<and> (\<forall>(l, sid) \<in> set (cx_got s). sid = cx_made s ! l)"
proof -
  let ?evs = "[HListen 5, HKnock 5, HKnockAccepted 5, HAckArrives, HDialStream, HToken 0, HAccept 0]"
  obtain s where s: "cmux_run ?evs cmux_init = Some s" "prompts ?evs cmux_init" "cx_got s = [(0, 5)]"
    by (simp add: cmux_init_def ClientMuxer_Listener_def newBlockedClientListener_def ClientMuxer_AcceptKnock_def unblock_def
        ClientListener_select_def Let_def)
  have "cmux_reach True s" using s by (intro cmux_run_reach [OF cmux_start])
  with host_routing [of s] s(1,3) show ?thesis by blast
qed

end
