(* ===== verification/ClientLife.thy ===== *)
theory ClientLife
  imports ClientStart
begin

text \<open>
  The life of a client after it was made (\<open>client.go\<close>): \<open>Client\<close>, \<open>Kill\<close> behind its \<open>sync.Once\<close>,
  the managed clients and \<open>CleanupClients\<close>, the accessors, \<open>ReattachConfig\<close>, and the dialer with the
  multiplexer that is created on first use. How a protocol client is made and closed, and whether the
  plugin exits in time, are arguments.
\<close>

section \<open>Client\<close>

text \<open>
  \<open>Client.Client\<close>. The two constructors may change the client (the gRPC one creates the multiplexer);
  a panic of \<open>Start\<close> is passed on.
\<close>

type_synonym 'p maker = "'p client \<Rightarrow> 'p client \<times> 'p res"

definition keep_client :: "'p client \<times> 'p res \<Rightarrow> 'p client \<times> 'p res outcome" where
  "keep_client r =
     (case r of
        (c, Inl err) \<Rightarrow> (c\<lparr>c_client := None\<rparr>, Ret (Inl err))
      | (c, Inr p) \<Rightarrow> (c\<lparr>c_client := Some p\<rparr>, Ret (Inr p)))"

definition Client_Client :: "'p maker \<Rightarrow> 'p maker \<Rightarrow> start_world \<Rightarrow> 'p client \<Rightarrow> 'p client \<times> 'p res outcome" where
  "Client_Client newRPCClient newGRPCClient W c0 =
     (let r = Start W c0; c = sr_client r
      in case sr_panic r of
           Some m \<Rightarrow> (c, Panic m)
         | None \<Rightarrow>
             (case sr_err r of
                Some err \<Rightarrow> (c, Ret (Inl err))
              | None \<Rightarrow>
                  (case c_client c of
                     Some p \<Rightarrow> (c, Ret (Inr p))
                   | None \<Rightarrow>
                       (if c_protocol c = ProtocolNetRPC then keep_client (newRPCClient c)
                        else if c_protocol c = ProtocolGRPC then keep_client (newGRPCClient c)
                        else (c, Ret (Inl (Errorf ''unknown server protocol: %s'' [FStr (c_protocol c)])))))))"

section \<open>Accessors\<close>

definition NegotiatedVersion :: "'p client \<Rightarrow> int" where
  "NegotiatedVersion c = negotiatedVersion c"

definition Client_ID :: "'p client \<Rightarrow> string" where
  "Client_ID c = (case c_runner c of Some r \<Rightarrow> runner_ID r | None \<Rightarrow> [])"

definition Exited :: "'p client \<Rightarrow> bool" where
  "Exited c = exited c"

definition Client_killed :: "'p client \<Rightarrow> bool" where
  "Client_killed c = processKilled c"

definition Client_Protocol :: "start_world \<Rightarrow> 'p client \<Rightarrow> 'p client \<times> protocol outcome" where
  "Client_Protocol W c =
     (let r = Start W c
      in (sr_client r,
          case sr_panic r of
            Some m \<Rightarrow> Panic m
          | None \<Rightarrow> Ret (if sr_err r \<noteq> None then ProtocolInvalid else c_protocol (sr_client r))))"

definition Client_ReattachConfig :: "'p client \<Rightarrow> reattach_config option" where
  "Client_ReattachConfig c =
     (if address c = None then None
      else case cc_Cmd (config c) of
             Some cmd \<Rightarrow>
               (case cmd_Process cmd of
                  None \<Rightarrow> None
                | Some pid \<Rightarrow>
                    (case cc_Reattach (config c) of
                       Some ra \<Rightarrow> Some ra
                     | None \<Rightarrow> Some \<lparr>ra_Protocol = c_protocol c, ra_ProtocolVersion = negotiatedVersion c,
                                     ra_Addr = address c, ra_Pid = pid, ra_ReattachFunc = None, ra_Test = False\<rparr>))
           | None \<Rightarrow>
               (case cc_Reattach (config c) of
                  Some ra \<Rightarrow> Some ra
                | None \<Rightarrow> Some \<lparr>ra_Protocol = c_protocol c, ra_ProtocolVersion = negotiatedVersion c,
                                ra_Addr = address c, ra_Pid = 0, ra_ReattachFunc = None, ra_Test = False\<rparr>))"

section \<open>Kill\<close>

text \<open>
  What \<open>kill\<close> meets: the error of closing a protocol client, and whether the context of the process
  ends within a period. The result adds to the client whether the runner was killed, the directory
  that was removed, and whether the client asked to be dropped from the managed ones.
\<close>

record 'p kill_world =
  k_newRPC :: "'p maker"
  k_newGRPC :: "'p maker"
  k_start :: start_world
  k_Close :: "'p \<Rightarrow> goerror option"
  k_exits_within :: "duration \<Rightarrow> bool"

record 'p kill_result =
  kr_client :: "'p client"
  kr_ran :: bool
  kr_forced :: bool
  kr_removed :: "string option"
  kr_unmanaged :: bool

definition kill_nothing :: "'p client \<Rightarrow> 'p kill_result" where
  "kill_nothing c = \<lparr>kr_client = c, kr_ran = False, kr_forced = False, kr_removed = None, kr_unmanaged = False\<rparr>"

text \<open>Closing the protocol client when there is an address: whether a graceful exit can be expected.\<close>

definition kill_close :: "'p kill_world \<Rightarrow> 'p client \<Rightarrow> ('p client \<times> bool) outcome" where
  "kill_close K c =
     (if address c = None then Ret (c, False)
      else case Client_Client (k_newRPC K) (k_newGRPC K) (k_start K) c of
             (c', Panic m) \<Rightarrow> Panic m
           | (c', Ret (Inl err)) \<Rightarrow> Ret (c', False)
           | (c', Ret (Inr p)) \<Rightarrow> Ret (c', k_Close K p = None))"

definition shutdown_grace :: "'p client \<Rightarrow> duration" where
  "shutdown_grace c =
     (if cc_ShutdownTimeout (config c) \<le> 0 then defaultShutdownTimeout else cc_ShutdownTimeout (config c))"

text \<open>
  The deferred clean-up. Waiting for the client's goroutines means that the one that watches the
  process has marked it as exited.
\<close>

definition kill_cleanup :: "string \<Rightarrow> bool \<Rightarrow> 'p client \<Rightarrow> 'p kill_result" where
  "kill_cleanup hostSocketDir forced c =
     \<lparr>kr_client = c\<lparr>clientWaitGroup := 0, exited := (exited c \<or> clientWaitGroup c > 0), c_runner := None\<rparr>,
      kr_ran = True, kr_forced = forced,
      kr_removed = (if hostSocketDir \<noteq> [] then Some hostSocketDir else None),
      kr_unmanaged = cc_Managed (config c)\<rparr>"

definition kill_body :: "'p kill_world \<Rightarrow> 'p client \<Rightarrow> 'p kill_result outcome" where
  "kill_body K c0 =
     (let c = c0\<lparr>killBodyRuns := killBodyRuns c0 + 1\<rparr>
      in case c_runner c of
           None \<Rightarrow> Ret ((kill_nothing c)\<lparr>kr_ran := True\<rparr>)
         | Some runner \<Rightarrow>
             (if runner_ID runner = [] then Ret ((kill_nothing c)\<lparr>kr_ran := True\<rparr>)
              else bind_out (kill_close K c)
                (\<lambda>(c', graceful).
                   Ret (if graceful \<and> k_exits_within K (shutdown_grace c')
                        then kill_cleanup (us_socketDir (unixSocketCfg c)) False c'
                        else kill_cleanup (us_socketDir (unixSocketCfg c)) True (c'\<lparr>processKilled := True\<rparr>)))))"

definition Kill :: "'p kill_world \<Rightarrow> 'p client \<Rightarrow> 'p kill_result outcome" where
  "Kill K c =
     (if c_runner c = None \<or> killOnce c then Ret (kill_nothing c)
      else kill_body K (c\<lparr>killOnce := True\<rparr>))"

section \<open>Managed clients\<close>

text \<open>
  The clients of the process live in a store, and \<open>managedClients\<close> is a list of references into it.
  \<open>CleanupClients\<close> kills them in goroutines of their own, each on its own client; the order in which
  they finish is the order of the list here. A panic of one of them ends the process.
\<close>

definition removeManagedClient :: "nat \<Rightarrow> nat list \<Rightarrow> nat list" where
  "removeManagedClient ref managedClients = remove1 ref managedClients"

record 'p host =
  h_clients :: "nat \<Rightarrow> 'p client"
  h_managed :: "nat list"
  h_Killed :: bool

definition Kill_ref :: "(nat \<Rightarrow> 'p kill_world) \<Rightarrow> nat \<Rightarrow> 'p host \<Rightarrow> 'p host outcome" where
  "Kill_ref K ref h =
     bind_out (Kill (K ref) (h_clients h ref))
       (\<lambda>r. Ret (h\<lparr>h_clients := (h_clients h)(ref := kr_client r),
                   h_managed := (if kr_unmanaged r then removeManagedClient ref (h_managed h) else h_managed h)\<rparr>))"

fun kill_all :: "(nat \<Rightarrow> 'p kill_world) \<Rightarrow> nat list \<Rightarrow> 'p host \<Rightarrow> 'p host outcome" where
  "kill_all K [] h = Ret h"
| "kill_all K (ref # refs) h = bind_out (Kill_ref K ref h) (kill_all K refs)"

definition CleanupClients :: "(nat \<Rightarrow> 'p kill_world) \<Rightarrow> 'p host \<Rightarrow> 'p host outcome" where
  "CleanupClients K h = kill_all K (h_managed h) (h\<lparr>h_Killed := True\<rparr>)"

section \<open>Dialling the plugin\<close>

datatype conn = NetConn net_addr bool | MuxConn nat nat | TLSConn tls_config conn

text \<open>\<open>netAddrDialer\<close>: a connection, with keep-alive when it is TCP.\<close>

definition netAddrDialer :: "(net_addr \<Rightarrow> goerror option) \<Rightarrow> net_addr \<Rightarrow> conn res" where
  "netAddrDialer dial addr =
     (case dial addr of
        Some err \<Rightarrow> Inl err
      | None \<Rightarrow> Inr (NetConn addr (addr_Network addr = ''tcp'')))"

definition getGRPCMuxer :: "(net_addr \<Rightarrow> nat res) \<Rightarrow> net_addr \<Rightarrow> 'p client \<Rightarrow> 'p client \<times> nat option res" where
  "getGRPCMuxer newMuxer addr c =
     (if c_protocol c \<noteq> ProtocolGRPC \<or> \<not> cc_GRPCBrokerMultiplex (config c) then (c, Inr None)
      else let c' = (if grpcMuxerOnce c then c
                     else (case newMuxer addr of
                             Inl err \<Rightarrow> c\<lparr>grpcMuxerOnce := True, grpcMuxer := None, grpcMuxerErr := Some err\<rparr>
                           | Inr m \<Rightarrow> c\<lparr>grpcMuxerOnce := True, grpcMuxer := Some m, grpcMuxerErr := None\<rparr>))
           in case grpcMuxerErr c' of
                Some err \<Rightarrow> (c', Inl err)
              | None \<Rightarrow> (c', Inr (grpcMuxer c')))"

text \<open>\<open>dialer\<close>; \<open>muxDial m\<close> is the next stream of the multiplexer \<open>m\<close>.\<close>

definition dialer ::
  "(net_addr \<Rightarrow> nat res) \<Rightarrow> (nat \<Rightarrow> nat res) \<Rightarrow> (net_addr \<Rightarrow> goerror option) \<Rightarrow> net_addr \<Rightarrow> 'p client
   \<Rightarrow> 'p client \<times> conn res" where
  "dialer newMuxer muxDial dial addr c =
     (case getGRPCMuxer newMuxer addr c of
        (c', Inl err) \<Rightarrow> (c', Inl err)
      | (c', Inr muxer) \<Rightarrow>
          (case (case muxer of
                   Some m \<Rightarrow> map_sum id (MuxConn m) (muxDial m)
                 | None \<Rightarrow> netAddrDialer dial addr) of
             Inl err \<Rightarrow> (c', Inl err)
           | Inr conn \<Rightarrow>
               (case cc_TLSConfig (config c') of
                  Some t \<Rightarrow> (c', Inr (if c_protocol c' = ProtocolNetRPC then TLSConn t conn else conn))
                | None \<Rightarrow> (c', Inr conn))))"

section \<open>What the operations leave alone\<close>

text \<open>The fields that only \<open>Kill\<close>, \<open>Client\<close> and the dialer touch.\<close>

definition life_part :: "'p client \<Rightarrow> bool \<times> nat \<times> 'p option \<times> bool \<times> bool" where
  "life_part c = (killOnce c, killBodyRuns c, c_client c, processKilled c, exited c)"

lemma handshake_life: "life_part (fst (handshake W r st l ok c)) = life_part c"
  by (auto simp: handshake_def handshake_tail_def life_part_def Let_def
      split: sum.splits prod.splits outcome.splits option.splits if_splits)

lemma handshake_life_eq: "handshake W r st l ok c = (c2, h) \<Longrightarrow> life_part c2 = life_part c"
  using handshake_life [of W r st l ok c] by simp

lemma life_part_update [simp]:
  "life_part (c\<lparr>config := x\<rparr>) = life_part c" "life_part (c\<lparr>address := a\<rparr>) = life_part c"
  "life_part (c\<lparr>c_runner := r\<rparr>) = life_part c" "life_part (c\<lparr>unixSocketCfg := u\<rparr>) = life_part c"
  "life_part (c\<lparr>doneCtx := d\<rparr>) = life_part c" "life_part (c\<lparr>pipesWaitGroup := n\<rparr>) = life_part c"
  "life_part (c\<lparr>clientWaitGroup := n\<rparr>) = life_part c" "life_part (c\<lparr>c_protocol := p\<rparr>) = life_part c"
  "life_part (c\<lparr>negotiatedVersion := i\<rparr>) = life_part c" "life_part (c\<lparr>grpcMuxerOnce := b\<rparr>) = life_part c"
  "life_part (c\<lparr>grpcMuxer := m\<rparr>) = life_part c" "life_part (c\<lparr>grpcMuxerErr := e\<rparr>) = life_part c"
  by (simp_all add: life_part_def)

lemma start_wait_life: "life_part (sr_client (start_wait W r st c)) = life_part c"
  by (auto simp: start_wait_def Let_def dest: handshake_life_eq split: first_event.splits prod.splits hs_result.splits)

lemma start_launch_life: "life_part (sr_client (start_launch W r cr c)) = life_part c"
  by (auto simp: start_launch_def Let_def start_wait_life split: sum.splits)

lemma reattach_life: "life_part (sr_client (reattach W ra a c)) = life_part c"
  by (auto simp: reattach_def Let_def split: sum.splits)

lemma start_prepare_life: "life_part (fst (start_prepare W c)) = life_part c"
  by (auto simp: start_prepare_def Let_def split: prod.splits option.splits sum.splits)

lemma Start_life: "life_part (sr_client (Start W c)) = life_part c"
proof -
  have p: "life_part c1 = life_part c" if "start_prepare W c = (c1, x)" for c1 x
    using start_prepare_life [of W c] that by simp
  show ?thesis
    by (auto simp: Start_def reattach_life start_launch_life dest: p split: option.splits prod.splits sum.splits)
qed

lemma Start_life_simps [simp]:
  "killOnce (sr_client (Start W c)) = killOnce c" "killBodyRuns (sr_client (Start W c)) = killBodyRuns c"
  "c_client (sr_client (Start W c)) = c_client c" "processKilled (sr_client (Start W c)) = processKilled c"
  using Start_life [of W c] by (simp_all add: life_part_def)

lemma Start_again: "address c = Some a \<Longrightarrow> Start W c = sr_ret c (Some a) None"
  by (simp add: Start_def)

text \<open>A client with an address has a context.\<close>

definition has_ctx :: "'p client \<Rightarrow> bool" where
  "has_ctx c \<longleftrightarrow> (address c \<noteq> None \<longrightarrow> doneCtx c \<noteq> None)"

lemma handshake_ctx: "handshake W r st l ok c = (c2, h) \<Longrightarrow> doneCtx c2 = doneCtx c"
  by (auto simp: handshake_def handshake_tail_def Let_def
      split: sum.splits prod.splits outcome.splits option.splits if_splits)

lemma start_wait_ctx: "doneCtx (sr_client (start_wait W r st c)) = Some False"
  by (auto simp: start_wait_def Let_def dest: handshake_ctx split: first_event.splits prod.splits hs_result.splits)

lemma start_launch_ctx: "address c = None \<Longrightarrow> has_ctx (sr_client (start_launch W r cr c))"
  by (auto simp: start_launch_def Let_def start_wait_ctx has_ctx_def split: sum.splits)

lemma Start_ctx: "has_ctx c \<Longrightarrow> has_ctx (sr_client (Start W c))"
proof (cases "address c")
  case None
  have p: "address c1 = None" if "start_prepare W c = (c1, x)" for c1 x
    using start_prepare_address [of W c] that None by simp
  have r: "has_ctx (sr_client (reattach W ra a c))" for ra a
    using None by (auto simp: reattach_def Let_def has_ctx_def split: sum.splits)
  have z: "has_ctx x" if "address x = None" for x :: "'a client"
    using that by (simp add: has_ctx_def)
  show ?thesis
    unfolding Start_def None
    by (auto simp: r None z intro!: start_launch_ctx dest!: p split: option.splits prod.splits sum.splits)
next
  case (Some a)
  assume "has_ctx c"
  with Some show ?thesis by (simp add: Start_again)
qed

section \<open>Well-behaved constructors\<close>

text \<open>A constructor of a protocol client touches nothing of the client but its multiplexer.\<close>

definition maker_ok :: "'p maker \<Rightarrow> bool" where
  "maker_ok mk \<longleftrightarrow>
     (\<forall>c. \<exists>b m e. fst (mk c) = c\<lparr>grpcMuxerOnce := b, grpcMuxer := m, grpcMuxerErr := e\<rparr>)"

lemma keep_client_part:
  assumes "maker_ok mk"
  shows "\<exists>b m e p. fst (keep_client (mk c)) = c\<lparr>c_client := p, grpcMuxerOnce := b, grpcMuxer := m, grpcMuxerErr := e\<rparr>"
    and "\<exists>x. snd (keep_client (mk c)) = Ret x"
proof -
  obtain c' x where mk: "mk c = (c', x)" by fastforce
  with assms obtain b m e where "c' = c\<lparr>grpcMuxerOnce := b, grpcMuxer := m, grpcMuxerErr := e\<rparr>"
    unfolding maker_ok_def by (metis fst_conv)
  then have "fst (keep_client (mk c)) =
      c\<lparr>c_client := (case x of Inl _ \<Rightarrow> None | Inr p \<Rightarrow> Some p), grpcMuxerOnce := b, grpcMuxer := m, grpcMuxerErr := e\<rparr>"
    by (simp add: keep_client_def mk split: sum.split)
  then show "\<exists>b m e p. fst (keep_client (mk c)) = c\<lparr>c_client := p, grpcMuxerOnce := b, grpcMuxer := m, grpcMuxerErr := e\<rparr>"
    by blast
  show "\<exists>x. snd (keep_client (mk c)) = Ret x" by (simp add: keep_client_def mk split: sum.split)
qed

lemma client_self: "\<exists>b m e p. c = c\<lparr>c_client := p, grpcMuxerOnce := b, grpcMuxer := m, grpcMuxerErr := e\<rparr>"
  by (rule exI [of _ "grpcMuxerOnce c"], rule exI [of _ "grpcMuxer c"], rule exI [of _ "grpcMuxerErr c"],
      rule exI [of _ "c_client c"]) simp

text \<open>On a started client, \<open>Client\<close> changes the protocol client and the multiplexer at most, and does not panic.\<close>

lemma Client_started:
  assumes "address c = Some a" "maker_ok mr" "maker_ok mg"
  shows "\<exists>b m e p x. Client_Client mr mg W c =
    (c\<lparr>c_client := p, grpcMuxerOnce := b, grpcMuxer := m, grpcMuxerErr := e\<rparr>, Ret x)"
proof -
  have k: "\<exists>b m e p x. keep_client (mk c) = (c\<lparr>c_client := p, grpcMuxerOnce := b, grpcMuxer := m, grpcMuxerErr := e\<rparr>, Ret x)"
    if "maker_ok mk" for mk
    using keep_client_part [OF that, of c] by (metis prod.collapse)
  show ?thesis
    unfolding Client_Client_def Start_again [OF assms(1)] Let_def
    using client_self [of c] k [OF assms(2)] k [OF assms(3)] by (auto split: option.split)
qed

lemma Client_not_started:
  assumes "\<not> start_ok (Start W c)"
  shows "fst (Client_Client mr mg W c) = sr_client (Start W c)"
  using assms by (auto simp: Client_Client_def start_ok_def Let_def split: option.split)

section \<open>Kill never panics\<close>

lemma kill_close_started:
  assumes "maker_ok (k_newRPC K)" "maker_ok (k_newGRPC K)"
  shows "\<exists>b m e p g. kill_close K c = Ret (c\<lparr>c_client := p, grpcMuxerOnce := b, grpcMuxer := m, grpcMuxerErr := e\<rparr>, g)
    \<and> (address c = None \<longrightarrow> p = c_client c)"
proof (cases "address c")
  case None
  have "c = c\<lparr>c_client := c_client c, grpcMuxerOnce := grpcMuxerOnce c, grpcMuxer := grpcMuxer c, grpcMuxerErr := grpcMuxerErr c\<rparr>"
    by simp
  with None show ?thesis unfolding kill_close_def by (metis (no_types))
next
  case (Some a)
  from Client_started [OF this assms] obtain b m e p x where
    "Client_Client (k_newRPC K) (k_newGRPC K) (k_start K) c =
      (c\<lparr>c_client := p, grpcMuxerOnce := b, grpcMuxer := m, grpcMuxerErr := e\<rparr>, Ret x)" by blast
  with Some show ?thesis by (cases x) (auto simp: kill_close_def)
qed

text \<open>Whether the graceful way works: an address, a protocol client that closes cleanly, an exit in time.\<close>

definition exits_gracefully :: "'p kill_world \<Rightarrow> 'p client \<Rightarrow> bool" where
  "exits_gracefully K c \<longleftrightarrow>
     address c \<noteq> None
     \<and> (\<exists>p. snd (Client_Client (k_newRPC K) (k_newGRPC K) (k_start K) c) = Ret (Inr p) \<and> k_Close K p = None)
     \<and> k_exits_within K (shutdown_grace c)"

lemma kill_body_runs:
  assumes "c_runner c = Some r" "runner_ID r \<noteq> []" "maker_ok (k_newRPC K)" "maker_ok (k_newGRPC K)"
  shows "\<exists>b m e p. kill_body K c =
     Ret (kill_cleanup (us_socketDir (unixSocketCfg c)) (\<not> exits_gracefully K (c\<lparr>killBodyRuns := killBodyRuns c + 1\<rparr>))
       (c\<lparr>killBodyRuns := killBodyRuns c + 1, c_client := p, grpcMuxerOnce := b, grpcMuxer := m, grpcMuxerErr := e,
          processKilled := (processKilled c \<or> \<not> exits_gracefully K (c\<lparr>killBodyRuns := killBodyRuns c + 1\<rparr>))\<rparr>))
     \<and> (address c = None \<longrightarrow> p = c_client c)"
proof -
  let ?c = "c\<lparr>killBodyRuns := killBodyRuns c + 1\<rparr>"
  have "address ?c = address c" "c_client ?c = c_client c" by simp_all
  with kill_close_started [OF assms(3,4), of ?c] obtain b m e p g where k: "kill_close K ?c =
      Ret (?c\<lparr>c_client := p, grpcMuxerOnce := b, grpcMuxer := m, grpcMuxerErr := e\<rparr>, g)"
    and p: "address c = None \<longrightarrow> p = c_client c" by metis
  have g: "g \<longleftrightarrow> address ?c \<noteq> None
     \<and> (\<exists>p. snd (Client_Client (k_newRPC K) (k_newGRPC K) (k_start K) ?c) = Ret (Inr p) \<and> k_Close K p = None)"
    using k unfolding kill_close_def by (auto split: prod.splits outcome.splits sum.splits if_splits)
  have sg: "shutdown_grace (?c\<lparr>c_client := p, grpcMuxerOnce := b, grpcMuxer := m, grpcMuxerErr := e\<rparr>) = shutdown_grace ?c"
    by (simp add: shutdown_grace_def)
  have e: "exits_gracefully K ?c \<longleftrightarrow> g \<and> k_exits_within K (shutdown_grace ?c)"
    unfolding exits_gracefully_def g by blast
  show ?thesis
  proof (cases "exits_gracefully K ?c")
    case True
    then have "kill_body K c = Ret (kill_cleanup (us_socketDir (unixSocketCfg c)) False
        (?c\<lparr>c_client := p, grpcMuxerOnce := b, grpcMuxer := m, grpcMuxerErr := e, processKilled := processKilled c\<rparr>))"
      using assms(1,2) k sg e by (simp add: kill_body_def Let_def)
    with True p show ?thesis
      by (intro exI [of _ b] exI [of _ m] exI [of _ e] exI [of _ p] conjI) simp_all
  next
    case False
    then have "kill_body K c = Ret (kill_cleanup (us_socketDir (unixSocketCfg c)) True
        (?c\<lparr>c_client := p, grpcMuxerOnce := b, grpcMuxer := m, grpcMuxerErr := e, processKilled := True\<rparr>))"
      using assms(1,2) k sg e by (auto simp: kill_body_def Let_def)
    with False p show ?thesis
      by (intro exI [of _ b] exI [of _ m] exI [of _ e] exI [of _ p] conjI) simp_all
  qed
qed

lemma Kill_nothing: "c_runner c = None \<or> killOnce c \<Longrightarrow> Kill K c = Ret (kill_nothing c)"
  by (auto simp: Kill_def)

text \<open>The client as \<open>kill\<close> finds it when it begins its work.\<close>

definition entered :: "'p client \<Rightarrow> 'p client" where
  "entered c = c\<lparr>killOnce := True, killBodyRuns := killBodyRuns c + 1\<rparr>"

lemma Kill_runs:
  assumes "c_runner c = Some r" "runner_ID r \<noteq> []" "\<not> killOnce c" "maker_ok (k_newRPC K)" "maker_ok (k_newGRPC K)"
  shows "\<exists>b m e p. Kill K c =
     Ret (kill_cleanup (us_socketDir (unixSocketCfg c)) (\<not> exits_gracefully K (entered c))
       ((entered c)\<lparr>c_client := p, grpcMuxerOnce := b, grpcMuxer := m, grpcMuxerErr := e,
          processKilled := (processKilled c \<or> \<not> exits_gracefully K (entered c))\<rparr>))
     \<and> (address c = None \<longrightarrow> p = c_client c)"
proof -
  have "c_runner (c\<lparr>killOnce := True\<rparr>) = Some r" using assms(1) by simp
  from kill_body_runs [OF this assms(2,4,5)] obtain b m e p where
    "kill_body K (c\<lparr>killOnce := True\<rparr>) =
     Ret (kill_cleanup (us_socketDir (unixSocketCfg c)) (\<not> exits_gracefully K (entered c))
       ((entered c)\<lparr>c_client := p, grpcMuxerOnce := b, grpcMuxer := m, grpcMuxerErr := e,
          processKilled := (processKilled c \<or> \<not> exits_gracefully K (entered c))\<rparr>))"
    "address c = None \<longrightarrow> p = c_client c"
    unfolding entered_def by auto
  moreover have "Kill K c = kill_body K (c\<lparr>killOnce := True\<rparr>)" using assms(1,3) by (simp add: Kill_def)
  ultimately show ?thesis by metis
qed

lemma Kill_no_id:
  assumes "c_runner c = Some r" "runner_ID r = []" "\<not> killOnce c"
  shows "Kill K c = Ret ((kill_nothing (entered c))\<lparr>kr_ran := True\<rparr>)"
  using assms by (simp add: Kill_def kill_body_def entered_def Let_def)

section \<open>Properties of Kill\<close>

text \<open>
  C4: Killing a running plugin. \<open>Kill\<close> does not panic; afterwards the client has no runner, its socket
  directory has been removed, a managed client has left the managed ones, and the runner was killed by
  force exactly when the graceful way (an address, a protocol client that closes without error, an exit
  within the shutdown timeout) did not work. Every further \<open>Kill\<close> does nothing.
\<close>
theorem kill_complete:
  assumes "c_runner c = Some r" "runner_ID r \<noteq> []" "\<not> killOnce c" "maker_ok (k_newRPC K)" "maker_ok (k_newGRPC K)"
  shows "\<exists>k. Kill K c = Ret k \<and> c_runner (kr_client k) = None
    \<and> kr_removed k = (if us_socketDir (unixSocketCfg c) = [] then None else Some (us_socketDir (unixSocketCfg c)))
    \<and> kr_unmanaged k = cc_Managed (config c)
    \<and> kr_forced k = (\<not> exits_gracefully K (entered c))
    \<and> processKilled (kr_client k) = (processKilled c \<or> kr_forced k)
    \<and> killBodyRuns (kr_client k) = killBodyRuns c + 1
    \<and> (\<forall>K'. Kill K' (kr_client k) = Ret (kill_nothing (kr_client k)))"
proof -
  obtain b m e p where k: "Kill K c =
     Ret (kill_cleanup (us_socketDir (unixSocketCfg c)) (\<not> exits_gracefully K (entered c))
       ((entered c)\<lparr>c_client := p, grpcMuxerOnce := b, grpcMuxer := m, grpcMuxerErr := e,
          processKilled := (processKilled c \<or> \<not> exits_gracefully K (entered c))\<rparr>))"
    using Kill_runs [OF assms] by blast
  show ?thesis
    unfolding k by (intro exI conjI, rule refl) (simp_all add: kill_cleanup_def entered_def Kill_nothing)
qed

text \<open>A successful start that is not a reattachment leaves a runner behind.\<close>

lemma handshake_runner: "handshake W r st l ok c = (c2, h) \<Longrightarrow> c_runner c2 = c_runner c"
  by (auto simp: handshake_def handshake_tail_def Let_def
      split: sum.splits prod.splits outcome.splits option.splits if_splits)

lemma start_wait_runner: "c_runner (sr_client (start_wait W r st c)) = c_runner c"
  by (auto simp: start_wait_def Let_def dest: handshake_runner split: first_event.splits prod.splits hs_result.splits)

lemma start_runner:
  assumes "start_ok (Start W c)" "address c = None" "cc_Reattach (config c) = None"
  shows "c_runner (sr_client (Start W c)) \<noteq> None"
  using assms
  by (auto simp: Start_def start_launch_def start_ok_def start_wait_runner Let_def split: option.splits prod.splits sum.splits)

lemma Kill_address:
  assumes "Kill K c = Ret k" "c_runner c = Some r" "runner_ID r \<noteq> []" "\<not> killOnce c" "maker_ok (k_newRPC K)" "maker_ok (k_newGRPC K)"
  shows "address (kr_client k) = address c \<and> killOnce (kr_client k)"
  using Kill_runs [OF assms(2-6)] assms(1) by (auto simp: kill_cleanup_def entered_def)

text \<open>
  C37: A client can be started again after it was killed, and then it can never be killed: if a start fails
  after the runner was recorded, and \<open>Kill\<close> cleans up, the address is still unset, so that a second
  \<open>Start\<close> runs in full; when it succeeds the client holds a running plugin and every \<open>Kill\<close> does nothing.
\<close>
theorem kill_after_restart:
  assumes "\<not> start_ok (Start W c)" "c_runner (sr_client (Start W c)) = Some r" "runner_ID r \<noteq> []" "\<not> killOnce c"
    and "maker_ok (k_newRPC K)" "maker_ok (k_newGRPC K)"
    and "Kill K (sr_client (Start W c)) = Ret k" "cc_Reattach (config (kr_client k)) = None"
    and "start_ok (Start W' (kr_client k))"
  shows "c_runner (sr_client (Start W' (kr_client k))) \<noteq> None
    \<and> (\<forall>K'. Kill K' (sr_client (Start W' (kr_client k))) = Ret (kill_nothing (sr_client (Start W' (kr_client k)))))"
proof -
  have "\<not> killOnce (sr_client (Start W c))" using assms(4) by simp
  note k = Kill_address [OF assms(7,2,3) this assms(5,6)]
  have "address c = None" using assms(1) by (cases "address c") (auto simp: Start_again start_ok_def)
  then have "address (kr_client k) = None" using k start_address [of W c] assms(1) by simp
  with start_runner [OF assms(9)] assms(8) have "c_runner (sr_client (Start W' (kr_client k))) \<noteq> None" by simp
  moreover have "Kill K' (sr_client (Start W' (kr_client k))) = Ret (kill_nothing (sr_client (Start W' (kr_client k))))" for K'
    by (rule Kill_nothing) (simp add: k)
  ultimately show ?thesis by blast
qed

text \<open>
  A failing \<open>RunnerFunc\<close> leaks the socket directory: it was created for the runner, the client
  records it, but as there is no runner \<open>Kill\<close> does nothing, so it is never removed, and a managed
  client stays among the managed ones.
\<close>
theorem socket_dir_leak:
  assumes "address c = None" "c_runner c = None" "start_options (config c) = None" "cc_Reattach (config c) = None"
    and "cc_RunnerFunc (config c) = Some f" "\<And>cmd. f cmd dir = Inl err" "w_MkdirTemp W = (\<lambda>d. Inr dir)"
    and "cc_SecureConfig (config c) = None" "\<not> cc_AutoMTLS (config c)"
    and "cc_UnixSocketConfig (config c) = None" "us_Group (unixSocketCfg c) = []"
  shows "sr_err (Start W c) = Some err \<and> us_socketDir (unixSocketCfg (sr_client (Start W c))) = dir
    \<and> (\<forall>K. Kill K (sr_client (Start W c)) = Ret (kill_nothing (sr_client (Start W c))))"
proof -
  have reg: "cc_RunnerFunc (register_versions (config c)) = Some f" "cc_SecureConfig (register_versions (config c)) = None"
    "\<not> cc_AutoMTLS (register_versions (config c))" "cc_UnixSocketConfig (register_versions (config c)) = None"
    using assms by (simp_all add: register_versions_def default_version_def Let_def)
  have st: "cc_RunnerFunc (store_cmd x y) = cc_RunnerFunc y" "cc_SecureConfig (store_cmd x y) = cc_SecureConfig y"
    "cc_AutoMTLS (store_cmd x y) = cc_AutoMTLS y" "cc_UnixSocketConfig (store_cmd x y) = cc_UnixSocketConfig y" for x y
    by (simp_all add: store_cmd_def split: option.split)
  obtain c1 where "start_prepare W c = (c1, Inl err)" "us_socketDir (unixSocketCfg c1) = dir" "c_runner c1 = None"
    using reg assms(2,6,7,11)
    by (simp add: start_prepare_def start_secure_def start_mtls_def choose_runner_def st Let_def)
  then show ?thesis using assms(1,3,4) by (simp add: Start_def Kill_nothing)
qed

section \<open>Operations in any order\<close>

datatype 'p life_op = DoStart start_world | DoClient start_world | DoKill "'p kill_world"

text \<open>A caller may go on after a panic of \<open>Start\<close>.\<close>

fun life_step :: "'p maker \<Rightarrow> 'p maker \<Rightarrow> 'p life_op \<Rightarrow> 'p client \<Rightarrow> 'p client" where
  "life_step mr mg (DoStart W) c = sr_client (Start W c)"
| "life_step mr mg (DoClient W) c = fst (Client_Client mr mg W c)"
| "life_step mr mg (DoKill K) c =
     (case Kill (K\<lparr>k_newRPC := mr, k_newGRPC := mg\<rparr>) c of Ret k \<Rightarrow> kr_client k | Panic m \<Rightarrow> c)"

definition run_life :: "'p maker \<Rightarrow> 'p maker \<Rightarrow> 'p life_op list \<Rightarrow> 'p client \<Rightarrow> 'p client" where
  "run_life mr mg ops c = fold (life_step mr mg) ops c"

definition life_inv :: "'p client \<Rightarrow> bool" where
  "life_inv c \<longleftrightarrow>
     killBodyRuns c = (if killOnce c then 1 else 0) \<and> has_ctx c
     \<and> (c_client c \<noteq> None \<longrightarrow> address c \<noteq> None) \<and> (processKilled c \<longrightarrow> killOnce c)"

lemma Start_keeps_address: "address c = Some a \<Longrightarrow> address (sr_client (Start W c)) = Some a"
  by (simp add: Start_again)

lemma Start_life_inv: "life_inv c \<Longrightarrow> life_inv (sr_client (Start W c))"
  using start_address [of W c] Start_ctx [of c W] by (auto simp: life_inv_def)

lemma Client_parts:
  assumes "maker_ok mr" "maker_ok mg"
  shows "fst (Client_Client mr mg W c) = sr_client (Start W c) \<and> \<not> start_ok (Start W c)
    \<or> start_ok (Start W c) \<and> (\<exists>b m e p. fst (Client_Client mr mg W c) =
         (sr_client (Start W c))\<lparr>c_client := p, grpcMuxerOnce := b, grpcMuxer := m, grpcMuxerErr := e\<rparr>)"
proof (cases "start_ok (Start W c)")
  case True
  then obtain a where "address (sr_client (Start W c)) = Some a" using start_address [of W c] by auto
  from Client_started [OF this assms] obtain b m e p x where
    "Client_Client mr mg W (sr_client (Start W c)) =
       ((sr_client (Start W c))\<lparr>c_client := p, grpcMuxerOnce := b, grpcMuxer := m, grpcMuxerErr := e\<rparr>, Ret x)" by blast
  moreover have "Client_Client mr mg W c = Client_Client mr mg W (sr_client (Start W c))"
    using True \<open>address (sr_client (Start W c)) = Some a\<close>
    by (simp add: Client_Client_def [of _ _ _ c] Client_Client_def [of _ _ _ "sr_client (Start W c)"] start_ok_def
        Start_again [of "sr_client (Start W c)"])
  ultimately show ?thesis using True by auto
qed (simp add: Client_not_started)

lemma Client_life_inv:
  assumes "life_inv c" "maker_ok mr" "maker_ok mg"
  shows "life_inv (fst (Client_Client mr mg W c))"
  using Client_parts [OF assms(2,3), of W c] Start_life_inv [OF assms(1), of W] start_address [of W c]
  by (auto simp: life_inv_def has_ctx_def)

lemma Kill_life_inv:
  assumes "life_inv c" "maker_ok (k_newRPC K)" "maker_ok (k_newGRPC K)" "Kill K c = Ret k"
  shows "life_inv (kr_client k) \<and> address (kr_client k) = address c"
proof (cases "c_runner c")
  case None
  with assms show ?thesis by (auto simp: Kill_nothing kill_nothing_def)
next
  case (Some r)
  consider "killOnce c" | "\<not> killOnce c" "runner_ID r = []" | "\<not> killOnce c" "runner_ID r \<noteq> []" by blast
  then show ?thesis
  proof cases
    case 1
    with assms show ?thesis by (auto simp: Kill_nothing kill_nothing_def)
  next
    case 2
    with assms Kill_no_id [OF Some, of K] show ?thesis
      by (auto simp: kill_nothing_def entered_def life_inv_def has_ctx_def)
  next
    case 3
    from Kill_runs [OF Some 3(2,1) assms(2,3)] assms(1,4) 3 show ?thesis
      by (auto simp: kill_cleanup_def entered_def life_inv_def has_ctx_def)
  qed
qed

lemma Kill_total:
  assumes "maker_ok (k_newRPC K)" "maker_ok (k_newGRPC K)"
  shows "\<exists>k. Kill K c = Ret k"
proof (cases "c_runner c = None \<or> killOnce c")
  case True
  then show ?thesis by (auto simp: Kill_nothing)
next
  case False
  then obtain r where r: "c_runner c = Some r" "\<not> killOnce c" by auto
  then show ?thesis using Kill_no_id [OF r(1) _ r(2)] Kill_runs [OF r(1) _ r(2) assms] by (cases "runner_ID r = []") blast+
qed

lemma life_step_inv:
  assumes "life_inv c" "maker_ok mr" "maker_ok mg"
  shows "life_inv (life_step mr mg op c) \<and> (address c = Some a \<longrightarrow> address (life_step mr mg op c) = Some a)"
proof (cases op)
  case (DoStart W)
  then show ?thesis using Start_life_inv [OF assms(1)] Start_keeps_address [of c a] by auto
next
  case (DoClient W)
  have "address (fst (Client_Client mr mg W c)) = address (sr_client (Start W c))"
    using Client_parts [OF assms(2,3), of W c] by auto
  with DoClient show ?thesis using Client_life_inv [OF assms] Start_keeps_address [of c a] by auto
next
  case (DoKill K)
  obtain k where "Kill (K\<lparr>k_newRPC := mr, k_newGRPC := mg\<rparr>) c = Ret k"
    using Kill_total [of "K\<lparr>k_newRPC := mr, k_newGRPC := mg\<rparr>" c] assms(2,3) by auto
  with DoKill show ?thesis using Kill_life_inv [OF assms(1), of "K\<lparr>k_newRPC := mr, k_newGRPC := mg\<rparr>" k] assms(2,3) by simp
qed

lemma run_life_inv:
  assumes "maker_ok mr" "maker_ok mg"
  shows "life_inv c \<Longrightarrow> life_inv (run_life mr mg ops c) \<and> (address c = Some a \<longrightarrow> address (run_life mr mg ops c) = Some a)"
  unfolding run_life_def
proof (induction ops arbitrary: c)
  case (Cons op ops)
  from life_step_inv [OF Cons.prems assms, of op] Cons.IH [of "life_step mr mg op c"] show ?case by auto
qed simp

text \<open>
  C12: Whatever sequence of \<open>Start\<close>, \<open>Client\<close> and \<open>Kill\<close> a new client goes through, with any results
  of the world outside: the body of \<open>Kill\<close> has run at most once, a client with an address has a
  context to wait on, a protocol client exists only with an address, only \<open>Kill\<close> marks the process as
  killed, and an address, once set, never changes.
\<close>
theorem lifecycle_invariant:
  assumes "maker_ok mr" "maker_ok mg"
  shows "life_inv (run_life mr mg ops (new_client cfg))
    \<and> (address (run_life mr mg ops (new_client cfg)) = Some a
        \<longrightarrow> address (run_life mr mg (ops @ later) (new_client cfg)) = Some a)"
proof -
  have new: "life_inv (new_client cfg)" by (simp add: life_inv_def new_client_def has_ctx_def)
  have "run_life mr mg (ops @ later) (new_client cfg) = run_life mr mg later (run_life mr mg ops (new_client cfg))"
    by (simp add: run_life_def)
  with run_life_inv [OF assms new, of ops] run_life_inv [OF assms, of "run_life mr mg ops (new_client cfg)" later a] show ?thesis
    by auto
qed

section \<open>CleanupClients\<close>

definition killable :: "'p kill_world \<Rightarrow> 'p client \<Rightarrow> bool" where
  "killable K c \<longleftrightarrow>
     (\<exists>r. c_runner c = Some r \<and> runner_ID r \<noteq> []) \<and> \<not> killOnce c \<and> cc_Managed (config c)
     \<and> maker_ok (k_newRPC K) \<and> maker_ok (k_newGRPC K)"

lemma Kill_ref_killable:
  assumes "killable (K ref) (h_clients h ref)"
  shows "\<exists>c. Kill_ref K ref h = Ret (h\<lparr>h_clients := (h_clients h)(ref := c), h_managed := remove1 ref (h_managed h)\<rparr>)
    \<and> c_runner c = None"
proof -
  from assms obtain r where r: "c_runner (h_clients h ref) = Some r" "runner_ID r \<noteq> []" "\<not> killOnce (h_clients h ref)"
    "cc_Managed (config (h_clients h ref))" "maker_ok (k_newRPC (K ref))" "maker_ok (k_newGRPC (K ref))"
    unfolding killable_def by blast
  from Kill_runs [OF r(1-3,5,6)] obtain k where "Kill (K ref) (h_clients h ref) = Ret k" "c_runner (kr_client k) = None" "kr_unmanaged k"
    using r(4) by (auto simp: kill_cleanup_def entered_def)
  then show ?thesis by (auto simp: Kill_ref_def removeManagedClient_def)
qed

lemma kill_all_killable:
  assumes "distinct refs" "\<forall>ref \<in> set refs. killable (K ref) (h_clients h ref)"
  shows "\<exists>f. kill_all K refs h = Ret (h\<lparr>h_clients := f, h_managed := fold remove1 refs (h_managed h)\<rparr>)
    \<and> (\<forall>ref. if ref \<in> set refs then c_runner (f ref) = None else f ref = h_clients h ref)"
  using assms
proof (induction refs arbitrary: h)
  case Nil
  show ?case by (rule exI [of _ "h_clients h"]) simp
next
  case (Cons ref refs)
  obtain c where c: "Kill_ref K ref h = Ret (h\<lparr>h_clients := (h_clients h)(ref := c), h_managed := remove1 ref (h_managed h)\<rparr>)"
    "c_runner c = None" using Kill_ref_killable [of K ref h] Cons.prems by auto
  let ?h = "h\<lparr>h_clients := (h_clients h)(ref := c), h_managed := remove1 ref (h_managed h)\<rparr>"
  have "\<forall>ref' \<in> set refs. killable (K ref') (h_clients ?h ref')" using Cons.prems by auto
  with Cons.IH [of ?h] Cons.prems(1) obtain f where
    f: "kill_all K refs ?h = Ret (?h\<lparr>h_clients := f, h_managed := fold remove1 refs (h_managed ?h)\<rparr>)"
      "\<forall>ref'. if ref' \<in> set refs then c_runner (f ref') = None else f ref' = h_clients ?h ref'" by auto
  have "kill_all K (ref # refs) h = Ret (h\<lparr>h_clients := f, h_managed := fold remove1 (ref # refs) (h_managed h)\<rparr>)"
    using c(1) f(1) by simp
  moreover have "if ref' \<in> set (ref # refs) then c_runner (f ref') = None else f ref' = h_clients h ref'" for ref'
    using f(2) [rule_format, of ref'] c(2) by (auto split: if_splits)
  ultimately show ?case by blast
qed

lemma fold_remove1_self: "fold remove1 xs xs = []"
  by (induction xs) simp_all


section \<open>Reattaching with the information of a client\<close>

text \<open>
  C26: \<open>ReattachConfig\<close> is enough to reattach: a new client that is given what a started client returns, and
  finds the process and its socket, has the same address, protocol and version, the plugins it has for
  that version, and a runner with the same process.
\<close>
theorem reattach_roundtrip:
  assumes "Client_ReattachConfig c = Some ra" "cc_Reattach (config c) = None" "ra_Pid ra \<noteq> 0" "c_protocol c \<noteq> ProtocolInvalid"
    and "address c' = None" "cc_Reattach (config c') = Some ra"
    and "cc_Cmd (config c') = None" "cc_RunnerFunc (config c') = None" "cc_SecureConfig (config c') = None"
    and "\<not> cc_GRPCBrokerMultiplex (config c')"
    and "w_FindProcess W (ra_Pid ra) = None" "\<And>a. w_Dial W a = None"
    and "map_of (host_plugins (config c')) (negotiatedVersion c) = Some ps"
  shows "start_ok (Start W c') \<and> address (sr_client (Start W c')) = address c
    \<and> c_protocol (sr_client (Start W c')) = c_protocol c
    \<and> negotiatedVersion (sr_client (Start W c')) = negotiatedVersion c
    \<and> cc_Plugins (config (sr_client (Start W c'))) = ps
    \<and> Client_ID (sr_client (Start W c')) = Itoa (ra_Pid ra)"
proof -
  from assms(1,2) have ra: "ra_Protocol ra = c_protocol c" "ra_ProtocolVersion ra = negotiatedVersion c"
    "ra_Addr ra = address c" "address c \<noteq> None" "ra_ReattachFunc ra = None" "\<not> ra_Test ra"
    by (auto simp: Client_ReattachConfig_def split: if_splits option.splits)
  then obtain a where a: "address c = Some a" by auto
  have opts: "start_options (config c') = None"
    using assms(3,6-10) ra a by (simp add: start_options_def)
  have plugins: "cc_Plugins (reattach_plugins (negotiatedVersion c) (config c')) = ps"
    using assms(13) by (auto simp: reattach_plugins_def default_version_def host_plugins_def Let_def split: option.splits)
  have "reattach_runner W ra a = Inr (reattached_as_attached (w_proc W) \<lparr>at_pid = ra_Pid ra\<rparr>)"
    using ra assms(11,12) by (simp add: reattach_runner_def ReattachFunc_def)
  then have "Start W c' = reattach W ra a c'" "sr_err (reattach W ra a c') = None"
    using assms(5,6) opts ra a by (simp_all add: Start_def reattach_def Let_def)
  then show ?thesis
    using ra a plugins assms(4) \<open>reattach_runner W ra a = _\<close>
    by (simp add: start_ok_def reattach_def Let_def Client_ID_def reattached_as_attached_def CmdAttachedRunner_ID_def)
qed

section \<open>A concrete life\<close>

definition demo_maker :: "nat maker" where "demo_maker c = (c, Inr 7)"

definition demo_kill :: "nat kill_world" where
  "demo_kill = \<lparr>k_newRPC = demo_maker, k_newGRPC = demo_maker, k_start = demo_start, k_Close = (\<lambda>p. None),
                k_exits_within = (\<lambda>d. True)\<rparr>"

lemma demo_maker_ok: "maker_ok demo_maker"
  unfolding maker_ok_def demo_maker_def
proof
  fix c :: "nat client"
  show "\<exists>b m e. fst (c, Inr 7) = c\<lparr>grpcMuxerOnce := b, grpcMuxer := m, grpcMuxerErr := e\<rparr>"
    by (rule exI [of _ "grpcMuxerOnce c"], rule exI [of _ "grpcMuxer c"], rule exI [of _ "grpcMuxerErr c"]) simp
qed

definition demo_running :: "nat client" where
  "demo_running =
     (new_client (demo_config\<lparr>cc_Managed := True\<rparr>))\<lparr>c_runner := Some demo_attached, doneCtx := Some False, clientWaitGroup := 4,
        address := Some \<lparr>addr_Network = ''unix'', addr_String = ''/plugin1''\<rparr>, c_protocol := ProtocolGRPC,
        unixSocketCfg := empty_unix_cfg\<lparr>us_socketDir := ''/tmp/d''\<rparr>\<rparr>"

lemma demo_running_simps:
  "c_runner demo_running = Some demo_attached" "runner_ID demo_attached \<noteq> []" "\<not> killOnce demo_running"
  "cc_Managed (config demo_running)" "us_socketDir (unixSocketCfg demo_running) = ''/tmp/d''"
  "maker_ok (k_newRPC demo_kill)" "maker_ok (k_newGRPC demo_kill)"
  by (simp_all add: demo_running_def new_client_def demo_attached_def demo_kill_def demo_maker_ok)

lemma demo_exits: "exits_gracefully demo_kill (entered demo_running)"
  by (simp add: exits_gracefully_def entered_def demo_running_def demo_kill_def Client_Client_def Start_again keep_client_def
      demo_maker_def new_client_def protocol_defs Let_def)

theorem kill_complete_witness:
  "\<exists>k. Kill demo_kill demo_running = Ret k \<and> c_runner (kr_client k) = None \<and> kr_removed k = Some ''/tmp/d'' \<and> \<not> kr_forced k"
  using kill_complete [OF demo_running_simps(1-3,6,7)] demo_exits demo_running_simps(5) by auto

theorem lifecycle_invariant_witness:
  "life_inv (run_life demo_maker demo_maker [DoStart demo_start, DoClient demo_start, DoKill demo_kill, DoKill demo_kill] demo_client)"
  using lifecycle_invariant [OF demo_maker_ok demo_maker_ok] unfolding demo_client_def by blast


definition life_config :: client_config where
  "life_config = demo_config\<lparr>cc_SecureConfig := None, cc_VersionedPlugins := Some [(1, cc_Plugins demo_config)]\<rparr>"

lemma life_config_simps:
  "register_versions life_config = life_config" "start_options life_config = None" "cc_Reattach life_config = None"
  "cc_RunnerFunc life_config = Some (\<lambda>cmd dir. Inr demo_run)" "cc_SecureConfig life_config = None" "\<not> cc_AutoMTLS life_config"
  "cc_UnixSocketConfig life_config = None" "cc_Cmd life_config = None"
  "host_plugins life_config = [(1, cc_Plugins demo_config)]" "cc_AllowedProtocols life_config = Some [ProtocolGRPC]"
  "cc_GRPCBrokerMultiplex life_config = False"
  by (simp_all add: life_config_def demo_config_def register_versions_def default_version_def start_options_def host_plugins_def Let_def)

lemma demo_launch:
  assumes "config c = life_config" "address c = None" "us_Group (unixSocketCfg c) = []"
  shows "Start (demo_start\<lparr>w_event := ev\<rparr>) c =
    start_launch (demo_start\<lparr>w_event := ev\<rparr>) demo_run None (c\<lparr>unixSocketCfg := (unixSocketCfg c)\<lparr>us_socketDir := ''/tmp/d''\<rparr>\<rparr>)"
proof -
  have st: "store_cmd x life_config = life_config" for x by (simp add: store_cmd_def life_config_simps)
  have mk: "w_MkdirTemp demo_start d = Inr ''/tmp/d''" for d by (simp add: demo_start_def)
  have "start_prepare (demo_start\<lparr>w_event := ev\<rparr>) c =
      (c\<lparr>config := life_config, unixSocketCfg := (unixSocketCfg c)\<lparr>us_socketDir := ''/tmp/d''\<rparr>\<rparr>, Inr (demo_run, None))"
    using assms
    by (simp add: start_prepare_def start_secure_def start_mtls_def choose_runner_def life_config_simps st mk Let_def)
  moreover have "c\<lparr>config := life_config\<rparr> = c" using assms(1) by (cases c) simp
  ultimately show ?thesis using assms by (simp add: Start_def life_config_simps)
qed

lemma demo_restart:
  assumes "config c = life_config" "address c = None" "us_Group (unixSocketCfg c) = []"
  shows "start_ok (Start demo_start c)"
proof -
  let ?c2 = "c\<lparr>unixSocketCfg := (unixSocketCfg c)\<lparr>us_socketDir := ''/tmp/d''\<rparr>, c_runner := Some demo_attached, doneCtx := Some False,
      pipesWaitGroup := pipesWaitGroup c + 2, clientWaitGroup := clientWaitGroup c + 4\<rparr>"
  obtain c3 where h: "handshake demo_start demo_run demo_attached ''1|1|unix|/plugin1|grpc|'' True ?c2
      = (c3, HsOk \<lparr>addr_Network = ''unix'', addr_String = ''/plugin1''\<rparr>)"
    using demo_handshake_ok [of ?c2 demo_run] assms(1) life_config_simps
    by (cases "handshake demo_start demo_run demo_attached ''1|1|unix|/plugin1|grpc|'' True ?c2") auto
  have e: "w_event demo_start = FirstLine ''1|1|unix|/plugin1|grpc|'' True" "runner_Start demo_run = Inr demo_attached"
    by (simp_all add: demo_start_def demo_run_def)
  then have "demo_start\<lparr>w_event := FirstLine ''1|1|unix|/plugin1|grpc|'' True\<rparr> = demo_start" by simp
  with demo_launch [OF assms, of "FirstLine ''1|1|unix|/plugin1|grpc|'' True"] h e show ?thesis
    by (simp add: start_launch_def start_wait_def start_ok_def)
qed

definition demo_timeout :: start_world where "demo_timeout = demo_start\<lparr>w_event := StartTimeoutFired\<rparr>"

definition life_client :: "nat client" where "life_client = new_client life_config"

lemma demo_first:
  "\<not> start_ok (Start demo_timeout life_client)" "c_runner (sr_client (Start demo_timeout life_client)) = Some demo_attached"
  "config (sr_client (Start demo_timeout life_client)) = life_config" "address (sr_client (Start demo_timeout life_client)) = None"
  "us_Group (unixSocketCfg (sr_client (Start demo_timeout life_client))) = []"
proof -
  have "Start demo_timeout life_client =
      start_launch demo_timeout demo_run None (life_client\<lparr>unixSocketCfg := (unixSocketCfg life_client)\<lparr>us_socketDir := ''/tmp/d''\<rparr>\<rparr>)"
    unfolding demo_timeout_def by (rule demo_launch) (simp_all add: life_client_def new_client_def empty_unix_cfg_def)
  moreover have "w_event demo_timeout = StartTimeoutFired" "runner_Start demo_run = Inr demo_attached"
    by (simp_all add: demo_timeout_def demo_run_def)
  ultimately show "\<not> start_ok (Start demo_timeout life_client)" "c_runner (sr_client (Start demo_timeout life_client)) = Some demo_attached"
    "config (sr_client (Start demo_timeout life_client)) = life_config" "address (sr_client (Start demo_timeout life_client)) = None"
    "us_Group (unixSocketCfg (sr_client (Start demo_timeout life_client))) = []"
    by (simp_all add: start_launch_def start_wait_def start_ok_def life_client_def new_client_def empty_unix_cfg_def)
qed

theorem kill_after_restart_witness:
  "\<exists>k. Kill demo_kill (sr_client (Start demo_timeout life_client)) = Ret k
     \<and> c_runner (sr_client (Start demo_start (kr_client k))) \<noteq> None
     \<and> Kill demo_kill (sr_client (Start demo_start (kr_client k))) = Ret (kill_nothing (sr_client (Start demo_start (kr_client k))))"
proof -
  let ?c = "sr_client (Start demo_timeout life_client)"
  have once: "\<not> killOnce ?c" "\<not> killOnce life_client" by (simp_all add: life_client_def new_client_def)
  obtain k where k: "Kill demo_kill ?c = Ret k" "config (kr_client k) = life_config" "address (kr_client k) = None"
    "us_Group (unixSocketCfg (kr_client k)) = []"
    using Kill_runs [OF demo_first(2) demo_running_simps(2) once(1) demo_running_simps(6,7)] demo_first
    by (auto simp: kill_cleanup_def entered_def)
  have "cc_Reattach (config (kr_client k)) = None" by (simp add: k life_config_simps)
  from kill_after_restart [OF demo_first(1,2) demo_running_simps(2) once(2) demo_running_simps(6,7) k(1) this demo_restart [OF k(2-4)]] k(1)
  show ?thesis by blast
qed

definition failing_config :: client_config where
  "failing_config = life_config\<lparr>cc_RunnerFunc := Some (\<lambda>cmd dir. Inl (ErrNew ''no runner''))\<rparr>"

theorem socket_dir_leak_witness:
  "us_socketDir (unixSocketCfg (sr_client (Start demo_start (new_client failing_config :: nat client)))) = ''/tmp/d''
   \<and> Kill demo_kill (sr_client (Start demo_start (new_client failing_config)))
       = Ret (kill_nothing (sr_client (Start demo_start (new_client failing_config))))"
proof -
  let ?c = "new_client failing_config :: nat client"
  have c: "address ?c = None" "c_runner ?c = None" "start_options (config ?c) = None" "cc_Reattach (config ?c) = None"
    "cc_RunnerFunc (config ?c) = Some (\<lambda>cmd dir. Inl (ErrNew ''no runner''))" "cc_SecureConfig (config ?c) = None"
    "\<not> cc_AutoMTLS (config ?c)" "cc_UnixSocketConfig (config ?c) = None" "us_Group (unixSocketCfg ?c) = []"
    by (simp_all add: new_client_def failing_config_def life_config_def demo_config_def start_options_def empty_unix_cfg_def)
  have m: "w_MkdirTemp demo_start = (\<lambda>d. Inr ''/tmp/d'')" by (simp add: demo_start_def)
  from socket_dir_leak [OF c(1-5) _ m c(6-9)] show ?thesis by simp
qed

definition attach_client :: "nat client" where
  "attach_client = demo_running\<lparr>config := (config demo_running)\<lparr>cc_Cmd := Some \<lparr>cmd_Path = ''/p'', cmd_Env = [], cmd_Stdin = False,
       cmd_SysProcAttr = None, cmd_Process = Some 42\<rparr>\<rparr>, negotiatedVersion := 1\<rparr>"

theorem reattach_roundtrip_witness:
  "\<exists>ra. Client_ReattachConfig attach_client = Some ra
     \<and> address (sr_client (Start demo_start (new_client (life_config\<lparr>cc_RunnerFunc := None, cc_Reattach := Some ra\<rparr>) :: nat client)))
         = address attach_client"
proof -
  let ?ra = "\<lparr>ra_Protocol = ProtocolGRPC, ra_ProtocolVersion = 1,
      ra_Addr = Some \<lparr>addr_Network = ''unix'', addr_String = ''/plugin1''\<rparr>, ra_Pid = 42, ra_ReattachFunc = None, ra_Test = False\<rparr>"
  let ?c = "new_client (life_config\<lparr>cc_RunnerFunc := None, cc_Reattach := Some ?ra\<rparr>) :: nat client"
  have ra: "Client_ReattachConfig attach_client = Some ?ra"
    by (simp add: attach_client_def demo_running_def Client_ReattachConfig_def new_client_def demo_config_def)
  have a: "cc_Reattach (config attach_client) = None" "ra_Pid ?ra \<noteq> 0" "c_protocol attach_client \<noteq> ProtocolInvalid"
    by (simp_all add: attach_client_def demo_running_def new_client_def demo_config_def protocol_defs)
  have c: "address ?c = None" "cc_Reattach (config ?c) = Some ?ra" "cc_Cmd (config ?c) = None" "cc_RunnerFunc (config ?c) = None"
    "cc_SecureConfig (config ?c) = None" "\<not> cc_GRPCBrokerMultiplex (config ?c)"
    "map_of (host_plugins (config ?c)) (negotiatedVersion attach_client) = Some (cc_Plugins demo_config)"
    by (simp_all add: new_client_def life_config_def demo_config_def host_plugins_def attach_client_def)
  have w: "w_FindProcess demo_start (ra_Pid ?ra) = None" "w_Dial demo_start x = None" for x by (simp_all add: demo_start_def)
  from reattach_roundtrip [OF ra a c(1-6) w(1) w(2) c(7)] ra show ?thesis by blast
qed

end
