(* ===== verification/RPC.thy ===== *)
theory RPC
  imports MuxBroker ClientLife
begin

text \<open>
  The net/rpc transport: \<open>RPCServer\<close> with its control and dispense services (\<open>rpc_server.go\<close>) and
  \<open>RPCClient\<close> (\<open>rpc_client.go\<close>), over the broker of \<open>mux_broker.go\<close>. The session below them, remote calls
  and the user's plugin constructors are arguments.
\<close>

section \<open>RPCServer\<close>

text \<open>
  The field \<open>DoneCh\<close> is set to nil once it was closed, while \<open>Serve\<close> of the process still holds the
  channel: \<open>rs_DoneCh\<close> says whether the field is set, \<open>rs_closed\<close> whether the channel is closed.
\<close>

record rpc_server =
  rs_Plugins :: plugin_set
  rs_DoneCh :: bool
  rs_closed :: bool

definition RPCServer_Init :: "rpc_server \<Rightarrow> goerror option" where "RPCServer_Init s = None"

definition RPCServer_Config :: "rpc_server \<Rightarrow> string" where "RPCServer_Config s = []"

definition RPCServer_done :: "rpc_server \<Rightarrow> rpc_server outcome" where
  "RPCServer_done s =
     (if rs_DoneCh s then bind_out (close_chan (rs_closed s)) (\<lambda>d. Ret (s\<lparr>rs_closed := d, rs_DoneCh := False\<rparr>))
      else Ret s)"

definition rpc_server_inv :: "rpc_server \<Rightarrow> bool" where
  "rpc_server_inv s \<longleftrightarrow> (rs_DoneCh s \<longrightarrow> \<not> rs_closed s)"

interpretation rpc_done: once_closer RPCServer_done "\<lambda>s. \<not> rs_DoneCh s" rpc_server_inv
  by unfold_locales (auto simp: RPCServer_done_def rpc_server_inv_def go_simps)

text \<open>
  The accept loop of \<open>Serve\<close> on the results of \<open>Accept\<close>: the connections that were served, and the
  error that ended it. As long as there is none the call has not returned.
\<close>

fun accept_loop :: "nat res list \<Rightarrow> nat list \<times> goerror option" where
  "accept_loop [] = ([], None)"
| "accept_loop (Inl err # rs) = ([], Some err)"
| "accept_loop (Inr c # rs) = (case accept_loop rs of (cs, err) \<Rightarrow> (c # cs, err))"

datatype log_level = LogTrace | LogDebug | LogInfo | LogWarn | LogError

definition accept_end_level :: "goerror \<Rightarrow> log_level" where
  "accept_end_level err = (if errors_Is err net_ErrClosed then LogDebug else LogError)"

definition RPCServer_Serve :: "nat res list \<Rightarrow> rpc_server \<Rightarrow> nat list \<times> log_level option \<times> rpc_server outcome" where
  "RPCServer_Serve accepts s =
     (case accept_loop accepts of
        (conns, None) \<Rightarrow> (conns, None, Ret s)
      | (conns, Some err) \<Rightarrow> (conns, Some (accept_end_level err), RPCServer_done s))"

text \<open>
  \<open>ServeConn\<close> up to the point where it serves the control connection: \<open>accept i\<close> is the \<open>i\<close>-th stream
  that the session accepts.
\<close>

datatype conn_setup =
    ConnClosed goerror
  | SessionClosed goerror
  | Serving nat nat nat

definition ServeConn :: "goerror option \<Rightarrow> (nat \<Rightarrow> nat res) \<Rightarrow> conn_setup" where
  "ServeConn yamux_err accept =
     (case yamux_err of
        Some err \<Rightarrow> ConnClosed err
      | None \<Rightarrow>
          (case accept 0 of
             Inl err \<Rightarrow> SessionClosed err
           | Inr control \<Rightarrow>
               (case accept 1 of
                  Inl err \<Rightarrow> SessionClosed err
                | Inr out \<Rightarrow>
                    (case accept 2 of
                       Inl err \<Rightarrow> SessionClosed err
                     | Inr err_stream \<Rightarrow> Serving control out err_stream))))"

definition controlServer_Ping :: "goerror option" where "controlServer_Ping = None"

definition controlServer_Quit :: "rpc_server \<Rightarrow> (goerror option \<times> rpc_server) outcome" where
  "controlServer_Quit s = bind_out (RPCServer_done s) (\<lambda>s'. Ret (None, s'))"

text \<open>
  \<open>Dispense\<close> on the plugin: the result, the broker, and the implementation that waits, in a goroutine,
  for the connection with the new identifier. \<open>Error\<close> is the text of an error.
\<close>

definition unknown_plugin :: "string \<Rightarrow> goerror" where
  "unknown_plugin nam = Errorf ''unknown plugin type: %s'' [FStr nam]"

definition dispenseServer_Dispense ::
  "(goerror \<Rightarrow> string) \<Rightarrow> (plugin \<Rightarrow> nat res) \<Rightarrow> plugin_set \<Rightarrow> string \<Rightarrow> mux_broker
   \<Rightarrow> stream_id res \<times> mux_broker \<times> (stream_id \<times> nat) option" where
  "dispenseServer_Dispense Error serverOf plugins nam m =
     (case map_of plugins nam of
        None \<Rightarrow> (Inl (unknown_plugin nam), m, None)
      | Some p \<Rightarrow>
          (case serverOf p of
             Inl err \<Rightarrow> (Inl (ErrNew (Error err)), m, None)
           | Inr impl \<Rightarrow> (case NextId m of (sid, m') \<Rightarrow> (Inr sid, m', Some (sid, impl)))))"

text \<open>
  \<open>serve\<close> on an accepted connection: registering the implementation may fail, and then the function
  returns without closing the connection. The value says whether the connection was served.
\<close>

definition rpc_serve :: "goerror option \<Rightarrow> bool" where
  "rpc_serve register_err = (register_err = None)"

text \<open>\<open>MuxBroker.AcceptAndServe\<close> and the goroutine of \<open>Dispense\<close>: what \<open>Accept\<close> returned is served.\<close>

definition accept_and_serve :: "nat res \<Rightarrow> goerror option \<Rightarrow> nat option" where
  "accept_and_serve accepted register_err =
     (case accepted of Inl err \<Rightarrow> None | Inr c \<Rightarrow> (if rpc_serve register_err then Some c else None))"

section \<open>RPCClient\<close>

record rpc_client =
  rc_plugins :: plugin_set
  rc_control :: nat
  rc_stdout :: nat
  rc_stderr :: nat
  rc_pingTimeout :: duration

text \<open>
  \<open>NewRPCClient\<close>: the client, and whether the session, and with it the connection, was closed on the way out.
\<close>

definition NewRPCClient :: "goerror option \<Rightarrow> (nat \<Rightarrow> nat res) \<Rightarrow> plugin_set \<Rightarrow> rpc_client res \<times> bool" where
  "NewRPCClient yamux_err open_stream plugins =
     (case yamux_err of
        Some err \<Rightarrow> (Inl err, True)
      | None \<Rightarrow>
          (case open_stream 0 of
             Inl err \<Rightarrow> (Inl err, True)
           | Inr control \<Rightarrow>
               (case open_stream 1 of
                  Inl err \<Rightarrow> (Inl err, True)
                | Inr out \<Rightarrow>
                    (case open_stream 2 of
                       Inl err \<Rightarrow> (Inl err, True)
                     | Inr err_stream \<Rightarrow>
                         (Inr \<lparr>rc_plugins = plugins, rc_control = control, rc_stdout = out, rc_stderr = err_stream,
                               rc_pingTimeout = 0\<rparr>, False)))))"

text \<open>
  \<open>newRPCClient\<close>: dial the client's address, wrap the connection in TLS, set up the streams and start the
  copying into the configured writers, which does not fail. The second component is the connection that was
  made and whether it was closed again.
\<close>

definition newRPCClient ::
  "(net_addr \<Rightarrow> goerror option) \<Rightarrow> goerror option \<Rightarrow> (nat \<Rightarrow> nat res) \<Rightarrow> net_addr \<Rightarrow> client_config
   \<Rightarrow> rpc_client res \<times> (conn \<times> bool) option" where
  "newRPCClient dial yamux_err open_stream addr cfg =
     (case netAddrDialer dial addr of
        Inl err \<Rightarrow> (Inl err, None)
      | Inr conn \<Rightarrow>
          (let conn' = (case cc_TLSConfig cfg of Some t \<Rightarrow> TLSConn t conn | None \<Rightarrow> conn);
               plugins = (case cc_Plugins cfg of None \<Rightarrow> [] | Some ps \<Rightarrow> ps)
           in case NewRPCClient yamux_err open_stream plugins of
                (Inl err, _) \<Rightarrow> (Inl err, Some (conn', True))
              | (Inr result, _) \<Rightarrow> (Inr (result\<lparr>rc_pingTimeout := cc_PingTimeout cfg\<rparr>), Some (conn', False))))"

text \<open>
  \<open>Close\<close> asks the plugin to quit and then closes control connection, both streams and the session; the
  first failure of these ends it. The value has the parts that were closed, in order.
\<close>

datatype rpc_part = ControlConn | StdoutStream | StderrStream | Session

fun close_parts :: "(rpc_part \<Rightarrow> goerror option) \<Rightarrow> rpc_part list \<Rightarrow> goerror option \<times> rpc_part list" where
  "close_parts close_err [] = (None, [])"
| "close_parts close_err (p # ps) =
     (case close_err p of
        Some err \<Rightarrow> (Some err, [])
      | None \<Rightarrow> (case close_parts close_err ps of (e, closed) \<Rightarrow> (e, p # closed)))"

definition RPCClient_Close :: "goerror option \<Rightarrow> (rpc_part \<Rightarrow> goerror option) \<Rightarrow> goerror option \<times> rpc_part list" where
  "RPCClient_Close quit_err close_err =
     (case close_parts close_err [ControlConn, StdoutStream, StderrStream, Session] of
        (Some err, closed) \<Rightarrow> (Some err, closed)
      | (None, closed) \<Rightarrow> (quit_err, closed))"

text \<open>\<open>Dispense\<close>: \<open>call\<close> is the remote call, \<open>dial\<close> is \<open>MuxBroker.Dial\<close>, \<open>clientOf\<close> the plugin's constructor.\<close>

definition RPCClient_Dispense ::
  "(string \<Rightarrow> stream_id res) \<Rightarrow> (stream_id \<Rightarrow> nat res) \<Rightarrow> (plugin \<Rightarrow> nat \<Rightarrow> 'v res) \<Rightarrow> rpc_client \<Rightarrow> string \<Rightarrow> 'v res" where
  "RPCClient_Dispense call dial clientOf c nam =
     (case map_of (rc_plugins c) nam of
        None \<Rightarrow> Inl (unknown_plugin nam)
      | Some p \<Rightarrow>
          (case call nam of
             Inl err \<Rightarrow> Inl err
           | Inr sid \<Rightarrow>
               (case dial sid of
                  Inl err \<Rightarrow> Inl err
                | Inr conn \<Rightarrow> clientOf p conn)))"

text \<open>\<open>Ping\<close>: \<open>answer d\<close> is the outcome of the call if it arrives within \<open>d\<close>.\<close>

definition ping_timeout :: "duration \<Rightarrow> duration" where
  "ping_timeout d = (if d \<le> 0 then defaultPingTimeout else d)"

definition RPCClient_Ping :: "(duration \<Rightarrow> goerror option option) \<Rightarrow> rpc_client \<Rightarrow> goerror option" where
  "RPCClient_Ping answer c =
     (case answer (ping_timeout (rc_pingTimeout c)) of
        Some err \<Rightarrow> err
      | None \<Rightarrow> Some (Sentinel ErrPingTimeout))"

section \<open>Ending the server\<close>

text \<open>The events that end a server: a remote \<open>Quit\<close>, and the end of the accept loop.\<close>

datatype rpc_event = QuitCalled | AcceptEnded goerror

fun rpc_end :: "rpc_event \<Rightarrow> rpc_server \<Rightarrow> rpc_server outcome" where
  "rpc_end QuitCalled s = bind_out (controlServer_Quit s) (\<lambda>(e, s'). Ret s')"
| "rpc_end (AcceptEnded err) s = snd (snd (RPCServer_Serve [Inl err] s))"

fun rpc_ends :: "rpc_event list \<Rightarrow> rpc_server \<Rightarrow> rpc_server outcome" where
  "rpc_ends [] s = Ret s"
| "rpc_ends (e # es) s = bind_out (rpc_end e s) (rpc_ends es)"

lemma rpc_end_done: "rpc_end e s = RPCServer_done s"
  by (cases e) (simp_all add: controlServer_Quit_def RPCServer_Serve_def RPCServer_done_def close_chan_def)

lemma rpc_ends_iterate: "rpc_ends es s = iterate_out (length es) RPCServer_done s"
  by (induction es arbitrary: s) (simp_all add: rpc_end_done bind_out_def split: outcome.split)

lemma RPCServer_done_open: "rs_DoneCh s \<Longrightarrow> \<not> rs_closed s \<Longrightarrow> RPCServer_done s = Ret (s\<lparr>rs_closed := True, rs_DoneCh := False\<rparr>)"
  by (simp add: RPCServer_done_def go_simps)

text \<open>
  The net/rpc server signals its end exactly once: whatever number of \<open>Quit\<close> calls and ended accept
  loops come together, in any order, none of them panics by closing the channel again, and the channel is
  closed as soon as there was one of them.
\<close>
theorem rpc_server_ends:
  assumes "rs_DoneCh s" "\<not> rs_closed s"
  shows "\<exists>s'. rpc_ends es s = Ret s' \<and> (rs_closed s' \<longleftrightarrow> es \<noteq> []) \<and> rs_Plugins s' = rs_Plugins s"
proof (cases es)
  case (Cons e es')
  let ?s = "s\<lparr>rs_closed := True, rs_DoneCh := False\<rparr>"
  have "iterate_out (length es') RPCServer_done ?s = Ret ?s"
    by (rule rpc_done.close_many_closed) (simp_all add: rpc_server_inv_def)
  with Cons show ?thesis by (simp add: rpc_ends_iterate RPCServer_done_open [OF assms])
qed (simp add: assms)

section \<open>Dispensing\<close>

text \<open>The identifiers that a sequence of \<open>Dispense\<close> calls on one connection accepts on.\<close>

fun dispense_all :: "(goerror \<Rightarrow> string) \<Rightarrow> (plugin \<Rightarrow> nat res) \<Rightarrow> plugin_set \<Rightarrow> string list \<Rightarrow> mux_broker \<Rightarrow> stream_id list" where
  "dispense_all Error serverOf plugins [] m = []"
| "dispense_all Error serverOf plugins (nam # nams) m =
     (case dispenseServer_Dispense Error serverOf plugins nam m of
        (r, m', started) \<Rightarrow>
          (case started of None \<Rightarrow> [] | Some (sid, impl) \<Rightarrow> [sid]) @ dispense_all Error serverOf plugins nams m')"

lemma dispense_cases:
  "dispenseServer_Dispense Error serverOf plugins nam m = (r, m', started) \<Longrightarrow>
     started = None \<and> m' = m \<and> (\<exists>e. r = Inl e) \<or> (\<exists>impl. started = Some (fst (NextId m), impl) \<and> m' = snd (NextId m) \<and> r = Inr (fst (NextId m)))"
  by (auto simp: dispenseServer_Dispense_def split: option.splits sum.splits prod.splits)

lemma dispense_all_ids: "\<exists>k \<le> length nams. dispense_all Error serverOf plugins nams m = take_ids NextId k m"
proof (induction nams arbitrary: m)
  case (Cons nam nams)
  obtain r m' started where d: "dispenseServer_Dispense Error serverOf plugins nam m = (r, m', started)"
    by (cases "dispenseServer_Dispense Error serverOf plugins nam m") auto
  from dispense_cases [OF d] show ?case
  proof (elim disjE conjE exE)
    assume "started = None" "m' = m"
    with Cons.IH [of m] d show ?case by (auto intro: le_SucI)
  next
    fix impl
    assume s: "started = Some (fst (NextId m), impl)" "m' = snd (NextId m)"
    from Cons.IH [of m'] obtain k where "k \<le> length nams" "dispense_all Error serverOf plugins nams m' = take_ids NextId k m'"
      by blast
    with s d show ?case by (intro exI [of _ "Suc k"]) (simp add: case_prod_beta)
  qed
qed simp



section \<open>Setting up and closing a connection\<close>

text \<open>
  Both ends of a session agree on what its first three streams are: when the plugin accepts the streams
  in the order in which the host opens them, both succeed together, with the same control connection,
  standard output and standard error.
\<close>
theorem rpc_streams_agree:
  assumes "\<And>i. accept i = open_stream i"
  shows "(\<exists>c. NewRPCClient None open_stream ps = (Inr c, False)
        \<and> ServeConn None accept = Serving (rc_control c) (rc_stdout c) (rc_stderr c))
    \<or> (\<exists>err. NewRPCClient None open_stream ps = (Inl err, True) \<and> ServeConn None accept = SessionClosed err)"
  by (auto simp: NewRPCClient_def ServeConn_def assms split: sum.split)

lemma close_parts_ok:
  "(fst (close_parts f ps) = None \<longleftrightarrow> (\<forall>p \<in> set ps. f p = None))
   \<and> (fst (close_parts f ps) = None \<longrightarrow> snd (close_parts f ps) = ps)"
  by (induction ps) (auto split: option.splits prod.splits)

text \<open>
  \<open>RPCClient.Close\<close> succeeds exactly when the plugin acknowledged \<open>Quit\<close> and everything could be
  closed, and then everything was closed. So a client that was made by this transport and whose plugin did
  not acknowledge \<open>Quit\<close> is always killed by force.
\<close>
theorem rpc_close_kill:
  shows "(fst (RPCClient_Close quit cl) = None \<longleftrightarrow> quit = None \<and> (\<forall>p. cl p = None))
    \<and> (fst (RPCClient_Close quit cl) = None \<longrightarrow> snd (RPCClient_Close quit cl) = [ControlConn, StdoutStream, StderrStream, Session])
    \<and> (k_Close K = (\<lambda>p. fst (RPCClient_Close (quits p) (cls p))) \<and> (\<forall>p. quits p \<noteq> None) \<longrightarrow> \<not> exits_gracefully K c)"
proof -
  have all: "(\<forall>p \<in> set [ControlConn, StdoutStream, StderrStream, Session]. f p = None) \<longleftrightarrow> (\<forall>p. f p = None)" for f :: "rpc_part \<Rightarrow> goerror option"
    by simp (metis rpc_part.exhaust)
  have ok: "(fst (RPCClient_Close quit cl) = None \<longleftrightarrow> quit = None \<and> (\<forall>p. cl p = None))
      \<and> (fst (RPCClient_Close quit cl) = None \<longrightarrow> snd (RPCClient_Close quit cl) = [ControlConn, StdoutStream, StderrStream, Session])"
    for quit cl
    using close_parts_ok [of cl "[ControlConn, StdoutStream, StderrStream, Session]"] all [of cl]
    by (auto simp: RPCClient_Close_def split: prod.splits option.splits)
  then show ?thesis by (auto simp: exits_gracefully_def)
qed

section \<open>Concrete runs\<close>

theorem rpc_server_ends_witness:
  "\<exists>s'. rpc_ends [QuitCalled, AcceptEnded net_ErrClosed, QuitCalled] \<lparr>rs_Plugins = [], rs_DoneCh = True, rs_closed = False\<rparr> = Ret s'
     \<and> rs_closed s'"
  using rpc_server_ends [of "\<lparr>rs_Plugins = [], rs_DoneCh = True, rs_closed = False\<rparr>"
      "[QuitCalled, AcceptEnded net_ErrClosed, QuitCalled]"] by auto


theorem rpc_streams_agree_witness:
  "\<exists>c. NewRPCClient None Inr [] = (Inr c, False) \<and> ServeConn None Inr = Serving (rc_control c) (rc_stdout c) (rc_stderr c)"
proof -
  have "NewRPCClient None Inr [] \<noteq> (Inl err, True)" for err by (simp add: NewRPCClient_def)
  with rpc_streams_agree [of Inr Inr "[]"] show ?thesis by blast
qed

theorem rpc_close_kill_witness:
  "\<not> exits_gracefully (demo_kill\<lparr>k_Close := (\<lambda>p. fst (RPCClient_Close (Some io_EOF) (\<lambda>q. None)))\<rparr>) demo_running
   \<and> fst (RPCClient_Close None (\<lambda>q. None)) = None"
  using rpc_close_kill [of None "\<lambda>q. None" "demo_kill\<lparr>k_Close := (\<lambda>p. fst (RPCClient_Close (Some io_EOF) (\<lambda>q. None)))\<rparr>"
      "\<lambda>p. Some io_EOF" "\<lambda>p q. None" demo_running] by simp

end
