(* ===== verification/Stdio.thy ===== *)
theory Stdio
  imports RPC "HOL-Library.Sublist"
begin

text \<open>
  The standard streams of a gRPC plugin (\<open>grpc_stdio.go\<close>) and the stream copies of net/rpc plugins
  (\<open>stream.go\<close>). In the plugin two goroutines read the pipes chunk by chunk into unbuffered channels, and
  \<open>StreamStdio\<close> sends the chunks over one gRPC stream; in the host \<open>Run\<close> writes them to the writers of the
  configuration. The gRPC stream delivers in order; what reading, sending and writing return is open.
\<close>

section \<open>Chunks\<close>

definition grpcStdioBuffer :: nat where "grpcStdioBuffer = 1 * 1024"

datatype stdio_channel = INVALID | STDOUT | STDERR

text \<open>
  A copier (\<open>copyChan\<close>) is in \<open>Read\<close>, blocked with a chunk and the error that came with it, or done. The
  results that \<open>Read\<close> is going to have are a list; when it is used up, \<open>Read\<close> blocks.
\<close>

type_synonym read_result = "string \<times> goerror option"

datatype copier_pc = Reading | Sending string "goerror option" | CopyDone

definition after_chunk :: "goerror option \<Rightarrow> copier_pc" where
  "after_chunk err = (if err = None then Reading else CopyDone)"

definition copyChan_read :: "read_result \<Rightarrow> copier_pc" where
  "copyChan_read r = (case r of (d, err) \<Rightarrow> if d \<noteq> [] then Sending d err else after_chunk err)"

text \<open>The level at which the end of a copier is logged.\<close>

definition copyChan_end_level :: "goerror \<Rightarrow> log_level" where
  "copyChan_end_level err = (if err = io_EOF then LogDebug else LogWarn)"

text \<open>What \<open>copyChan\<close> sends altogether.\<close>

fun copyChan_chunks :: "read_result list \<Rightarrow> string list" where
  "copyChan_chunks [] = []"
| "copyChan_chunks ((d, err) # rs) = (if d \<noteq> [] then [d] else []) @ (if err = None then copyChan_chunks rs else [])"

section \<open>The host\<close>

text \<open>
  \<open>newGRPCStdioClient\<close>: a plugin without the service is no error; the client is then nil. The code of a gRPC
  status is an argument.
\<close>

datatype grpc_code = Unavailable | Unimplemented | Canceled | OtherCode

definition newGRPCStdioClient :: "(goerror \<Rightarrow> grpc_code) \<Rightarrow> goerror option \<Rightarrow> bool res" where
  "newGRPCStdioClient code stream_err =
     (case stream_err of
        None \<Rightarrow> Inr True
      | Some err \<Rightarrow> (if code err \<in> {Unavailable, Unimplemented} then Inr False else Inl err))"

definition stdio_end_level :: "(goerror \<Rightarrow> grpc_code) \<Rightarrow> goerror \<Rightarrow> log_level" where
  "stdio_end_level code err =
     (if errors_Is err io_EOF \<or> code err \<in> {Unavailable, Canceled, Unimplemented} \<or> errors_Is err (ErrStd ''context canceled'')
      then LogDebug else LogError)"

text \<open>
  What became of one \<open>io.Copy\<close> to a writer: all bytes, an error after some of them, or a panic, which ends \<open>Run\<close>
  and is recovered.
\<close>

datatype write_result = WriteOk | WriteErr nat | WritePanic nat

definition bytes_written :: "write_result \<Rightarrow> string \<Rightarrow> string" where
  "bytes_written r d = (case r of WriteOk \<Rightarrow> d | WriteErr n \<Rightarrow> take n d | WritePanic n \<Rightarrow> take n d)"

section \<open>Both ends\<close>

datatype handler_pc = HandlerWait | HandlerHas stdio_channel string | HandlerEnded

record stdio_sys =
  sd_src :: "stdio_channel \<Rightarrow> read_result list"
  sd_copier :: "stdio_channel \<Rightarrow> copier_pc"
  sd_handler :: handler_pc
  sd_wire :: "(stdio_channel \<times> string) list"
  sd_receiving :: bool
  sd_written :: "stdio_channel \<Rightarrow> string"
  sd_lost :: "stdio_channel \<Rightarrow> string"

definition stdio_init :: "read_result list \<Rightarrow> read_result list \<Rightarrow> stdio_sys" where
  "stdio_init outs errs =
     \<lparr>sd_src = (\<lambda>ch. case ch of STDOUT \<Rightarrow> outs | STDERR \<Rightarrow> errs | INVALID \<Rightarrow> []), sd_copier = (\<lambda>_. Reading),
      sd_handler = HandlerWait, sd_wire = [], sd_receiving = True, sd_written = (\<lambda>_. []), sd_lost = (\<lambda>_. [])\<rparr>"

text \<open>
  The events: a copier reads; \<open>StreamStdio\<close> takes a chunk from one of the channels, sends it, fails to send it
  and returns, or returns because its context is done; \<open>Run\<close> receives a message and writes it, or ends
  because receiving failed.
\<close>

datatype stdio_event =
    CopierReads stdio_channel | HandlerTakes stdio_channel | HandlerSends | HandlerSendFails | HandlerDone
  | RunReceives write_result | RunRecvFails

definition handle_message :: "write_result \<Rightarrow> stdio_channel \<Rightarrow> string \<Rightarrow> stdio_sys \<Rightarrow> stdio_sys" where
  "handle_message r ch d s =
     (if ch = INVALID then s
      else s\<lparr>sd_written := (sd_written s)(ch := sd_written s ch @ bytes_written r d),
             sd_receiving := (case r of WritePanic n \<Rightarrow> False | _ \<Rightarrow> sd_receiving s)\<rparr>)"

fun stdio_next :: "stdio_event \<Rightarrow> stdio_sys \<Rightarrow> stdio_sys option" where
  "stdio_next (CopierReads ch) s =
     (case (sd_copier s ch, sd_src s ch) of
        (Reading, r # rs) \<Rightarrow>
          Some (s\<lparr>sd_copier := (sd_copier s)(ch := copyChan_read r), sd_src := (sd_src s)(ch := rs)\<rparr>)
      | _ \<Rightarrow> None)"
| "stdio_next (HandlerTakes ch) s =
     (case (sd_handler s, sd_copier s ch) of
        (HandlerWait, Sending d err) \<Rightarrow>
          Some (s\<lparr>sd_handler := (if d = [] then HandlerWait else HandlerHas ch d),
                  sd_copier := (sd_copier s)(ch := after_chunk err)\<rparr>)
      | _ \<Rightarrow> None)"
| "stdio_next HandlerSends s =
     (case sd_handler s of
        HandlerHas ch d \<Rightarrow> Some (s\<lparr>sd_handler := HandlerWait, sd_wire := sd_wire s @ [(ch, d)]\<rparr>)
      | _ \<Rightarrow> None)"
| "stdio_next HandlerSendFails s =
     (case sd_handler s of
        HandlerHas ch d \<Rightarrow> Some (s\<lparr>sd_handler := HandlerEnded, sd_lost := (sd_lost s)(ch := d)\<rparr>)
      | _ \<Rightarrow> None)"
| "stdio_next HandlerDone s = (if sd_handler s = HandlerWait then Some (s\<lparr>sd_handler := HandlerEnded\<rparr>) else None)"
| "stdio_next (RunReceives r) s =
     (case sd_wire s of
        (ch, d) # w \<Rightarrow> (if sd_receiving s then Some (handle_message r ch d (s\<lparr>sd_wire := w\<rparr>)) else None)
      | [] \<Rightarrow> None)"
| "stdio_next RunRecvFails s = (if sd_receiving s then Some (s\<lparr>sd_receiving := False\<rparr>) else None)"

text \<open>A run with writers that neither fail nor panic.\<close>

definition writes_ok :: "stdio_event \<Rightarrow> bool" where
  "writes_ok ev \<longleftrightarrow> (case ev of RunReceives r \<Rightarrow> r = WriteOk | _ \<Rightarrow> True)"

inductive stdio_reach :: "read_result list \<Rightarrow> read_result list \<Rightarrow> stdio_sys \<Rightarrow> bool" for outs errs where
  stdio_start: "stdio_reach outs errs (stdio_init outs errs)"
| stdio_step: "stdio_reach outs errs s \<Longrightarrow> stdio_next ev s = Some s' \<Longrightarrow> writes_ok ev \<Longrightarrow> stdio_reach outs errs s'"

fun stdio_run :: "stdio_event list \<Rightarrow> stdio_sys \<Rightarrow> stdio_sys option" where
  "stdio_run [] s = Some s"
| "stdio_run (ev # evs) s = (case stdio_next ev s of None \<Rightarrow> None | Some s' \<Rightarrow> stdio_run evs s')"

section \<open>stream.go\<close>

text \<open>
  \<open>copyStream\<close>: what it logs, if anything, for a missing source or destination and for the error of \<open>io.Copy\<close>.
\<close>

definition copyStream :: "bool \<Rightarrow> bool \<Rightarrow> goerror option \<Rightarrow> string option" where
  "copyStream src_nil dst_nil copy_err =
     (if src_nil then Some ''stream copy aborted: src is nil''
      else if dst_nil then Some ''stream copy aborted: dst is nil''
      else case copy_err of
             None \<Rightarrow> None
           | Some err \<Rightarrow> (if errors_Is err io_EOF then None else Some ''stream copy error''))"

section \<open>The invariant\<close>

text \<open>
  The bytes of one channel, in order: written, on the wire, in the hands of the handler or lost by it, in
  the hands of the copier, and still to be read.
\<close>

definition on_wire :: "stdio_channel \<Rightarrow> (stdio_channel \<times> string) list \<Rightarrow> string" where
  "on_wire ch w = concat (map snd (filter (\<lambda>m. fst m = ch) w))"

definition at_handler :: "stdio_channel \<Rightarrow> stdio_sys \<Rightarrow> string" where
  "at_handler ch s = (case sd_handler s of HandlerHas c d \<Rightarrow> if c = ch then d else [] | _ \<Rightarrow> [])"

fun copier_bytes :: "copier_pc \<Rightarrow> read_result list \<Rightarrow> string" where
  "copier_bytes Reading rs = concat (copyChan_chunks rs)"
| "copier_bytes (Sending d err) rs = d @ (if err = None then concat (copyChan_chunks rs) else [])"
| "copier_bytes CopyDone rs = []"

definition at_copier :: "stdio_channel \<Rightarrow> stdio_sys \<Rightarrow> string" where
  "at_copier ch s = copier_bytes (sd_copier s ch) (sd_src s ch)"

definition stream_bytes :: "stdio_channel \<Rightarrow> stdio_sys \<Rightarrow> string" where
  "stream_bytes ch s = sd_written s ch @ on_wire ch (sd_wire s) @ at_handler ch s @ sd_lost s ch @ at_copier ch s"

definition stdio_ok :: "stdio_sys \<Rightarrow> stdio_sys \<Rightarrow> bool" where
  "stdio_ok s0 s \<longleftrightarrow> (\<forall>ch. stream_bytes ch s = stream_bytes ch s0) \<and> (\<forall>ch. sd_lost s ch \<noteq> [] \<longrightarrow> sd_handler s = HandlerEnded)
     \<and> (\<forall>ch d. sd_handler s = HandlerHas ch d \<longrightarrow> ch \<noteq> INVALID) \<and> (\<forall>(ch, d) \<in> set (sd_wire s). ch \<noteq> INVALID)
     \<and> sd_copier s INVALID = Reading \<and> sd_src s INVALID = []"

lemma on_wire_simps [simp]:
  "on_wire ch [] = []"
  "on_wire ch (w @ [(c, d)]) = on_wire ch w @ (if c = ch then d else [])"
  "on_wire ch ((c, d) # w) = (if c = ch then d else []) @ on_wire ch w"
  by (simp_all add: on_wire_def)

lemma reads_ok: "stdio_ok s0 s \<Longrightarrow> stdio_next (CopierReads ch) s = Some s' \<Longrightarrow> stdio_ok s0 s'"
proof -
  assume ok: "stdio_ok s0 s" and n: "stdio_next (CopierReads ch) s = Some s'"
  obtain d err rs where r: "sd_copier s ch = Reading" "sd_src s ch = (d, err) # rs"
    "s' = s\<lparr>sd_copier := (sd_copier s)(ch := copyChan_read (d, err)), sd_src := (sd_src s)(ch := rs)\<rparr>"
    using n by (auto split: copier_pc.splits list.splits)
  have "at_copier c s' = at_copier c s" for c
    using r by (auto simp: at_copier_def copyChan_read_def after_chunk_def)
  then have "stream_bytes c s' = stream_bytes c s" for c by (simp add: stream_bytes_def at_handler_def r(3))
  moreover have "ch \<noteq> INVALID" using ok r by (auto simp: stdio_ok_def)
  ultimately show ?thesis using ok by (simp add: stdio_ok_def r(3))
qed

lemma takes_ok: "stdio_ok s0 s \<Longrightarrow> stdio_next (HandlerTakes ch) s = Some s' \<Longrightarrow> stdio_ok s0 s'"
proof -
  assume ok: "stdio_ok s0 s" and n: "stdio_next (HandlerTakes ch) s = Some s'"
  obtain d err where r: "sd_handler s = HandlerWait" "sd_copier s ch = Sending d err"
    "s' = s\<lparr>sd_handler := (if d = [] then HandlerWait else HandlerHas ch d), sd_copier := (sd_copier s)(ch := after_chunk err)\<rparr>"
    using n by (auto split: handler_pc.splits copier_pc.splits)
  have lost: "sd_lost s c = []" for c using ok r(1) by (auto simp: stdio_ok_def)
  have "at_handler c s' @ at_copier c s' = at_copier c s \<and> at_handler c s = []" for c
    using r by (auto simp: at_copier_def at_handler_def after_chunk_def)
  then have "stream_bytes c s' = stream_bytes c s" for c using lost [of c] by (simp add: stream_bytes_def r(3))
  moreover have "ch \<noteq> INVALID" using ok r by (auto simp: stdio_ok_def)
  ultimately show ?thesis using ok lost by (simp add: stdio_ok_def r(3))
qed

lemma sends_ok: "stdio_ok s0 s \<Longrightarrow> stdio_next HandlerSends s = Some s' \<Longrightarrow> stdio_ok s0 s'"
proof -
  assume ok: "stdio_ok s0 s" and n: "stdio_next HandlerSends s = Some s'"
  obtain ch d where r: "sd_handler s = HandlerHas ch d" "s' = s\<lparr>sd_handler := HandlerWait, sd_wire := sd_wire s @ [(ch, d)]\<rparr>"
    using n by (auto split: handler_pc.splits)
  then have "stream_bytes c s' = stream_bytes c s" for c by (simp add: stream_bytes_def at_handler_def at_copier_def)
  with ok r show ?thesis by (auto simp: stdio_ok_def)
qed

lemma fails_ok: "stdio_ok s0 s \<Longrightarrow> stdio_next HandlerSendFails s = Some s' \<Longrightarrow> stdio_ok s0 s'"
proof -
  assume ok: "stdio_ok s0 s" and n: "stdio_next HandlerSendFails s = Some s'"
  obtain ch d where r: "sd_handler s = HandlerHas ch d" "s' = s\<lparr>sd_handler := HandlerEnded, sd_lost := (sd_lost s)(ch := d)\<rparr>"
    using n by (auto split: handler_pc.splits)
  have "sd_lost s c = []" for c using ok r(1) by (auto simp: stdio_ok_def)
  with r have "stream_bytes c s' = stream_bytes c s" for c by (simp add: stream_bytes_def at_handler_def at_copier_def)
  with ok r show ?thesis by (auto simp: stdio_ok_def)
qed

lemma done_ok: "stdio_ok s0 s \<Longrightarrow> stdio_next HandlerDone s = Some s' \<Longrightarrow> stdio_ok s0 s'"
  by (auto simp: stdio_ok_def stream_bytes_def at_handler_def at_copier_def split: if_splits)

lemma receives_ok: "stdio_ok s0 s \<Longrightarrow> stdio_next (RunReceives WriteOk) s = Some s' \<Longrightarrow> stdio_ok s0 s'"
proof -
  assume ok: "stdio_ok s0 s" and n: "stdio_next (RunReceives WriteOk) s = Some s'"
  obtain ch d w where r: "sd_wire s = (ch, d) # w" "s' = handle_message WriteOk ch d (s\<lparr>sd_wire := w\<rparr>)"
    using n by (auto split: list.splits if_splits)
  have "ch \<noteq> INVALID" using ok r(1) by (auto simp: stdio_ok_def)
  then have s': "s' = s\<lparr>sd_wire := w, sd_written := (sd_written s)(ch := sd_written s ch @ d)\<rparr>"
    by (simp add: r(2) handle_message_def bytes_written_def)
  then have "stream_bytes c s' = stream_bytes c s" for c
    by (simp add: stream_bytes_def at_handler_def at_copier_def r(1))
  with ok r(1) show ?thesis by (auto simp: stdio_ok_def s')
qed

lemma recv_fails_ok: "stdio_ok s0 s \<Longrightarrow> stdio_next RunRecvFails s = Some s' \<Longrightarrow> stdio_ok s0 s'"
  by (auto simp: stdio_ok_def stream_bytes_def at_handler_def at_copier_def split: if_splits)

lemma reach_stdio_ok: "stdio_reach outs errs s \<Longrightarrow> stdio_ok (stdio_init outs errs) s"
proof (induction rule: stdio_reach.induct)
  case stdio_start
  show ?case by (auto simp: stdio_ok_def stdio_init_def)
next
  case (stdio_step s ev s')
  then show ?case
    by (cases ev) (auto simp: writes_ok_def simp del: stdio_next.simps
        intro: reads_ok takes_ok sends_ok fails_ok done_ok receives_ok recv_fails_ok)
qed

lemma init_bytes:
  "stream_bytes STDOUT (stdio_init outs errs) = concat (copyChan_chunks outs)"
  "stream_bytes STDERR (stdio_init outs errs) = concat (copyChan_chunks errs)"
  by (simp_all add: stream_bytes_def stdio_init_def at_handler_def at_copier_def)

section \<open>Properties\<close>

text \<open>The bytes that \<open>Read\<close> returned before its first error, with that error's own bytes.\<close>

fun bytes_read :: "read_result list \<Rightarrow> string" where
  "bytes_read [] = []"
| "bytes_read ((d, err) # rs) = d @ (if err = None then bytes_read rs else [])"

lemma chunks_bytes: "concat (copyChan_chunks rs) = bytes_read rs"
  by (induction rs rule: bytes_read.induct) auto

text \<open>
  C13: The standard streams of a plugin arrive unchanged and unmixed. With writers that work, in every
  interleaving the host has written to each of its two writers a prefix of what the plugin's pipe of the
  same name delivered, and as long as \<open>StreamStdio\<close> has not returned everything else is still under way:
  nothing is lost, repeated, reordered or written to the other writer. When nothing is under way any more,
  all of it has been written.
\<close>
theorem stdio_faithful:
  assumes "stdio_reach outs errs s"
  shows "prefix (sd_written s STDOUT) (bytes_read outs) \<and> prefix (sd_written s STDERR) (bytes_read errs)
    \<and> (sd_handler s = HandlerWait \<and> sd_wire s = [] \<and> at_copier STDOUT s = [] \<and> at_copier STDERR s = []
        \<longrightarrow> sd_written s STDOUT = bytes_read outs \<and> sd_written s STDERR = bytes_read errs)"
proof -
  have ok: "stdio_ok (stdio_init outs errs) s" using assms by (rule reach_stdio_ok)
  then have b: "stream_bytes STDOUT s = bytes_read outs" "stream_bytes STDERR s = bytes_read errs"
    by (simp_all add: stdio_ok_def init_bytes chunks_bytes)
  then have "prefix (sd_written s STDOUT) (bytes_read outs)" "prefix (sd_written s STDERR) (bytes_read errs)"
    by (metis stream_bytes_def prefixI)+
  moreover have "sd_lost s ch = []" if "sd_handler s = HandlerWait" for ch using ok that by (auto simp: stdio_ok_def)
  ultimately show ?thesis using b by (auto simp: stream_bytes_def at_handler_def)
qed

text \<open>
  Chunks are never empty, and no longer than the buffer when \<open>Read\<close> keeps to it; an empty read with no error
  sends nothing.
\<close>
lemma copyChan_bounds:
  assumes "\<forall>(d, err) \<in> set rs. length d \<le> grpcStdioBuffer"
  shows "\<forall>d \<in> set (copyChan_chunks rs). d \<noteq> [] \<and> length d \<le> grpcStdioBuffer"
  using assms by (induction rs rule: copyChan_chunks.induct) (auto split: if_splits)

section \<open>A concrete run\<close>

lemma stdio_run_reach: "stdio_reach outs errs s \<Longrightarrow> stdio_run evs s = Some s' \<Longrightarrow> \<forall>ev \<in> set evs. writes_ok ev \<Longrightarrow> stdio_reach outs errs s'"
  by (induction evs arbitrary: s) (auto split: option.splits intro: stdio_step)

theorem stdio_faithful_witness:
  "\<exists>s. stdio_run [CopierReads STDERR, CopierReads STDOUT, HandlerTakes STDOUT, HandlerSends, HandlerTakes STDERR, HandlerSends,
          RunReceives WriteOk, RunReceives WriteOk]
        (stdio_init [(''out'', None)] [(''err'', Some io_EOF)]) = Some s
     \<and> sd_written s STDOUT = ''out'' \<and> sd_written s STDERR = ''err''"
proof -
  let ?evs = "[CopierReads STDERR, CopierReads STDOUT, HandlerTakes STDOUT, HandlerSends, HandlerTakes STDERR, HandlerSends,
          RunReceives WriteOk, RunReceives WriteOk]"
  obtain s where s: "stdio_run ?evs (stdio_init [(''out'', None)] [(''err'', Some io_EOF)]) = Some s"
    "sd_handler s = HandlerWait" "sd_wire s = []" "at_copier STDOUT s = []" "at_copier STDERR s = []"
    by (simp add: stdio_init_def copyChan_read_def after_chunk_def handle_message_def at_copier_def)
  have "stdio_reach [(''out'', None)] [(''err'', Some io_EOF)] s"
    using s(1) by (rule stdio_run_reach [OF stdio_start]) (simp add: writes_ok_def)
  from stdio_faithful [OF this] s show ?thesis by simp
qed

end
