(* ===== verification/GRPCStream.thy ===== *)
theory GRPCStream
  imports GRPCBroker
begin

text \<open>
  The two ends of the broker's gRPC stream (\<open>grpc_broker.go\<close>): \<open>gRPCBrokerServer\<close> in the plugin and
  \<open>gRPCBrokerClientImpl\<close> in the host, which have the same fields and the same goroutines. The calls of \<open>Send\<close>
  and \<open>Recv\<close> by the broker, the sending goroutine and the receiving loop of \<open>StartStream\<close>, and \<open>Close\<close> are
  interleaved; the channels \<open>send\<close>, \<open>recv\<close> and \<open>sendErr.ch\<close> are unbuffered, so that a transfer over one of them
  is one event of both sides. There is one stream, as the host opens only one.
\<close>

section \<open>Closing\<close>

text \<open>The flags of a streamer: whether \<open>quit\<close> is closed and whether \<open>o\<close> has run.\<close>

record streamer =
  st_quit :: bool
  st_o :: bool

definition newGRPCBrokerServer :: streamer where
  "newGRPCBrokerServer = \<lparr>st_quit = False, st_o = False\<rparr>"

definition newGRPCBrokerClient :: streamer where
  "newGRPCBrokerClient = \<lparr>st_quit = False, st_o = False\<rparr>"

definition streamer_Close :: "streamer \<Rightarrow> streamer outcome" where
  "streamer_Close t =
     bind_out (once_Do (st_o t) (\<lambda>t. bind_out (close_chan (st_quit t)) (\<lambda>q. Ret (t\<lparr>st_quit := q\<rparr>))) t)
       (\<lambda>(oc, t'). Ret (t'\<lparr>st_o := oc\<rparr>))"

definition streamer_inv :: "streamer \<Rightarrow> bool" where
  "streamer_inv t \<longleftrightarrow> (st_o t \<longleftrightarrow> st_quit t)"

lemma streamer_Close_eq: "streamer_inv t \<Longrightarrow> streamer_Close t = Ret \<lparr>st_quit = True, st_o = True\<rparr>"
  by (cases t) (auto simp: streamer_Close_def streamer_inv_def once_Do_def close_chan_def)

interpretation streamer_close: once_closer streamer_Close st_quit streamer_inv
proof unfold_locales
  fix t
  assume inv: "streamer_inv t"
  then show "\<exists>t'. streamer_Close t = Ret t' \<and> streamer_inv t' \<and> st_quit t'"
    by (simp add: streamer_Close_eq) (simp add: streamer_inv_def)
  show "streamer_Close t = Ret t" if "st_quit t"
    using inv that by (cases t) (simp add: streamer_Close_eq, simp add: streamer_inv_def)
qed

section \<open>The goroutines\<close>

text \<open>
  The sending goroutine waits for work, has taken a message of a call of \<open>Send\<close>, or has the result of
  \<open>stream.Send\<close> to report; the receiving loop is in \<open>stream.Recv\<close>, has a message, or has returned. A call of
  \<open>Send\<close> is known by a number; it waits in its select or has handed over its message.
\<close>

datatype sender_pc = SenderIdle | SenderHas nat conn_info | SenderReports nat "goerror option" | SenderEnded

datatype recver_pc = NotStarted | InRecv | RecverHas conn_info | RecverEnded

datatype send_call = SendWait conn_info | SendHanded

record stream_sys =
  ts_streamer :: streamer
  ts_ctx_done :: bool
  ts_sender :: sender_pc
  ts_recver :: recver_pc
  ts_calls :: "nat \<Rightarrow> send_call option"
  ts_next :: nat
  ts_returned :: "(nat \<times> goerror option) list"
  ts_out :: "(nat \<times> conn_info) list"
  ts_arrived :: "conn_info list"
  ts_delivered :: "conn_info list"
  ts_recv_errs :: nat

definition stream_init :: "streamer \<Rightarrow> stream_sys" where
  "stream_init t =
     \<lparr>ts_streamer = t, ts_ctx_done = False, ts_sender = SenderEnded, ts_recver = NotStarted, ts_calls = Map.empty,
      ts_next = 0, ts_returned = [], ts_out = [], ts_arrived = [], ts_delivered = [], ts_recv_errs = 0\<rparr>"

abbreviation broker_closed :: goerror where "broker_closed \<equiv> ErrNew ''broker closed''"

definition close_streamer :: "stream_sys \<Rightarrow> stream_sys outcome" where
  "close_streamer s = bind_out (streamer_Close (ts_streamer s)) (\<lambda>t. Ret (s\<lparr>ts_streamer := t\<rparr>))"

definition call_returns :: "nat \<Rightarrow> goerror option \<Rightarrow> stream_sys \<Rightarrow> stream_sys" where
  "call_returns n err s = s\<lparr>ts_calls := (ts_calls s)(n := None), ts_returned := (n, err) # ts_returned s\<rparr>"

text \<open>
  The events. \<open>StartStream\<close> of the host first opens the stream, which may fail. The context of the stream ends
  when the connection does.
\<close>

datatype stream_event =
    StartStream "goerror option"
  | CallSend conn_info | SendQuit nat | TakeSend nat | StreamSend "goerror option" | ReportSend | SenderStops
  | StreamRecv conn_info | StreamRecvFails | GiveRecv | RecverStops | RecvQuit
  | StreamDone | CloseStreamer

fun stream_next :: "stream_event \<Rightarrow> stream_sys \<Rightarrow> stream_sys outcome option" where
  "stream_next (StartStream err) s =
     (if ts_recver s \<noteq> NotStarted then None
      else case err of
             Some e \<Rightarrow> Some (close_streamer (s\<lparr>ts_recver := RecverEnded\<rparr>))
           | None \<Rightarrow> Some (Ret (s\<lparr>ts_recver := InRecv, ts_sender := SenderIdle\<rparr>)))"
| "stream_next (CallSend m) s =
     Some (Ret (s\<lparr>ts_calls := (ts_calls s)(ts_next s \<mapsto> SendWait m), ts_next := Suc (ts_next s)\<rparr>))"
| "stream_next (SendQuit n) s =
     (case ts_calls s n of
        Some (SendWait m) \<Rightarrow>
          (if st_quit (ts_streamer s) then Some (Ret (call_returns n (Some broker_closed) s)) else None)
      | _ \<Rightarrow> None)"
| "stream_next (TakeSend n) s =
     (case ts_calls s n of
        Some (SendWait m) \<Rightarrow>
          (if ts_sender s = SenderIdle
           then Some (Ret (s\<lparr>ts_sender := SenderHas n m, ts_calls := (ts_calls s)(n \<mapsto> SendHanded)\<rparr>)) else None)
      | _ \<Rightarrow> None)"
| "stream_next (StreamSend err) s =
     (case ts_sender s of
        SenderHas n m \<Rightarrow>
          Some (Ret (s\<lparr>ts_sender := SenderReports n err, ts_out := (if err = None then ts_out s @ [(n, m)] else ts_out s)\<rparr>))
      | _ \<Rightarrow> None)"
| "stream_next ReportSend s =
     (case ts_sender s of
        SenderReports n err \<Rightarrow> Some (Ret (call_returns n err (s\<lparr>ts_sender := SenderIdle\<rparr>)))
      | _ \<Rightarrow> None)"
| "stream_next SenderStops s =
     (if ts_sender s = SenderIdle \<and> (ts_ctx_done s \<or> st_quit (ts_streamer s))
      then Some (Ret (s\<lparr>ts_sender := SenderEnded\<rparr>)) else None)"
| "stream_next (StreamRecv m) s =
     (if ts_recver s = InRecv then Some (Ret (s\<lparr>ts_recver := RecverHas m, ts_arrived := ts_arrived s @ [m]\<rparr>)) else None)"
| "stream_next StreamRecvFails s =
     (if ts_recver s = InRecv then Some (close_streamer (s\<lparr>ts_recver := RecverEnded\<rparr>)) else None)"
| "stream_next GiveRecv s =
     (case ts_recver s of
        RecverHas m \<Rightarrow> Some (Ret (s\<lparr>ts_recver := InRecv, ts_delivered := ts_delivered s @ [m]\<rparr>))
      | _ \<Rightarrow> None)"
| "stream_next RecverStops s =
     (case ts_recver s of
        RecverHas m \<Rightarrow>
          (if ts_ctx_done s \<or> st_quit (ts_streamer s) then Some (close_streamer (s\<lparr>ts_recver := RecverEnded\<rparr>)) else None)
      | _ \<Rightarrow> None)"
| "stream_next RecvQuit s =
     (if st_quit (ts_streamer s) then Some (Ret (s\<lparr>ts_recv_errs := Suc (ts_recv_errs s)\<rparr>)) else None)"
| "stream_next StreamDone s = (if ts_recver s = NotStarted then None else Some (Ret (s\<lparr>ts_ctx_done := True\<rparr>)))"
| "stream_next CloseStreamer s = Some (close_streamer s)"

inductive stream_reach :: "stream_sys \<Rightarrow> bool" where
  stream_start: "t \<in> {newGRPCBrokerServer, newGRPCBrokerClient} \<Longrightarrow> stream_reach (stream_init t)"
| stream_step: "stream_reach s \<Longrightarrow> stream_next ev s = Some (Ret s') \<Longrightarrow> stream_reach s'"

fun stream_run :: "stream_event list \<Rightarrow> stream_sys \<Rightarrow> stream_sys outcome option" where
  "stream_run [] s = Some (Ret s)"
| "stream_run (ev # evs) s =
     (case stream_next ev s of
        Some (Ret s') \<Rightarrow> stream_run evs s'
      | r \<Rightarrow> r)"

section \<open>The invariant\<close>

fun handed :: "sender_pc \<Rightarrow> nat \<Rightarrow> bool" where
  "handed (SenderHas n m) k \<longleftrightarrow> k = n"
| "handed (SenderReports n err) k \<longleftrightarrow> k = n"
| "handed _ k \<longleftrightarrow> False"

definition calls_inv :: "(nat \<Rightarrow> send_call option) \<Rightarrow> nat \<Rightarrow> (nat \<Rightarrow> bool) \<Rightarrow> (nat \<times> goerror option) list \<Rightarrow> bool" where
  "calls_inv calls k h returned \<longleftrightarrow> (\<forall>n. calls n = Some SendHanded \<longleftrightarrow> h n)
     \<and> (\<forall>n. k \<le> n \<longrightarrow> calls n = None) \<and> (\<forall>n err. (n, err) \<in> set returned \<longrightarrow> n < k \<and> calls n = None)"

definition calls_ok :: "stream_sys \<Rightarrow> bool" where
  "calls_ok s \<longleftrightarrow> calls_inv (ts_calls s) (ts_next s) (handed (ts_sender s)) (ts_returned s)"

definition sent_calls :: "(nat \<times> conn_info) list \<Rightarrow> nat set" where
  "sent_calls out = set (map fst out)"

lemma sent_calls_snoc [simp]: "sent_calls (out @ [(n, m)]) = insert n (sent_calls out)" "sent_calls [] = {}"
  by (simp_all add: sent_calls_def)

lemma distinct_snoc: "distinct (map fst (out @ [(n, m)])) \<longleftrightarrow> distinct (map fst out) \<and> n \<notin> sent_calls out"
  by (auto simp: sent_calls_def)

definition out_ok :: "stream_sys \<Rightarrow> bool" where
  "out_ok s \<longleftrightarrow> distinct (map fst (ts_out s))
     \<and> (\<forall>n. n \<in> sent_calls (ts_out s) \<longleftrightarrow> (n, None) \<in> set (ts_returned s) \<or> ts_sender s = SenderReports n None)"

definition in_ok :: "stream_sys \<Rightarrow> bool" where
  "in_ok s \<longleftrightarrow>
     (case ts_recver s of
        NotStarted \<Rightarrow> ts_arrived s = [] \<and> ts_delivered s = [] \<and> ts_sender s = SenderEnded
      | InRecv \<Rightarrow> ts_arrived s = ts_delivered s
      | RecverHas m \<Rightarrow> ts_arrived s = ts_delivered s @ [m]
      | RecverEnded \<Rightarrow> st_quit (ts_streamer s) \<and> (ts_arrived s = ts_delivered s \<or> (\<exists>m. ts_arrived s = ts_delivered s @ [m])))"

definition stream_ok :: "stream_sys \<Rightarrow> bool" where
  "stream_ok s \<longleftrightarrow> streamer_inv (ts_streamer s) \<and> calls_ok s \<and> out_ok s \<and> in_ok s"

lemma close_streamer_eq: "streamer_inv (ts_streamer s) \<Longrightarrow> close_streamer s = Ret (s\<lparr>ts_streamer := \<lparr>st_quit = True, st_o = True\<rparr>\<rparr>)"
  by (simp add: close_streamer_def streamer_Close_eq)

text \<open>No event panics, and every event keeps the four parts.\<close>

lemma stream_next_Ret: "streamer_inv (ts_streamer s) \<Longrightarrow> stream_next ev s = Some r \<Longrightarrow> \<exists>s'. r = Ret s'"
  by (cases ev) (auto simp: close_streamer_eq split: if_splits option.splits send_call.splits sender_pc.splits recver_pc.splits)

lemma inv_next: "streamer_inv (ts_streamer s) \<Longrightarrow> stream_next ev s = Some (Ret s') \<Longrightarrow> streamer_inv (ts_streamer s')"
  by (cases ev) (auto simp: close_streamer_eq streamer_inv_def call_returns_def
      split: if_splits option.splits send_call.splits sender_pc.splits recver_pc.splits)

lemma in_next:
  "streamer_inv (ts_streamer s) \<Longrightarrow> in_ok s \<Longrightarrow> stream_next ev s = Some (Ret s') \<Longrightarrow> in_ok s'"
  by (cases ev; cases "ts_recver s")
    (auto simp: close_streamer_eq in_ok_def call_returns_def split: if_splits option.splits send_call.splits sender_pc.splits)

lemma calls_inv_call:
  assumes "calls_inv c k h r"
  shows "calls_inv (c(k \<mapsto> SendWait m)) (Suc k) h r"
proof -
  have "c k = None" using assms by (simp add: calls_inv_def)
  then have "\<not> h k" using assms unfolding calls_inv_def by (metis option.distinct(1))
  with assms show ?thesis by (auto simp: calls_inv_def intro: less_SucI)
qed

lemma calls_inv_take:
  assumes "calls_inv c k (\<lambda>_. False) r" "c n = Some (SendWait m)"
  shows "calls_inv (c(n \<mapsto> SendHanded)) k ((=) n) r"
proof -
  have "n < k" using assms by (metis calls_inv_def not_less option.distinct(1))
  with assms show ?thesis by (auto simp: calls_inv_def)
qed

lemma calls_inv_return:
  assumes "calls_inv c k h r" "c n = Some x" "\<And>j. h' j \<longleftrightarrow> h j \<and> j \<noteq> n"
  shows "calls_inv (c(n := None)) k h' ((n, err) # r)"
proof -
  have "n < k" using assms(1,2) by (metis calls_inv_def not_less option.distinct(1))
  with assms show ?thesis by (auto simp: calls_inv_def)
qed

lemma handed_sets:
  "handed SenderIdle = (\<lambda>_. False)" "handed SenderEnded = (\<lambda>_. False)"
  "handed (SenderHas n m) = (=) n" "handed (SenderReports n err) = (=) n"
  by (simp_all add: fun_eq_iff eq_commute)

lemma calls_next:
  assumes "streamer_inv (ts_streamer s)" "calls_ok s" "in_ok s" "stream_next ev s = Some (Ret s')"
  shows "calls_ok s'"
proof (cases ev)
  case (StartStream err)
  with assms show ?thesis
    by (auto simp: calls_ok_def in_ok_def close_streamer_eq handed_sets split: if_splits option.splits)
next
  case (CallSend m)
  with assms show ?thesis by (auto simp: calls_ok_def calls_inv_call)
next
  case (SendQuit n)
  with assms obtain m where m: "ts_calls s n = Some (SendWait m)" "s' = call_returns n (Some broker_closed) s"
    by (auto split: option.splits send_call.splits if_splits)
  have "\<not> handed (ts_sender s) n" using assms(2) m unfolding calls_ok_def calls_inv_def
    by (metis option.inject send_call.distinct(1))
  with assms(2) m show ?thesis by (auto simp: calls_ok_def call_returns_def intro!: calls_inv_return)
next
  case (TakeSend n)
  with assms show ?thesis
    by (auto simp: calls_ok_def handed_sets intro: calls_inv_take split: option.splits send_call.splits if_splits)
next
  case (StreamSend err)
  with assms show ?thesis by (auto simp: calls_ok_def handed_sets split: sender_pc.splits)
next
  case ReportSend
  with assms obtain n err where n: "ts_sender s = SenderReports n err" "s' = call_returns n err (s\<lparr>ts_sender := SenderIdle\<rparr>)"
    by (auto split: sender_pc.splits)
  then have "ts_calls s n = Some SendHanded" using assms(2) by (auto simp: calls_ok_def calls_inv_def)
  with assms(2) n show ?thesis by (auto simp: calls_ok_def call_returns_def intro!: calls_inv_return)
next
  case SenderStops
  with assms show ?thesis by (auto simp: calls_ok_def handed_sets split: if_splits)
qed (use assms in \<open>auto simp: calls_ok_def close_streamer_eq split: if_splits recver_pc.splits\<close>)

lemma out_next:
  assumes "streamer_inv (ts_streamer s)" "calls_ok s" "in_ok s" "out_ok s" "stream_next ev s = Some (Ret s')"
  shows "out_ok s'"
proof (cases ev)
  case (StartStream err)
  with assms show ?thesis by (auto simp: out_ok_def in_ok_def close_streamer_eq split: if_splits option.splits)
next
  case (SendQuit n)
  with assms show ?thesis
    by (auto simp: out_ok_def call_returns_def split: option.splits send_call.splits if_splits)
next
  case (TakeSend n)
  with assms show ?thesis by (auto simp: out_ok_def split: option.splits send_call.splits if_splits)
next
  case (StreamSend err)
  with assms obtain n m where n: "ts_sender s = SenderHas n m"
    "s' = s\<lparr>ts_sender := SenderReports n err, ts_out := (if err = None then ts_out s @ [(n, m)] else ts_out s)\<rparr>"
    by (auto split: sender_pc.splits)
  have "ts_calls s n = Some SendHanded" using assms(2) n(1) by (auto simp: calls_ok_def calls_inv_def)
  then have "(n, None) \<notin> set (ts_returned s)" using assms(2) unfolding calls_ok_def calls_inv_def by (metis option.distinct(1))
  then have "n \<notin> sent_calls (ts_out s)" using assms(4) n(1) by (simp add: out_ok_def)
  with assms(4) n show ?thesis by (auto simp: out_ok_def distinct_snoc simp del: map_append)
next
  case ReportSend
  with assms show ?thesis by (auto simp: out_ok_def call_returns_def split: sender_pc.splits)
next
  case SenderStops
  with assms show ?thesis by (auto simp: out_ok_def split: if_splits)
qed (use assms in \<open>auto simp: out_ok_def close_streamer_eq split: if_splits recver_pc.splits\<close>)

lemma reach_stream_ok: "stream_reach s \<Longrightarrow> stream_ok s"
proof (induction rule: stream_reach.induct)
  case (stream_start t)
  then show ?case
    by (auto simp: stream_ok_def stream_init_def streamer_inv_def newGRPCBrokerServer_def newGRPCBrokerClient_def calls_ok_def
        calls_inv_def out_ok_def in_ok_def)
next
  case (stream_step s ev s')
  then show ?case unfolding stream_ok_def by (metis inv_next in_next calls_next out_next)
qed

section \<open>Properties\<close>


text \<open>The events that let a waiting call of \<open>Send\<close> return once the streamer is closed.\<close>

definition finish_send :: "nat \<Rightarrow> stream_sys \<Rightarrow> stream_event list" where
  "finish_send n s =
     (case ts_calls s n of
        Some (SendWait m) \<Rightarrow> [SendQuit n]
      | _ \<Rightarrow> (case ts_sender s of SenderHas k m \<Rightarrow> [StreamSend None, ReportSend] | _ \<Rightarrow> [ReportSend]))"

text \<open>
  C31: No call of \<open>Send\<close> is left hanging by the end of the stream: as soon as the streamer is closed every call
  that has not returned can return by the steps of its own goroutine and the sender alone, with the
  error \<open>broker closed\<close> or with the result of sending; and when the receiving loop has ended the streamer
  is closed.
\<close>
theorem send_returns:
  assumes "stream_reach s" "st_quit (ts_streamer s) \<or> ts_recver s = RecverEnded" "ts_calls s n \<noteq> None"
  shows "\<exists>s' err. stream_run (finish_send n s) s = Some (Ret s') \<and> ts_calls s' n = None \<and> (n, err) \<in> set (ts_returned s')"
proof -
  have ok: "stream_ok s" using assms(1) by (rule reach_stream_ok)
  then have q: "st_quit (ts_streamer s)" using assms(2) by (auto simp: stream_ok_def in_ok_def)
  show ?thesis
  proof (cases "ts_calls s n")
    case (Some c)
    show ?thesis
    proof (cases c)
      case (SendWait m)
      with Some q show ?thesis by (auto simp: finish_send_def call_returns_def)
    next
      case SendHanded
      with Some ok have "handed (ts_sender s) n" by (auto simp: stream_ok_def calls_ok_def calls_inv_def)
      with Some SendHanded show ?thesis by (cases "ts_sender s") (auto simp: finish_send_def call_returns_def)
    qed
  qed (use assms(3) in simp)
qed

section \<open>Concrete runs\<close>

abbreviation demo_msg :: conn_info where "demo_msg \<equiv> knock_msg 3"

lemma stream_run_reach: "stream_reach s \<Longrightarrow> stream_run evs s = Some (Ret s') \<Longrightarrow> stream_reach s'"
  by (induction evs arbitrary: s) (auto split: option.splits outcome.splits intro: stream_step)

lemma demo_stream:
  "\<exists>s. stream_run [StartStream None, CallSend demo_msg, TakeSend 0, StreamSend None, ReportSend, CallSend demo_msg, TakeSend 1, StreamRecv demo_msg,
        GiveRecv, CloseStreamer] (stream_init newGRPCBrokerServer) = Some (Ret s)
     \<and> st_quit (ts_streamer s) \<and> ts_calls s 1 = Some SendHanded \<and> (0, None) \<in> set (ts_returned s) \<and> ts_sender s = SenderHas 1 demo_msg"
  by (simp add: stream_init_def newGRPCBrokerServer_def call_returns_def close_streamer_def streamer_Close_def once_Do_def close_chan_def)

lemma demo_stream_reach: "stream_run evs (stream_init newGRPCBrokerServer) = Some (Ret s) \<Longrightarrow> stream_reach s"
  by (rule stream_run_reach [OF stream_start]) simp_all


theorem send_returns_witness:
  "\<exists>s s' err. stream_reach s \<and> ts_calls s 1 = Some SendHanded \<and> stream_run (finish_send 1 s) s = Some (Ret s') \<and> (1, err) \<in> set (ts_returned s')"
proof -
  obtain s where s: "stream_reach s" "st_quit (ts_streamer s)" "ts_calls s 1 = Some SendHanded" using demo_stream demo_stream_reach by blast
  with send_returns [OF s(1), of 1] show ?thesis by fastforce
qed

end
