(* ===== verification/GRPCServe.thy ===== *)
theory GRPCServe
  imports Stdio GRPCStream GRPCMux
begin

text \<open>
  The gRPC server of a plugin (\<open>grpc_server.go\<close>), its controller (\<open>grpc_controller.go\<close>) and the gRPC client of
  the host (\<open>grpc_client.go\<close>). The package grpc is outside: creating a client connection, the results of
  remote calls and how long calls are in flight are arguments or events; that a graceful stop returns when
  the last call has ended or when the server is stopped is how the package documents it.
\<close>

section \<open>The server\<close>

definition GRPCServiceName :: string where "GRPCServiceName = ''plugin''"

text \<open>
  The underlying server: its credentials and the services registered with it. A service of the user's
  plugin is known by the plugin's name.
\<close>

datatype grpc_service =
    HealthService "(string \<times> bool) list" | ReflectionService | BrokerService | ControllerService | StdioService | PluginService string

record grpc_server =
  sv_creds :: "tls_config option"
  sv_services :: "grpc_service list"

definition DefaultGRPCServer :: "tls_config option \<Rightarrow> grpc_server" where
  "DefaultGRPCServer creds = \<lparr>sv_creds = creds, sv_services = []\<rparr>"

definition RegisterService :: "grpc_service \<Rightarrow> grpc_server \<Rightarrow> grpc_server" where
  "RegisterService x g = g\<lparr>sv_services := sv_services g @ [x]\<rparr>"

record GRPCServerConfig =
  StdoutAddr :: string
  StderrAddr :: string

record GRPCServer =
  gs_Plugins :: "plugin_set option"
  gs_TLS :: "tls_config option"
  gs_DoneCh :: bool
  gs_config :: GRPCServerConfig
  gs_server :: "grpc_server option"
  gs_broker :: "grpc_broker option"
  gs_muxer :: bool

definition new_GRPCServer :: "plugin_set option \<Rightarrow> tls_config option \<Rightarrow> bool \<Rightarrow> GRPCServer" where
  "new_GRPCServer plugins tls muxer =
     \<lparr>gs_Plugins = plugins, gs_TLS = tls, gs_DoneCh = False, gs_config = \<lparr>StdoutAddr = [], StderrAddr = []\<rparr>,
      gs_server = None, gs_broker = None, gs_muxer = muxer\<rparr>"

text \<open>The loop over the plugins, which stops at the first that is no gRPC plugin or fails to register.\<close>

fun Init_plugins :: "(plugin \<Rightarrow> goerror option) \<Rightarrow> plugin_set \<Rightarrow> grpc_server \<Rightarrow> goerror option \<times> grpc_server" where
  "Init_plugins reg [] g = (None, g)"
| "Init_plugins reg ((k, raw) # ps) g =
     (if \<not> is_GRPCPlugin raw then (Some (Errorf ''%q is not a GRPC-compatible plugin'' [FStr k]), g)
      else case reg raw of
             Some err \<Rightarrow> (Some (Errorf ''error registering %q: %w'' [FStr k, FErr err]), g)
           | None \<Rightarrow> Init_plugins reg ps (RegisterService (PluginService k) g))"

definition own_services :: "grpc_service list" where
  "own_services = [HealthService [(GRPCServiceName, True)], ReflectionService, BrokerService, ControllerService, StdioService]"

definition GRPCServer_Init ::
  "env \<Rightarrow> (tls_config option \<Rightarrow> grpc_server) \<Rightarrow> (plugin \<Rightarrow> goerror option) \<Rightarrow> GRPCServer \<Rightarrow> goerror option \<times> GRPCServer" where
  "GRPCServer_Init E mk reg s =
     (let g = foldl (\<lambda>g x. RegisterService x g) (mk (gs_TLS s)) own_services;
          b = newGRPCBroker (gs_TLS s) (unixSocketConfigFromEnv E) None (gs_muxer s)
      in case Init_plugins reg (case gs_Plugins s of None \<Rightarrow> [] | Some ps \<Rightarrow> ps) g of
           (err, g') \<Rightarrow> (err, s\<lparr>gs_server := Some g', gs_broker := Some b\<rparr>))"

text \<open>\<open>closeBroker\<close>, under its mutex.\<close>

definition closeBroker :: "GRPCServer \<Rightarrow> GRPCServer outcome" where
  "closeBroker s =
     (case gs_broker s of
        None \<Rightarrow> Ret s
      | Some b \<Rightarrow> bind_out (GRPCBroker_Close b) (\<lambda>_. Ret (s\<lparr>gs_broker := None\<rparr>)))"

text \<open>
  \<open>Config\<close>: the configuration as JSON with a newline, for addresses of printable characters other than
  those that JSON escapes. The field is never assigned, so that both addresses are empty.
\<close>

definition json_quote :: "string \<Rightarrow> string" where
  "json_quote s = ''\"'' @ s @ ''\"''"

definition GRPCServer_Config :: "GRPCServer \<Rightarrow> string" where
  "GRPCServer_Config s =
     ''{\"stdout_addr\":'' @ json_quote (StdoutAddr (gs_config s)) @ '',\"stderr_addr\":'' @ json_quote (StderrAddr (gs_config s))
       @ ''}'' @ [byte_char 10]"

text \<open>The end of \<open>Serve\<close>: \<open>DoneCh\<close> is closed.\<close>

definition GRPCServer_Serve_end :: "GRPCServer \<Rightarrow> GRPCServer outcome" where
  "GRPCServer_Serve_end s = bind_out (close_chan (gs_DoneCh s)) (\<lambda>d. Ret (s\<lparr>gs_DoneCh := d\<rparr>))"

lemma Init_plugins_err: "fst (Init_plugins reg ps g) = register_plugins reg ps"
  by (induction reg ps g rule: Init_plugins.induct) (auto split: option.splits)

lemma Init_plugins_services:
  "fst (Init_plugins reg ps g) = None \<Longrightarrow>
     sv_services (snd (Init_plugins reg ps g)) = sv_services g @ map (\<lambda>(k, p). PluginService k) ps
     \<and> sv_creds (snd (Init_plugins reg ps g)) = sv_creds g"
  by (induction reg ps g rule: Init_plugins.induct) (auto simp: RegisterService_def split: option.splits if_splits)

section \<open>Shutdown\<close>

text \<open>
  \<open>Shutdown\<close> starts two goroutines. One stops the server gracefully, closes the broker and then the channel
  \<open>stopped\<close>; the other waits for that channel or for the drain window, after which it stops the server by
  force, closes the broker and waits for the channel. \<open>Shutdown\<close> may be called more than once.
\<close>

definition gracefulStopTimeout_default :: duration where "gracefulStopTimeout_default = 100000000"

definition SetGracefulStopTimeout :: "duration \<Rightarrow> duration \<Rightarrow> duration" where
  "SetGracefulStopTimeout d old = d"

datatype stopper_pc = GracefulStart | GracefulDraining | GracefulDrained | GracefulDone

datatype watcher_pc = WatchSelect | WatchStopped | WatchWait | WatchDone

type_synonym shutdown = "stopper_pc \<times> watcher_pc"

text \<open>
  The system: the server, the calls in flight, whether it takes no more calls, whether the underlying server
  has stopped, whether \<open>Serve\<close> still runs, the calls of \<open>Shutdown\<close>, and how many calls were cut off.
\<close>

record shut_sys =
  hx_server :: GRPCServer
  hx_inflight :: nat
  hx_stopping :: bool
  hx_stopped :: bool
  hx_serving :: bool
  hx_shutdowns :: "shutdown list"
  hx_aborted :: nat

datatype shut_event =
    CallBegins | CallEnds | ShutdownCalled | StopperStops nat | StopperDrained nat | StopperCloses nat
  | WatcherSees nat | WatcherTimeout nat | WatcherCloses nat | WatcherWaits nat | ServeReturns

definition close_at :: "shut_sys \<Rightarrow> shut_sys outcome" where
  "close_at s = bind_out (closeBroker (hx_server s)) (\<lambda>g. Ret (s\<lparr>hx_server := g\<rparr>))"

definition set_shutdown :: "nat \<Rightarrow> shutdown \<Rightarrow> shut_sys \<Rightarrow> shut_sys" where
  "set_shutdown i x s = s\<lparr>hx_shutdowns := (hx_shutdowns s)[i := x]\<rparr>"

text \<open>The events of the two goroutines of the \<open>i\<close>-th call, by where they stand.\<close>

primrec shut_pair :: "shut_event \<Rightarrow> shutdown \<Rightarrow> shut_sys \<Rightarrow> shut_sys outcome option" where
  "shut_pair (StopperStops i) x s =
     (if fst x = GracefulStart then Some (Ret (set_shutdown i (GracefulDraining, snd x) (s\<lparr>hx_stopping := True\<rparr>))) else None)"
| "shut_pair (StopperDrained i) x s =
     (if fst x = GracefulDraining \<and> (hx_inflight s = 0 \<or> hx_stopped s)
      then Some (Ret (set_shutdown i (GracefulDrained, snd x) (s\<lparr>hx_stopped := True\<rparr>))) else None)"
| "shut_pair (StopperCloses i) x s =
     (if fst x = GracefulDrained then Some (close_at (set_shutdown i (GracefulDone, snd x) s)) else None)"
| "shut_pair (WatcherSees i) x s =
     (if x = (GracefulDone, WatchSelect) then Some (Ret (set_shutdown i (GracefulDone, WatchDone) s)) else None)"
| "shut_pair (WatcherTimeout i) x s =
     (if snd x = WatchSelect
      then Some (Ret (set_shutdown i (fst x, WatchStopped)
             (s\<lparr>hx_stopping := True, hx_stopped := True, hx_inflight := 0, hx_aborted := hx_aborted s + hx_inflight s\<rparr>)))
      else None)"
| "shut_pair (WatcherCloses i) x s =
     (if snd x = WatchStopped then Some (close_at (set_shutdown i (fst x, WatchWait) s)) else None)"
| "shut_pair (WatcherWaits i) x s =
     (if x = (GracefulDone, WatchWait) then Some (Ret (set_shutdown i (GracefulDone, WatchDone) s)) else None)"
| "shut_pair CallBegins x s = None"
| "shut_pair CallEnds x s = None"
| "shut_pair ShutdownCalled x s = None"
| "shut_pair ServeReturns x s = None"

fun event_index :: "shut_event \<Rightarrow> nat option" where
  "event_index (StopperStops i) = Some i"
| "event_index (StopperDrained i) = Some i"
| "event_index (StopperCloses i) = Some i"
| "event_index (WatcherSees i) = Some i"
| "event_index (WatcherTimeout i) = Some i"
| "event_index (WatcherCloses i) = Some i"
| "event_index (WatcherWaits i) = Some i"
| "event_index _ = None"

definition shut_next :: "shut_event \<Rightarrow> shut_sys \<Rightarrow> shut_sys outcome option" where
  "shut_next ev s =
     (case event_index ev of
        Some i \<Rightarrow> (if i < length (hx_shutdowns s) then shut_pair ev (hx_shutdowns s ! i) s else None)
      | None \<Rightarrow>
          (case ev of
             CallBegins \<Rightarrow>
               (if hx_stopping s \<or> hx_stopped s then None else Some (Ret (s\<lparr>hx_inflight := Suc (hx_inflight s)\<rparr>)))
           | CallEnds \<Rightarrow> (if hx_inflight s = 0 then None else Some (Ret (s\<lparr>hx_inflight := hx_inflight s - 1\<rparr>)))
           | ShutdownCalled \<Rightarrow> Some (Ret (s\<lparr>hx_shutdowns := hx_shutdowns s @ [(GracefulStart, WatchSelect)]\<rparr>))
           | ServeReturns \<Rightarrow>
               (if hx_serving s \<and> hx_stopped s
                then Some (bind_out (GRPCServer_Serve_end (hx_server s)) (\<lambda>g. Ret (s\<lparr>hx_server := g, hx_serving := False\<rparr>)))
                else None)
           | _ \<Rightarrow> None))"

definition shut_init :: "GRPCServer \<Rightarrow> shut_sys" where
  "shut_init g =
     \<lparr>hx_server = g, hx_inflight = 0, hx_stopping = False, hx_stopped = False, hx_serving = True, hx_shutdowns = [], hx_aborted = 0\<rparr>"

inductive shut_reach :: "GRPCServer \<Rightarrow> shut_sys \<Rightarrow> bool" for g where
  shut_start: "shut_reach g (shut_init g)"
| shut_step: "shut_reach g s \<Longrightarrow> shut_next ev s = Some (Ret s') \<Longrightarrow> shut_reach g s'"

fun shut_run :: "shut_event list \<Rightarrow> shut_sys \<Rightarrow> shut_sys outcome option" where
  "shut_run [] s = Some (Ret s)"
| "shut_run (ev # evs) s = (case shut_next ev s of Some (Ret s') \<Rightarrow> shut_run evs s' | r \<Rightarrow> r)"

section \<open>The client\<close>

text \<open>\<open>dialGRPCConn\<close>: the options of the connection, in order, and the error of the package.\<close>

datatype dial_opt = WithContextDialer | WithInsecure | WithTLS tls_config | MaxCallRecvMsgSize int | MaxCallSendMsgSize int | CustomOption nat

definition MaxInt32 :: int where "MaxInt32 = 2 ^ 31 - 1"

definition dial_opts :: "tls_config option \<Rightarrow> nat list \<Rightarrow> dial_opt list" where
  "dial_opts tls custom =
     [WithContextDialer, case tls of None \<Rightarrow> WithInsecure | Some t \<Rightarrow> WithTLS t, MaxCallRecvMsgSize MaxInt32, MaxCallSendMsgSize MaxInt32]
     @ map CustomOption custom"

definition dialGRPCConn :: "(dial_opt list \<Rightarrow> nat res) \<Rightarrow> tls_config option \<Rightarrow> nat list \<Rightarrow> nat res" where
  "dialGRPCConn grpc_NewClient tls dialOpts = grpc_NewClient (dial_opts tls dialOpts)"

record GRPCClient =
  gc_Conn :: nat
  gc_Plugins :: "plugin_set option"
  gc_broker :: grpc_broker
  gc_stdio :: bool
  gc_pingTimeout :: duration

text \<open>
  \<open>newGRPCClient\<close>, with what it leaves running: the connection that stays open and the goroutines that were
  started.
\<close>

datatype grpc_goroutine = BrokerRun | BrokerStream | StdioRun

record 'p grpc_made =
  gm_result :: "GRPCClient res"
  gm_client :: "'p client"
  gm_open :: "nat option"
  gm_goroutines :: "grpc_goroutine list"

definition newGRPCClient ::
  "(dial_opt list \<Rightarrow> nat res) \<Rightarrow> (net_addr \<Rightarrow> nat res) \<Rightarrow> (goerror \<Rightarrow> grpc_code) \<Rightarrow> goerror option \<Rightarrow> net_addr \<Rightarrow> 'p client
   \<Rightarrow> 'p grpc_made" where
  "newGRPCClient grpc_NewClient newMuxer code stdio_err addr c =
     (case dialGRPCConn grpc_NewClient (cc_TLSConfig (config c)) (cc_GRPCDialOptions (config c)) of
        Inl err \<Rightarrow> \<lparr>gm_result = Inl err, gm_client = c, gm_open = None, gm_goroutines = []\<rparr>
      | Inr conn \<Rightarrow>
          (case getGRPCMuxer newMuxer addr c of
             (c', Inl err) \<Rightarrow> \<lparr>gm_result = Inl err, gm_client = c', gm_open = Some conn, gm_goroutines = []\<rparr>
           | (c', Inr muxer) \<Rightarrow>
               (let tr = map_option (\<lambda>r. (PluginToHost r, HostToPlugin r)) (c_runner c');
                    broker = newGRPCBroker (cc_TLSConfig (config c')) (unixSocketCfg c') tr (muxer \<noteq> None)
                in case newGRPCStdioClient code stdio_err of
                     Inl err \<Rightarrow> \<lparr>gm_result = Inl err, gm_client = c', gm_open = Some conn, gm_goroutines = [BrokerRun, BrokerStream]\<rparr>
                   | Inr stdio \<Rightarrow>
                       \<lparr>gm_result = Inr \<lparr>gc_Conn = conn, gc_Plugins = cc_Plugins (config c'), gc_broker = broker, gc_stdio = stdio,
                                         gc_pingTimeout = cc_PingTimeout (config c')\<rparr>,
                        gm_client = c', gm_open = Some conn, gm_goroutines = [BrokerRun, BrokerStream, StdioRun]\<rparr>)))"

definition effectivePingTimeout :: "GRPCClient \<Rightarrow> duration" where
  "effectivePingTimeout c = (if gc_pingTimeout c > 0 then gc_pingTimeout c else defaultPingTimeout)"

text \<open>
  \<open>Close\<close>: the broker is closed, \<open>Shutdown\<close> is called with the ping timeout and its result is ignored, and
  the result is that of closing the connection. The timeout of the remote call is recorded.
\<close>

definition GRPCClient_Close ::
  "(duration \<Rightarrow> goerror option) \<Rightarrow> goerror option \<Rightarrow> GRPCClient \<Rightarrow> goerror option \<times> duration \<times> GRPCClient outcome" where
  "GRPCClient_Close Shutdown conn_Close c =
     (let closed = bind_out (GRPCBroker_Close (gc_broker c)) (\<lambda>b. Ret (c\<lparr>gc_broker := b\<rparr>));
          _ = Shutdown (effectivePingTimeout c)
      in (conn_Close, effectivePingTimeout c, closed))"

definition GRPCClient_Dispense :: "(plugin \<Rightarrow> 'v res) \<Rightarrow> GRPCClient \<Rightarrow> string \<Rightarrow> 'v res" where
  "GRPCClient_Dispense clientOf c nam =
     (case map_of (case gc_Plugins c of None \<Rightarrow> [] | Some ps \<Rightarrow> ps) nam of
        None \<Rightarrow> Inl (Errorf ''unknown plugin type: %s'' [FStr nam])
      | Some raw \<Rightarrow>
          (if \<not> is_GRPCPlugin raw then Inl (Errorf ''plugin %q doesn't support gRPC'' [FStr nam])
           else clientOf raw))"

definition GRPCClient_Ping :: "(string \<Rightarrow> duration \<Rightarrow> goerror option) \<Rightarrow> GRPCClient \<Rightarrow> goerror option" where
  "GRPCClient_Ping check c = check GRPCServiceName (effectivePingTimeout c)"

section \<open>The invariant of a shutdown\<close>

definition pair_ok :: "bool \<Rightarrow> bool \<Rightarrow> shutdown \<Rightarrow> bool" where
  "pair_ok stopped broker_gone x \<longleftrightarrow>
     (case x of (g, w) \<Rightarrow> (g \<in> {GracefulDrained, GracefulDone} \<or> w \<in> {WatchStopped, WatchWait} \<longrightarrow> stopped)
        \<and> (w = WatchDone \<longrightarrow> g = GracefulDone) \<and> (g = GracefulDone \<or> w = WatchWait \<longrightarrow> broker_gone))"

definition server_ok :: "GRPCServer \<Rightarrow> bool" where
  "server_ok g \<longleftrightarrow> (case gs_broker g of None \<Rightarrow> True | Some b \<Rightarrow> broker_inv b)"

definition shut_ok :: "shut_sys \<Rightarrow> bool" where
  "shut_ok s \<longleftrightarrow> server_ok (hx_server s) \<and> (hx_serving s \<longleftrightarrow> \<not> gs_DoneCh (hx_server s)) \<and> (\<not> hx_serving s \<longrightarrow> hx_stopped s)
     \<and> (\<forall>x \<in> set (hx_shutdowns s). pair_ok (hx_stopped s) (gs_broker (hx_server s) = None) x)"

lemma closeBroker_eq: "server_ok g \<Longrightarrow> closeBroker g = Ret (g\<lparr>gs_broker := None\<rparr>)"
  by (auto simp: closeBroker_def server_ok_def GRPCBroker_Close_eq split: option.splits)

lemma close_at_eq: "server_ok (hx_server s) \<Longrightarrow> close_at s = Ret (s\<lparr>hx_server := (hx_server s)\<lparr>gs_broker := None\<rparr>\<rparr>)"
  by (simp add: close_at_def closeBroker_eq)

lemma set_shutdown_simps [simp]:
  "hx_server (set_shutdown i x s) = hx_server s" "hx_stopped (set_shutdown i x s) = hx_stopped s"
  "hx_serving (set_shutdown i x s) = hx_serving s" "hx_inflight (set_shutdown i x s) = hx_inflight s"
  "hx_shutdowns (set_shutdown i x s) = (hx_shutdowns s)[i := x]" "hx_aborted (set_shutdown i x s) = hx_aborted s"
  by (simp_all add: set_shutdown_def)

lemma pair_ok_mono: "pair_ok st gone x \<Longrightarrow> st \<longrightarrow> st' \<Longrightarrow> gone \<longrightarrow> gone' \<Longrightarrow> pair_ok st' gone' x"
  by (cases x) (auto simp: pair_ok_def)

lemma pair_ok_new [simp]: "pair_ok st gone (GracefulStart, WatchSelect)"
  by (simp add: pair_ok_def)

lemma pairs_update:
  assumes "\<forall>x \<in> set xs. pair_ok st gone x" "pair_ok st' gone' x" "st \<longrightarrow> st'" "gone \<longrightarrow> gone'"
  shows "\<forall>y \<in> set (xs[i := x]). pair_ok st' gone' y"
proof
  fix y
  assume "y \<in> set (xs[i := x])"
  then have "y = x \<or> y \<in> set xs" using set_update_subset_insert by fastforce
  with assms show "pair_ok st' gone' y" by (metis pair_ok_mono)
qed

lemma pair_step:
  assumes "shut_ok s" "hx_server s' \<in> {hx_server s, (hx_server s)\<lparr>gs_broker := None\<rparr>}" "hx_serving s' = hx_serving s"
    and "hx_stopped s \<longrightarrow> hx_stopped s'" "hx_shutdowns s' = (hx_shutdowns s)[i := x]"
    and "pair_ok (hx_stopped s') (gs_broker (hx_server s') = None) x"
  shows "shut_ok s'"
proof -
  have "\<forall>y \<in> set (hx_shutdowns s'). pair_ok (hx_stopped s') (gs_broker (hx_server s') = None) y"
    unfolding assms(5)
  proof (rule pairs_update [OF _ assms(6,4)])
    show "\<forall>x \<in> set (hx_shutdowns s). pair_ok (hx_stopped s) (gs_broker (hx_server s) = None) x"
      using assms(1) by (simp add: shut_ok_def)
    show "gs_broker (hx_server s) = None \<longrightarrow> gs_broker (hx_server s') = None" using assms(2) by auto
  qed
  moreover have "server_ok (hx_server s')" "gs_DoneCh (hx_server s') = gs_DoneCh (hx_server s)"
    using assms(1,2) by (auto simp: shut_ok_def server_ok_def)
  ultimately show ?thesis using assms(1,3,4) by (auto simp: shut_ok_def)
qed

text \<open>No event panics, and each keeps the invariant.\<close>

fun next_pair :: "shut_event \<Rightarrow> shutdown \<Rightarrow> shutdown" where
  "next_pair (StopperStops i) (g, w) = (GracefulDraining, w)"
| "next_pair (StopperDrained i) (g, w) = (GracefulDrained, w)"
| "next_pair (StopperCloses i) (g, w) = (GracefulDone, w)"
| "next_pair (WatcherTimeout i) (g, w) = (g, WatchStopped)"
| "next_pair (WatcherCloses i) (g, w) = (g, WatchWait)"
| "next_pair ev (g, w) = (g, WatchDone)"

lemma shut_pair_Ret: "server_ok (hx_server s) \<Longrightarrow> shut_pair ev x s = Some r \<Longrightarrow> \<exists>s'. r = Ret s'"
  by (cases ev) (auto simp: close_at_eq split: if_splits)

lemma shut_pair_next:
  assumes "server_ok (hx_server s)" "shut_pair ev x s = Some (Ret s')" "event_index ev = Some i"
    and "pair_ok (hx_stopped s) (gs_broker (hx_server s) = None) x"
  shows "hx_server s' \<in> {hx_server s, (hx_server s)\<lparr>gs_broker := None\<rparr>} \<and> hx_serving s' = hx_serving s
    \<and> (hx_stopped s \<longrightarrow> hx_stopped s') \<and> hx_shutdowns s' = (hx_shutdowns s)[i := next_pair ev x]
    \<and> pair_ok (hx_stopped s') (gs_broker (hx_server s') = None) (next_pair ev x)"
  using assms by (cases x; cases ev) (auto simp: close_at_eq pair_ok_def split: if_splits)

lemma shut_next_ok:
  assumes "shut_ok s" "shut_next ev s = Some r"
  shows "\<exists>s'. r = Ret s' \<and> shut_ok s'"
proof (cases "event_index ev")
  case (Some i)
  have ok: "server_ok (hx_server s)" using assms(1) by (simp add: shut_ok_def)
  have i: "i < length (hx_shutdowns s)" "shut_pair ev (hx_shutdowns s ! i) s = Some r"
    using assms(2) Some by (auto simp: shut_next_def split: if_splits)
  obtain s' where r: "r = Ret s'" using shut_pair_Ret [OF ok i(2)] by blast
  have "pair_ok (hx_stopped s) (gs_broker (hx_server s) = None) (hx_shutdowns s ! i)"
    using assms(1) i(1) by (metis nth_mem shut_ok_def)
  from shut_pair_next [OF ok i(2) [unfolded r] Some this] have "shut_ok s'" by (blast intro: pair_step [OF assms(1)])
  with r show ?thesis by blast
next
  case None
  then show ?thesis using assms
    by (cases ev) (auto simp: shut_next_def shut_ok_def GRPCServer_Serve_end_def close_chan_def server_ok_def split: if_splits)
qed

lemma reach_shut_ok:
  assumes "shut_reach g s" "server_ok g" "\<not> gs_DoneCh g"
  shows "shut_ok s"
  using assms(1)
proof induction
  case shut_start
  then show ?case using assms(2,3) by (simp add: shut_ok_def shut_init_def)
next
  case (shut_step s ev s')
  then show ?case using shut_next_ok by blast
qed

text \<open>The steps that finish the \<open>i\<close>-th shutdown and \<open>Serve\<close> without any help of the calls in flight.\<close>

definition finish_shutdown :: "nat \<Rightarrow> shut_sys \<Rightarrow> shut_event list" where
  "finish_shutdown i s =
     (case hx_shutdowns s ! i of (g, w) \<Rightarrow>
        (if g = GracefulStart then [StopperStops i] else [])
        @ (if w = WatchSelect \<and> g \<noteq> GracefulDone then [WatcherTimeout i] else [])
        @ (if g \<in> {GracefulStart, GracefulDraining} then [StopperDrained i] else [])
        @ (if g \<noteq> GracefulDone then [StopperCloses i] else [])
        @ (if w = WatchSelect \<and> g \<noteq> GracefulDone \<or> w = WatchStopped then [WatcherCloses i] else [])
        @ (if w = WatchSelect \<and> g = GracefulDone then [WatcherSees i] else if w \<noteq> WatchDone then [WatcherWaits i] else [])
        @ (if hx_serving s then [ServeReturns] else []))"

lemma finish_runs:
  assumes "shut_ok s" "i < length (hx_shutdowns s)"
  shows "\<exists>s'. shut_run (finish_shutdown i s) s = Some (Ret s') \<and> hx_shutdowns s' ! i = (GracefulDone, WatchDone)
    \<and> gs_broker (hx_server s') = None \<and> gs_DoneCh (hx_server s')"
proof -
  obtain g w where gw: "hx_shutdowns s ! i = (g, w)" by fastforce
  have "pair_ok (hx_stopped s) (gs_broker (hx_server s) = None) (g, w)"
    using assms gw by (metis nth_mem shut_ok_def)
  moreover have "server_ok (hx_server s)" "hx_serving s \<longleftrightarrow> \<not> gs_DoneCh (hx_server s)" using assms(1) by (simp_all add: shut_ok_def)
  ultimately show ?thesis using gw assms(2)
    by (cases g; cases w; cases "hx_serving s")
      (simp_all add: finish_shutdown_def shut_next_def close_at_eq pair_ok_def GRPCServer_Serve_end_def close_chan_def server_ok_def)
qed

lemma no_timeout_keeps:
  "shut_next ev s = Some (Ret s') \<Longrightarrow> (\<forall>i. ev \<noteq> WatcherTimeout i) \<Longrightarrow> hx_aborted s' = hx_aborted s"
  by (cases ev) (auto simp: shut_next_def close_at_def bind_out_def split: if_splits outcome.splits)

lemma no_timeout_run:
  "shut_run evs s = Some (Ret s') \<Longrightarrow> \<forall>i. WatcherTimeout i \<notin> set evs \<Longrightarrow> hx_aborted s' = hx_aborted s"
proof (induction evs arbitrary: s)
  case (Cons ev evs)
  then obtain s1 where s1: "shut_next ev s = Some (Ret s1)" "shut_run evs s1 = Some (Ret s')"
    by (auto split: option.splits outcome.splits)
  with Cons.prems have "hx_aborted s1 = hx_aborted s" by (intro no_timeout_keeps [OF s1(1)]) auto
  with Cons s1 show ?case by simp
qed simp

lemma new_server_ok: "server_ok (snd (GRPCServer_Init E mk reg (new_GRPCServer ps tls mux)))"
    "\<not> gs_DoneCh (snd (GRPCServer_Init E mk reg (new_GRPCServer ps tls mux)))"
  by (auto simp: GRPCServer_Init_def new_GRPCServer_def server_ok_def newGRPCBroker_def broker_inv_def Let_def split: prod.splits)

section \<open>The client in the life cycle of the host\<close>

text \<open>\<open>newGRPCClient\<close> as \<open>Client\<close> calls it, for the address of the started plugin.\<close>

definition grpc_maker ::
  "(dial_opt list \<Rightarrow> nat res) \<Rightarrow> (net_addr \<Rightarrow> nat res) \<Rightarrow> (goerror \<Rightarrow> grpc_code) \<Rightarrow> goerror option \<Rightarrow> net_addr \<Rightarrow> GRPCClient maker" where
  "grpc_maker N M code serr addr c = (let m = newGRPCClient N M code serr addr c in (gm_client m, gm_result m))"

lemma same_muxer: "\<exists>b m e. c = c\<lparr>grpcMuxerOnce := b, grpcMuxer := m, grpcMuxerErr := e\<rparr>"
  by (rule exI [of _ "grpcMuxerOnce c"], rule exI [of _ "grpcMuxer c"], rule exI [of _ "grpcMuxerErr c"]) simp

lemma getGRPCMuxer_part: "\<exists>b m e. fst (getGRPCMuxer M addr c) = c\<lparr>grpcMuxerOnce := b, grpcMuxer := m, grpcMuxerErr := e\<rparr>"
proof -
  have "fst (getGRPCMuxer M addr c) \<in> {c, c\<lparr>grpcMuxerOnce := True, grpcMuxer := None, grpcMuxerErr := Some (projl (M addr))\<rparr>,
     c\<lparr>grpcMuxerOnce := True, grpcMuxer := Some (projr (M addr)), grpcMuxerErr := None\<rparr>}"
    by (cases "M addr"; cases "grpcMuxerErr c") (simp_all add: getGRPCMuxer_def Let_def)
  then show ?thesis using same_muxer [of c] by (elim insertE emptyE) (simp, blast, blast)
qed

lemma newGRPCClient_client:
  "gm_client (newGRPCClient N M code serr addr c) \<in> {c, fst (getGRPCMuxer M addr c)}"
  by (auto simp: newGRPCClient_def Let_def split: sum.splits prod.splits)

lemma grpc_maker_ok: "maker_ok (grpc_maker N M code serr addr)"
  unfolding maker_ok_def
proof
  fix c :: "GRPCClient client"
  have "fst (grpc_maker N M code serr addr c) = c \<or> fst (grpc_maker N M code serr addr c) = fst (getGRPCMuxer M addr c)"
    using newGRPCClient_client [of N M code serr addr c] by (simp add: grpc_maker_def Let_def)
  then show "\<exists>b m e. fst (grpc_maker N M code serr addr c) = c\<lparr>grpcMuxerOnce := b, grpcMuxer := m, grpcMuxerErr := e\<rparr>"
  proof
    assume "fst (grpc_maker N M code serr addr c) = c"
    then show ?thesis using same_muxer [of c] by simp
  next
    assume "fst (grpc_maker N M code serr addr c) = fst (getGRPCMuxer M addr c)"
    then show ?thesis using getGRPCMuxer_part [of M addr c] by simp
  qed
qed

lemma newGRPCClient_fails:
  assumes "N (dial_opts (cc_TLSConfig (config c)) (cc_GRPCDialOptions (config c))) = Inr conn"
    and "snd (getGRPCMuxer M a c) = Inl err
         \<or> (\<exists>m. snd (getGRPCMuxer M a c) = Inr m) \<and> serr = Some err \<and> code err \<notin> {Unavailable, Unimplemented}"
  shows "newGRPCClient N M code serr a c =
     \<lparr>gm_result = Inl err, gm_client = fst (getGRPCMuxer M a c), gm_open = Some conn,
      gm_goroutines = (if snd (getGRPCMuxer M a c) = Inl err then [] else [BrokerRun, BrokerStream])\<rparr>"
  using assms by (cases "getGRPCMuxer M a c") (auto simp: newGRPCClient_def dialGRPCConn_def newGRPCStdioClient_def Let_def)

lemma getGRPCMuxer_sticks:
  "snd (getGRPCMuxer M a c) = Inl err \<Longrightarrow> getGRPCMuxer M' a (fst (getGRPCMuxer M a c)) = (fst (getGRPCMuxer M a c), Inl err)"
  by (cases "c_protocol c \<noteq> ProtocolGRPC \<or> \<not> cc_GRPCBrokerMultiplex (config c)"; cases "grpcMuxerOnce c"; cases "grpcMuxerErr c";
      cases "M a") (simp_all add: getGRPCMuxer_def Let_def)

lemma Client_maker:
  assumes "address c = Some a" "c_client c = None" "c_protocol c = ProtocolGRPC"
  shows "Client_Client mk mk' W c = keep_client (mk' c)"
  using assms by (simp add: Client_Client_def Start_again protocol_defs)

lemma shut_run_reach: "shut_reach g s \<Longrightarrow> shut_run evs s = Some (Ret s') \<Longrightarrow> shut_reach g s'"
  by (induction evs arbitrary: s) (auto split: option.splits outcome.splits intro: shut_step)

section \<open>Properties\<close>




text \<open>
  C27: \<open>Kill\<close> of a gRPC plugin gives it its grace period. For a client made by \<open>newGRPCClient\<close>, whatever the remote
  call \<open>Shutdown\<close> returned, \<open>Kill\<close> ends, and it uses force exactly when the connection could not be closed or
  the plugin did not exit within the shutdown timeout; \<open>Close\<close> closes the broker and waits for \<open>Shutdown\<close> for
  the positive ping timeout of the configuration or the default.
\<close>
theorem grpc_kill:
  assumes "c_runner c = Some r" "runner_ID r \<noteq> []" "\<not> killOnce c" "maker_ok (k_newRPC K)" "address c = Some a" "c_client c = Some p"
    and "k_newGRPC K = grpc_maker N M code serr a" "k_Close K = (\<lambda>p. fst (GRPCClient_Close sd (cc p) p))" "broker_inv (gc_broker p)"
  shows "(\<exists>k. Kill K c = Ret k \<and> kr_forced k = (cc p \<noteq> None \<or> \<not> k_exits_within K (shutdown_grace c)))
    \<and> (\<exists>t p'. snd (GRPCClient_Close sd (cc p) p) = (t, Ret p') \<and> gb_doneCh (gc_broker p') \<and> t > 0
         \<and> (gc_pingTimeout p > 0 \<longrightarrow> t = gc_pingTimeout p))"
proof
  have m: "maker_ok (k_newGRPC K)" using assms(7) grpc_maker_ok by metis
  have "snd (Client_Client (k_newRPC K) (k_newGRPC K) (k_start K) (entered c)) = Ret (Inr p)"
    using assms(5,6) by (simp add: Client_Client_def Start_again entered_def)
  then have "exits_gracefully K (entered c) \<longleftrightarrow> cc p = None \<and> k_exits_within K (shutdown_grace c)"
    using assms(5,8) by (simp add: exits_gracefully_def entered_def shutdown_grace_def GRPCClient_Close_def Let_def)
  moreover obtain b m' e q where "Kill K c =
     Ret (kill_cleanup (us_socketDir (unixSocketCfg c)) (\<not> exits_gracefully K (entered c))
       ((entered c)\<lparr>c_client := q, grpcMuxerOnce := b, grpcMuxer := m', grpcMuxerErr := e,
          processKilled := (processKilled c \<or> \<not> exits_gracefully K (entered c))\<rparr>))"
    using Kill_runs [OF assms(1-4) m] by blast
  ultimately show "\<exists>k. Kill K c = Ret k \<and> kr_forced k = (cc p \<noteq> None \<or> \<not> k_exits_within K (shutdown_grace c))"
    by (simp add: kill_cleanup_def)
  show "\<exists>t p'. snd (GRPCClient_Close sd (cc p) p) = (t, Ret p') \<and> gb_doneCh (gc_broker p') \<and> t > 0
         \<and> (gc_pingTimeout p > 0 \<longrightarrow> t = gc_pingTimeout p)"
    using assms(9) by (simp add: GRPCClient_Close_def GRPCBroker_Close_eq effectivePingTimeout_def defaultPingTimeout_def second_def Let_def)
qed

text \<open>
  C39: A failing \<open>newGRPCClient\<close> leaks. After the connection was created, an error of the multiplexer, or an error
  of the stream of standard output other than unavailable and unimplemented, makes \<open>Client\<close> return that error with
  the connection still open, in the second case also with the two goroutines of the broker running. An
  error of the multiplexer is kept for good: every further call of \<open>Client\<close> creates one more connection,
  leaves it open and fails with the same error, also when the multiplexer could be created by then.
\<close>
theorem grpc_client_leak:
  assumes "address c = Some a" "c_client c = None" "c_protocol c = ProtocolGRPC"
    and "N (dial_opts (cc_TLSConfig (config c)) (cc_GRPCDialOptions (config c))) = Inr conn"
    and "snd (getGRPCMuxer M a c) = Inl err
         \<or> (\<exists>m. snd (getGRPCMuxer M a c) = Inr m) \<and> serr = Some err \<and> code err \<notin> {Unavailable, Unimplemented}"
  shows "\<exists>c'. Client_Client mk (grpc_maker N M code serr a) W c = (c', Ret (Inl err)) \<and> c_client c' = None
    \<and> gm_open (newGRPCClient N M code serr a c) = Some conn
    \<and> gm_goroutines (newGRPCClient N M code serr a c)
        = (if snd (getGRPCMuxer M a c) = Inl err then [] else [BrokerRun, BrokerStream])
    \<and> (snd (getGRPCMuxer M a c) = Inl err \<longrightarrow>
         (\<forall>N' M' code' serr' conn'. N' (dial_opts (cc_TLSConfig (config c)) (cc_GRPCDialOptions (config c))) = Inr conn' \<longrightarrow>
            Client_Client mk (grpc_maker N' M' code' serr' a) W c' = (c', Ret (Inl err))
            \<and> gm_open (newGRPCClient N' M' code' serr' a c') = Some conn'))"
proof -
  obtain b m e where part: "fst (getGRPCMuxer M a c) = c\<lparr>grpcMuxerOnce := b, grpcMuxer := m, grpcMuxerErr := e\<rparr>"
    using getGRPCMuxer_part by blast
  let ?c = "fst (getGRPCMuxer M a c)"
  have c: "address ?c = Some a" "c_client ?c = None" "c_protocol ?c = ProtocolGRPC" "config ?c = config c"
    unfolding part using assms(1-3) by simp_all
  have made: "gm_client (newGRPCClient N M code serr a c) = ?c" "gm_result (newGRPCClient N M code serr a c) = Inl err"
    "gm_open (newGRPCClient N M code serr a c) = Some conn"
    "gm_goroutines (newGRPCClient N M code serr a c) = (if snd (getGRPCMuxer M a c) = Inl err then [] else [BrokerRun, BrokerStream])"
    using newGRPCClient_fails [of N c conn M a err serr code] assms(4,5) by simp_all
  have sticks: "getGRPCMuxer M' a ?c = (?c, Inl err)" if "snd (getGRPCMuxer M a c) = Inl err" for M'
    using that by (rule getGRPCMuxer_sticks)
  have "gm_client (newGRPCClient N' M' code' serr' a ?c) = ?c" "gm_result (newGRPCClient N' M' code' serr' a ?c) = Inl err"
    "gm_open (newGRPCClient N' M' code' serr' a ?c) = Some conn'"
    if "snd (getGRPCMuxer M a c) = Inl err"
      "N' (dial_opts (cc_TLSConfig (config c)) (cc_GRPCDialOptions (config c))) = Inr conn'" for N' M' code' serr' conn'
    using newGRPCClient_fails [of N' ?c conn' M' a err serr' code'] that c(4) sticks [OF that(1)] by simp_all
  with c made show ?thesis
    using Client_maker [OF assms(1-3)] Client_maker [OF c(1-3)] by (intro exI [of _ ?c]) (simp add: grpc_maker_def keep_client_def)
qed

section \<open>Concrete runs\<close>

definition demo_kv :: plugin_set where
  "demo_kv = [(''kv'', \<lparr>plugin_impl = 1, is_GRPCPlugin = True\<rparr>)]"

abbreviation demo_grpc_server :: GRPCServer where
  "demo_grpc_server \<equiv> snd (GRPCServer_Init (\<lambda>_. []) DefaultGRPCServer (\<lambda>_. None) (new_GRPCServer (Some demo_kv) None False))"



definition demo_grpc_client :: GRPCClient where
  "demo_grpc_client =
     \<lparr>gc_Conn = 3, gc_Plugins = Some demo_kv, gc_broker = newGRPCBroker None empty_unix_cfg None False, gc_stdio = True, gc_pingTimeout = 0\<rparr>"

definition demo_grpc_host :: "GRPCClient client" where
  "demo_grpc_host =
     (new_client demo_config)\<lparr>c_runner := Some demo_attached, doneCtx := Some False, c_protocol := ProtocolGRPC,
        address := Some \<lparr>addr_Network = ''unix'', addr_String = ''/plugin1''\<rparr>\<rparr>"

definition demo_grpc_kill :: "GRPCClient kill_world" where
  "demo_grpc_kill =
     \<lparr>k_newRPC = (\<lambda>c. (c, Inl (ErrStd ''unused''))),
      k_newGRPC = grpc_maker (\<lambda>_. Inr 3) (\<lambda>_. Inr 4) (\<lambda>_. Unavailable) None \<lparr>addr_Network = ''unix'', addr_String = ''/plugin1''\<rparr>,
      k_start = demo_start, k_Close = (\<lambda>p. fst (GRPCClient_Close (\<lambda>_. Some (ErrStd ''deadline exceeded'')) None p)),
      k_exits_within = (\<lambda>d. False)\<rparr>"

theorem grpc_kill_witness:
  "\<exists>k. Kill demo_grpc_kill (demo_grpc_host\<lparr>c_client := Some demo_grpc_client\<rparr>) = Ret k \<and> kr_forced k"
proof -
  have "maker_ok (k_newRPC demo_grpc_kill)" using same_muxer by (auto simp: maker_ok_def demo_grpc_kill_def)
  from grpc_kill [OF _ _ _ this, of "demo_grpc_host\<lparr>c_client := Some demo_grpc_client\<rparr>" demo_attached
      "\<lparr>addr_Network = ''unix'', addr_String = ''/plugin1''\<rparr>" demo_grpc_client "\<lambda>_. Inr 3" "\<lambda>_. Inr 4" "\<lambda>_. Unavailable" None
      "\<lambda>_. Some (ErrStd ''deadline exceeded'')" "\<lambda>_. None"]
  show ?thesis
    by (simp add: demo_grpc_host_def new_client_def demo_attached_def demo_grpc_kill_def demo_grpc_client_def newGRPCBroker_def broker_inv_def)
qed

abbreviation demo_other :: "GRPCClient maker" where "demo_other \<equiv> k_newRPC demo_grpc_kill"

theorem grpc_client_leak_witness:
  "\<exists>c'. Client_Client demo_other (grpc_maker (\<lambda>_. Inr 3) (\<lambda>_. Inr 4) (\<lambda>_. OtherCode) (Some (ErrStd ''broken''))
          \<lparr>addr_Network = ''unix'', addr_String = ''/plugin1''\<rparr>) demo_start demo_grpc_host = (c', Ret (Inl (ErrStd ''broken'')))
     \<and> gm_open (newGRPCClient (\<lambda>_. Inr 3) (\<lambda>_. Inr 4) (\<lambda>_. OtherCode) (Some (ErrStd ''broken''))
          \<lparr>addr_Network = ''unix'', addr_String = ''/plugin1''\<rparr> demo_grpc_host) = Some 3"
proof -
  have "snd (getGRPCMuxer (\<lambda>_. Inr 4) \<lparr>addr_Network = ''unix'', addr_String = ''/plugin1''\<rparr> demo_grpc_host) = Inr None"
    by (simp add: getGRPCMuxer_def demo_grpc_host_def new_client_def demo_config_def)
  then show ?thesis
    using grpc_client_leak [of demo_grpc_host "\<lparr>addr_Network = ''unix'', addr_String = ''/plugin1''\<rparr>" "\<lambda>_. Inr 3" 3 "\<lambda>_. Inr 4"
        "ErrStd ''broken''" "Some (ErrStd ''broken'')" "\<lambda>_. OtherCode" demo_other demo_start]
    by (fastforce simp: demo_grpc_host_def new_client_def)
qed

end
