(* ===== verification/Helpers.thy ===== *)
theory Helpers
  imports GRPCServe
begin

text \<open>
  The small parts of the package: errors that can be sent (\<open>error.go\<close>), the finding of plugins
  (\<open>discover.go\<close>), the logger of the library (\<open>internal_logger.go\<close>), the plugin without net/rpc
  (\<open>plugin.go\<close>), and the helpers that connect a client and a server for tests (\<open>testing.go\<close>).
\<close>

section \<open>Errors and plugins\<close>

record BasicError =
  be_Message :: string

text \<open>\<open>errtext\<close> is the method \<open>Error\<close> of the error that is wrapped.\<close>

definition NewBasicError :: "(goerror \<Rightarrow> string) \<Rightarrow> goerror option \<Rightarrow> BasicError option" where
  "NewBasicError errtext err = (case err of None \<Rightarrow> None | Some e \<Rightarrow> Some \<lparr>be_Message = errtext e\<rparr>)"

definition BasicError_Error :: "BasicError \<Rightarrow> string" where
  "BasicError_Error e = be_Message e"

definition NetRPCUnsupportedPlugin_Server :: "nat res" where
  "NetRPCUnsupportedPlugin_Server = Inl (ErrNew ''net/rpc plugin protocol not supported'')"

definition NetRPCUnsupportedPlugin_Client :: "nat res" where
  "NetRPCUnsupportedPlugin_Client = Inl (ErrNew ''net/rpc plugin protocol not supported'')"

section \<open>The logger of the library\<close>

text \<open>The variable holds a logger from the start, and nil is never stored.\<close>

definition SetInternalLogger :: "nat option \<Rightarrow> nat \<Rightarrow> nat" where
  "SetInternalLogger l old = (case l of None \<Rightarrow> old | Some new \<Rightarrow> new)"

definition libLog :: "nat \<Rightarrow> nat" where
  "libLog internalLogger = internalLogger"

lemma libLog_last: "libLog (fold SetInternalLogger ls old) = last (old # map the (filter (\<lambda>l. l \<noteq> None) ls))"
  by (induction ls arbitrary: old) (auto simp: SetInternalLogger_def libLog_def split: option.splits)

section \<open>Paths\<close>

text \<open>The package \<open>path/filepath\<close> on Unix: the elements of a path are cleaned from left to right.\<close>

definition IsAbs :: "string \<Rightarrow> bool" where
  "IsAbs p = HasPrefix p ''/''"

fun clean_elems :: "bool \<Rightarrow> string list \<Rightarrow> string list \<Rightarrow> string list" where
  "clean_elems rooted acc [] = rev acc"
| "clean_elems rooted acc (e # es) =
     (if e = [] \<or> e = ''.'' then clean_elems rooted acc es
      else if e = ''..'' then
        (case acc of
           a # as \<Rightarrow> (if a = ''..'' then clean_elems rooted (e # acc) es else clean_elems rooted as es)
         | [] \<Rightarrow> clean_elems rooted (if rooted then [] else [e]) es)
      else clean_elems rooted (e # acc) es)"

definition Clean :: "string \<Rightarrow> string" where
  "Clean p =
     (let es = join_with ''/'' (clean_elems (IsAbs p) [] (split_on (CHR ''/'') p))
      in if IsAbs p then ''/'' @ es else if es = [] then ''.'' else es)"

fun Join :: "string list \<Rightarrow> string" where
  "Join [] = []"
| "Join (e # es) = (if e = [] then Join es else Clean (join_with ''/'' (e # es)))"

definition Abs_path :: "string res \<Rightarrow> string \<Rightarrow> string res" where
  "Abs_path getwd p =
     (if IsAbs p then Inr (Clean p)
      else case getwd of Inl err \<Rightarrow> Inl err | Inr wd \<Rightarrow> Inr (Join [wd, p]))"

definition Discover :: "string res \<Rightarrow> (string \<Rightarrow> string list res) \<Rightarrow> string \<Rightarrow> string \<Rightarrow> string list res" where
  "Discover getwd Glob glob dir =
     (case (if IsAbs dir then Inr dir else Abs_path getwd dir) of
        Inl err \<Rightarrow> Inl err
      | Inr d \<Rightarrow> Glob (Join [d, glob]))"

definition plain_elem :: "string \<Rightarrow> bool" where
  "plain_elem e \<longleftrightarrow> e \<noteq> [] \<and> e \<noteq> ''.'' \<and> e \<noteq> ''..'' \<and> CHR ''/'' \<notin> set e"

text \<open>Cleaning a path from the root leaves only plain elements.\<close>

lemma clean_elems_plain:
  "list_all plain_elem acc \<Longrightarrow> list_all (\<lambda>e. CHR ''/'' \<notin> set e) es \<Longrightarrow> list_all plain_elem (clean_elems True acc es)"
proof (induction es arbitrary: acc)
  case (Cons e es)
  have es: "list_all (\<lambda>e. CHR ''/'' \<notin> set e) es" using Cons.prems(2) by simp
  consider "e = [] \<or> e = ''.''" | "e = ''..''" | "plain_elem e" using Cons.prems(2) unfolding plain_elem_def by auto
  then show ?case
  proof cases
    case 1
    then have "clean_elems True acc (e # es) = clean_elems True acc es" by auto
    then show ?thesis using Cons.IH [OF Cons.prems(1) es] by simp
  next
    case 2
    then have "clean_elems True acc (e # es) = clean_elems True (tl acc) es"
      using Cons.prems(1) by (cases acc) (auto simp: plain_elem_def)
    moreover have "list_all plain_elem (tl acc)" using Cons.prems(1) by (cases acc) auto
    ultimately show ?thesis using Cons.IH [OF _ es] by simp
  next
    case 3
    then have "clean_elems True acc (e # es) = clean_elems True (e # acc) es" by (simp add: plain_elem_def)
    moreover have "list_all plain_elem (e # acc)" using 3 Cons.prems(1) by simp
    ultimately show ?thesis using Cons.IH [OF _ es] by simp
  qed
qed (simp add: list_all_iff)

lemma IsAbs_append: "IsAbs d \<Longrightarrow> IsAbs (d @ x)"
  by (cases d) (auto simp: IsAbs_def HasPrefix_def)

text \<open>
  \<open>Discover\<close> searches below an absolute directory: with a working directory that is absolute, whatever the
  arguments, the pattern is absolute and has no empty, current or parent elements.
\<close>

lemma Discover_absolute:
  assumes "\<forall>wd. getwd = Inr wd \<longrightarrow> IsAbs wd" "Discover getwd Glob glob dir = r"
  shows "(\<exists>err. r = Inl err \<and> getwd = Inl err)
    \<or> (\<exists>es. r = Glob (''/'' @ join_with ''/'' es) \<and> (\<forall>e \<in> set es. plain_elem e))"
proof -
  have clean: "\<exists>es. Clean p = ''/'' @ join_with ''/'' es \<and> (\<forall>e \<in> set es. plain_elem e)" if "IsAbs p" for p
    using that clean_elems_plain [of "[]" "split_on (CHR ''/'') p"] split_on_pieces [where c = "CHR ''/''" and s = p]
    by (auto simp: Clean_def Let_def list_all_iff)
  have join: "\<exists>es. Join [d, g] = ''/'' @ join_with ''/'' es \<and> (\<forall>e \<in> set es. plain_elem e)" if "IsAbs d" for d g
    using that clean [of "d @ ''/'' @ g"] IsAbs_append [OF that, of "''/'' @ g"] by (auto simp: IsAbs_def HasPrefix_def)
  show ?thesis
  proof (cases "IsAbs dir")
    case True
    with assms(2) join [of dir glob] show ?thesis by (auto simp: Discover_def)
  next
    case False
    show ?thesis
    proof (cases getwd)
      case (Inr wd)
      then have "IsAbs (Join [wd, dir])" using assms(1) join [of wd dir] by (auto simp: IsAbs_def HasPrefix_def)
      with False Inr assms(2) join [of "Join [wd, dir]" glob] show ?thesis by (auto simp: Discover_def Abs_path_def simp del: Join.simps)
    qed (use False assms(2) in \<open>auto simp: Discover_def Abs_path_def\<close>)
  qed
qed

section \<open>Connections for tests\<close>

text \<open>The configuration with all fields empty but the two that the helper sets.\<close>

definition test_config :: "plugin_set \<Rightarrow> bool \<Rightarrow> client_config" where
  "test_config ps multiplex =
     \<lparr>cc_Handshake = \<lparr>ProtocolVersion = 0, MagicCookieKey = [], MagicCookieValue = []\<rparr>,
      cc_Plugins = Some ps, cc_VersionedPlugins = None, cc_Cmd = None, cc_Reattach = None, cc_RunnerFunc = None,
      cc_SecureConfig = None, cc_TLSConfig = None, cc_Managed = False, cc_MinPort = 0, cc_MaxPort = 0, cc_StartTimeout = 0,
      cc_Stderr = None, cc_SyncStdout = None, cc_SyncStderr = None, cc_AllowedProtocols = None, cc_Logger = None,
      cc_PluginLogBufferSize = 0, cc_AutoMTLS = False, cc_GRPCDialOptions = [], cc_GRPCBrokerMultiplex = multiplex,
      cc_SkipHostEnv = False, cc_UnixSocketConfig = None, cc_PingTimeout = 0, cc_ShutdownTimeout = 0,
      cc_DisableProcessGroupKill = False\<rparr>"

text \<open>
  \<open>TestPluginGRPCConn\<close>: an error is a failure of the test. The address of the multiplexer is that of the
  listener.
\<close>

definition TestPluginGRPCConn ::
  "env \<Rightarrow> net_addr res \<Rightarrow> (plugin \<Rightarrow> goerror option) \<Rightarrow> (dial_opt list \<Rightarrow> nat res) \<Rightarrow> (net_addr \<Rightarrow> nat res) \<Rightarrow> (goerror \<Rightarrow> grpc_code)
   \<Rightarrow> goerror option \<Rightarrow> bool \<Rightarrow> plugin_set \<Rightarrow> (GRPCClient \<times> GRPCServer) res" where
  "TestPluginGRPCConn E ln reg N M code serr multiplex ps =
     (case ln of
        Inl err \<Rightarrow> Inl err
      | Inr addr \<Rightarrow>
          (case GRPCServer_Init E DefaultGRPCServer reg (new_GRPCServer (Some ps) None multiplex) of
             (Some err, server) \<Rightarrow> Inl err
           | (None, server) \<Rightarrow>
               (let c = (new_client (test_config ps multiplex) :: GRPCClient client)\<lparr>address := Some addr, c_protocol := ProtocolGRPC\<rparr>
                in case gm_result (newGRPCClient N M code serr addr c) of
                     Inl err \<Rightarrow> Inl err
                   | Inr client \<Rightarrow> Inr (client, server))))"

lemma Init_plugins_grpc: "fst (Init_plugins reg ps g) = None \<Longrightarrow> (nam, p) \<in> set ps \<Longrightarrow> is_GRPCPlugin p"
  by (induction reg ps g rule: Init_plugins.induct) (auto split: if_splits option.splits)

lemma newGRPCClient_result:
  assumes "gm_result (newGRPCClient N M code serr addr c) = Inr g"
  shows "gc_Plugins g = cc_Plugins (config c) \<and> (gb_muxEnabled (gc_broker g) \<longrightarrow> cc_GRPCBrokerMultiplex (config c))"
proof -
  obtain b m e where part: "fst (getGRPCMuxer M addr c) = c\<lparr>grpcMuxerOnce := b, grpcMuxer := m, grpcMuxerErr := e\<rparr>"
    using getGRPCMuxer_part by blast
  obtain c' r where cr: "getGRPCMuxer M addr c = (c', Inr r)"
    using assms by (auto simp: newGRPCClient_def Let_def split: sum.splits prod.splits)
  have "r \<noteq> None \<longrightarrow> cc_GRPCBrokerMultiplex (config c)" using cr by (auto simp: getGRPCMuxer_def split: if_splits)
  moreover have "cc_Plugins (config c') = cc_Plugins (config c)" using part cr by simp
  ultimately show ?thesis
    using assms cr by (auto simp: newGRPCClient_def newGRPCBroker_def Let_def split: sum.splits)
qed

text \<open>
  A connected pair for tests agrees: when \<open>TestPluginGRPCConn\<close> succeeds, the client dispenses exactly the plugins
  of the set, each through its own \<open>GRPCClient\<close>, each of them has its service on the server, and the client's
  broker multiplexes only if asked to.
\<close>
theorem test_conn_agrees:
  assumes "TestPluginGRPCConn E ln reg N M code serr multiplex ps = Inr (client, server)"
  shows "GRPCClient_Dispense f client nam =
      (case map_of ps nam of None \<Rightarrow> Inl (Errorf ''unknown plugin type: %s'' [FStr nam]) | Some p \<Rightarrow> f p)
    \<and> (\<exists>g. gs_server server = Some g \<and> (map_of ps nam \<noteq> None \<longrightarrow> PluginService nam \<in> set (sv_services g)) \<and> set own_services \<subseteq> set (sv_services g))
    \<and> (gb_muxEnabled (gc_broker client) \<longrightarrow> multiplex)"
proof -
  let ?g = "foldl (\<lambda>g x. RegisterService x g) (DefaultGRPCServer None) own_services"
  obtain addr where c: "gm_result (newGRPCClient N M code serr addr
       ((new_client (test_config ps multiplex) :: GRPCClient client)\<lparr>address := Some addr, c_protocol := ProtocolGRPC\<rparr>)) = Inr client"
    and s: "GRPCServer_Init E DefaultGRPCServer reg (new_GRPCServer (Some ps) None multiplex) = (None, server)"
    using assms by (auto simp: TestPluginGRPCConn_def Let_def split: sum.splits prod.splits option.splits)
  have "gc_Plugins client = Some ps" and mux: "gb_muxEnabled (gc_broker client) \<longrightarrow> multiplex"
    using newGRPCClient_result [OF c] by (simp_all add: new_client_def test_config_def)
  moreover have init: "fst (Init_plugins reg ps ?g) = None" "gs_server server = Some (snd (Init_plugins reg ps ?g))"
    using s by (auto simp: GRPCServer_Init_def new_GRPCServer_def Let_def split: prod.splits)
  ultimately have "GRPCClient_Dispense f client nam =
      (case map_of ps nam of None \<Rightarrow> Inl (Errorf ''unknown plugin type: %s'' [FStr nam]) | Some p \<Rightarrow> f p)"
    using Init_plugins_grpc [OF init(1)] by (auto simp: GRPCClient_Dispense_def dest: map_of_SomeD split: option.splits)
  moreover have "sv_services (snd (Init_plugins reg ps ?g)) = own_services @ map (\<lambda>(k, p). PluginService k) ps"
    using Init_plugins_services [OF init(1)] by (simp add: own_services_def RegisterService_def DefaultGRPCServer_def)
  ultimately show ?thesis using init(2) mux by (auto dest: map_of_SomeD intro: rev_image_eqI)
qed

theorem test_conn_agrees_witness:
  "\<exists>client server. TestPluginGRPCConn (\<lambda>_. []) (Inr \<lparr>addr_Network = ''unix'', addr_String = ''/p''\<rparr>) (\<lambda>_. None) (\<lambda>_. Inr 1) (\<lambda>_. Inr 2)
       (\<lambda>_. Unavailable) None False demo_kv = Inr (client, server)
     \<and> GRPCClient_Dispense (\<lambda>p. Inr (plugin_impl p)) client ''kv'' = Inr 1"
proof -
  obtain client server where c: "TestPluginGRPCConn (\<lambda>_. []) (Inr \<lparr>addr_Network = ''unix'', addr_String = ''/p''\<rparr>) (\<lambda>_. None) (\<lambda>_. Inr 1)
      (\<lambda>_. Inr 2) (\<lambda>_. Unavailable) None False demo_kv = Inr (client, server)"
    by (simp add: TestPluginGRPCConn_def GRPCServer_Init_def new_GRPCServer_def demo_kv_def newGRPCClient_def dialGRPCConn_def
        getGRPCMuxer_def new_client_def test_config_def newGRPCStdioClient_def Let_def)
  from test_conn_agrees [OF c, of "\<lambda>p. Inr (plugin_impl p)" "''kv''"] c show ?thesis by (auto simp: demo_kv_def)
qed

end
