(* ===== verification/Streaming.thy ===== *)
theory Streaming
  imports GRPCServe
begin

text \<open>
  The streaming example (\<open>examples/streaming\<close>): a plugin that writes what it is sent to a file and reads it
  back, both in chunks. The file system and the fate of remote calls are arguments.
\<close>

section \<open>Files\<close>

text \<open>
  What a process finds when it opens, writes or closes a file: an error of opening, the room for writing if it
  is limited, and an error of closing.
\<close>

record file_env =
  fe_open_read :: "string \<Rightarrow> goerror option"
  fe_open_write :: "string \<Rightarrow> goerror option"
  fe_room :: "string \<Rightarrow> nat option"
  fe_close :: "string \<Rightarrow> goerror option"

type_synonym files = "string \<Rightarrow> string option"

definition os_ReadFile :: "file_env \<Rightarrow> string \<Rightarrow> files \<Rightarrow> string res" where
  "os_ReadFile E nam fs =
     (case fe_open_read E nam of
        Some err \<Rightarrow> Inl err
      | None \<Rightarrow> (case fs nam of None \<Rightarrow> Inl (ErrStd ''file does not exist'') | Some d \<Rightarrow> Inr d))"

text \<open>Opening with truncation and one write, and \<open>os.WriteFile\<close>, which also reports an error of closing.\<close>

definition open_write :: "file_env \<Rightarrow> string \<Rightarrow> string \<Rightarrow> files \<Rightarrow> goerror option \<times> files" where
  "open_write E nam d fs =
     (case fe_open_write E nam of
        Some err \<Rightarrow> (Some err, fs)
      | None \<Rightarrow>
          (case fe_room E nam of
             None \<Rightarrow> (None, fs(nam \<mapsto> d))
           | Some n \<Rightarrow> (if n < length d then (Some (ErrStd ''no space left on device''), fs(nam \<mapsto> take n d)) else (None, fs(nam \<mapsto> d)))))"

definition os_WriteFile :: "file_env \<Rightarrow> string \<Rightarrow> string \<Rightarrow> files \<Rightarrow> goerror option \<times> files" where
  "os_WriteFile E nam d fs =
     (case open_write E nam d fs of
        (Some err, fs') \<Rightarrow> (Some err, fs')
      | (None, fs') \<Rightarrow> (fe_close E nam, fs'))"

text \<open>What becomes of a remote call: it is not delivered, it is answered, or it is delivered and the answer is lost.\<close>

datatype call_fate = CallLost goerror | CallDone | ReplyLost goerror

section \<open>The plugin\<close>

record file_streamer =
  fst_path :: string

definition FileStreamer_Configure :: "string \<Rightarrow> int \<Rightarrow> file_streamer \<Rightarrow> file_streamer" where
  "FileStreamer_Configure path n f = f\<lparr>fst_path := path\<rparr>"

text \<open>
  The deferred functions assign the error of closing to a variable that is not the result, so that it is
  lost.
\<close>

definition FileStreamer_Read :: "file_env \<Rightarrow> file_streamer \<Rightarrow> files \<Rightarrow> string res" where
  "FileStreamer_Read E f fs = os_ReadFile E (fst_path f) fs"

definition FileStreamer_Write :: "file_env \<Rightarrow> file_streamer \<Rightarrow> string \<Rightarrow> files \<Rightarrow> goerror option \<times> files" where
  "FileStreamer_Write E f b fs = open_write E (fst_path f) b fs"

section \<open>Chunks\<close>

text \<open>
  The loop of \<open>Write\<close> of the client and of \<open>Read\<close> of the server: chunks are taken from the buffer with
  \<open>Next\<close>, which panics for a negative number, until one is empty; \<open>send k\<close> is the result of sending the
  \<open>k\<close>-th chunk. The result has the chunks that were sent.
\<close>

function send_chunks :: "(nat \<Rightarrow> goerror option) \<Rightarrow> int \<Rightarrow> nat \<Rightarrow> string \<Rightarrow> (string list \<times> goerror option) outcome" where
  "send_chunks send n k b =
     (if n < 0 then Panic ''slice bounds out of range''
      else if take (nat n) b = [] then Ret ([], None)
      else case send k of
             Some err \<Rightarrow> Ret ([], Some err)
           | None \<Rightarrow>
               (case send_chunks send n (Suc k) (drop (nat n) b) of
                  Ret (cs, err) \<Rightarrow> Ret (take (nat n) b # cs, err)
                | Panic m \<Rightarrow> Panic m))"
  by pat_completeness auto

termination by (relation "measure (\<lambda>(send, n, k, b). length b)") auto

declare send_chunks.simps [simp del]

section \<open>Both ends\<close>

record streamer_sys =
  sy_client :: int
  sy_server :: int
  sy_impl :: file_streamer
  sy_files :: files

definition StreamerGRPCClient_Configure :: "call_fate \<Rightarrow> string \<Rightarrow> int \<Rightarrow> streamer_sys \<Rightarrow> goerror option \<times> streamer_sys" where
  "StreamerGRPCClient_Configure fate path n s =
     (let s1 = s\<lparr>sy_client := n\<rparr>;
          s2 = s1\<lparr>sy_server := n, sy_impl := FileStreamer_Configure path n (sy_impl s)\<rparr>
      in case fate of CallLost err \<Rightarrow> (Some err, s1) | CallDone \<Rightarrow> (None, s2) | ReplyLost err \<Rightarrow> (Some err, s2))"

text \<open>
  \<open>Write\<close> of the server, for the chunks that arrive and the error that ends the stream if it is not its end.
\<close>

definition StreamerGRPCServer_Write ::
  "file_env \<Rightarrow> string list \<Rightarrow> goerror option \<Rightarrow> streamer_sys \<Rightarrow> goerror option \<times> streamer_sys" where
  "StreamerGRPCServer_Write E cs recv_err s =
     (case recv_err of
        Some err \<Rightarrow> (Some err, s)
      | None \<Rightarrow> (case FileStreamer_Write E (sy_impl s) (concat cs) (sy_files s) of (err, fs) \<Rightarrow> (err, s\<lparr>sy_files := fs\<rparr>)))"

definition not_EOF :: "goerror option \<Rightarrow> goerror option" where
  "not_EOF err = (if err = Some io_EOF then None else err)"

text \<open>
  \<open>Write\<close> of the client. \<open>wire\<close> is what becomes of an error of the server on its way; when sending fails the
  server sees an error instead of the end of the stream. The server sends no response: what \<open>CloseAndRecv\<close>
  returns for a call that ended without error and without a response is \<open>no_reply\<close>.
\<close>

definition StreamerGRPCClient_Write ::
  "file_env \<Rightarrow> goerror option \<Rightarrow> (nat \<Rightarrow> goerror option) \<Rightarrow> call_fate \<Rightarrow> (goerror \<Rightarrow> goerror) \<Rightarrow> goerror \<Rightarrow> string \<Rightarrow> streamer_sys
   \<Rightarrow> (goerror option \<times> streamer_sys) outcome" where
  "StreamerGRPCClient_Write E open_err send fate wire no_reply b s =
     (case open_err of
        Some err \<Rightarrow> Ret (Some err, s)
      | None \<Rightarrow>
          (case send_chunks send (sy_client s) 0 b of
             Panic m \<Rightarrow> Panic m
           | Ret (cs, Some err) \<Rightarrow> Ret (Some err, snd (StreamerGRPCServer_Write E cs (Some err) s))
           | Ret (cs, None) \<Rightarrow>
               (case fate of
                  CallLost err \<Rightarrow> Ret (not_EOF (Some err), s)
                | CallDone \<Rightarrow>
                    (case StreamerGRPCServer_Write E cs None s of
                       (None, s') \<Rightarrow> Ret (not_EOF (Some no_reply), s')
                     | (Some err, s') \<Rightarrow> Ret (not_EOF (Some (wire err)), s'))
                | ReplyLost err \<Rightarrow> Ret (not_EOF (Some err), snd (StreamerGRPCServer_Write E cs None s)))))"

definition StreamerGRPCServer_Read ::
  "file_env \<Rightarrow> (nat \<Rightarrow> goerror option) \<Rightarrow> streamer_sys \<Rightarrow> (string list \<times> goerror option) outcome" where
  "StreamerGRPCServer_Read E send s =
     (case FileStreamer_Read E (sy_impl s) (sy_files s) of
        Inl err \<Rightarrow> Ret ([], Some err)
      | Inr b \<Rightarrow> send_chunks send (sy_server s) 0 b)"

text \<open>\<open>Read\<close> of the client, which returns what it received also with an error.\<close>

definition StreamerGRPCClient_Read ::
  "file_env \<Rightarrow> goerror option \<Rightarrow> (nat \<Rightarrow> goerror option) \<Rightarrow> (goerror \<Rightarrow> goerror) \<Rightarrow> streamer_sys \<Rightarrow> (string \<times> goerror option) outcome" where
  "StreamerGRPCClient_Read E open_err send wire s =
     (case open_err of
        Some err \<Rightarrow> Ret ([], Some err)
      | None \<Rightarrow>
          (case StreamerGRPCServer_Read E send s of
             Panic m \<Rightarrow> Panic m
           | Ret (cs, err) \<Rightarrow> Ret (concat cs, not_EOF (map_option wire err))))"

section \<open>What is sent\<close>

lemma send_chunks_zero: "send_chunks send 0 k b = Ret ([], None)"
  by (simp add: send_chunks.simps)

lemma send_chunks_sent:
  "send_chunks send n k b = Ret (cs, None) \<Longrightarrow> n \<noteq> 0 \<Longrightarrow> concat cs = b \<and> (\<forall>c \<in> set cs. c \<noteq> [] \<and> int (length c) \<le> n)"
proof (induction send n k b arbitrary: cs rule: send_chunks.induct)
  case (1 send n k b)
  show ?case
  proof (cases "take (nat n) b = []")
    case True
    with 1 show ?thesis by (auto simp: send_chunks.simps [of send n k b] split: if_splits)
  next
    case False
    with 1(2) obtain ds where d: "send k = None" "send_chunks send n (Suc k) (drop (nat n) b) = Ret (ds, None)" "cs = take (nat n) b # ds" "\<not> n < 0"
      by (auto simp: send_chunks.simps [of send n k b] split: if_splits option.splits outcome.splits)
    with 1 False show ?thesis by auto
  qed
qed

lemma chunk_count:
  assumes "0 < (l :: nat)" "0 < n"
  shows "Suc ((l - n + n - 1) div n) = (l + n - 1) div n"
proof (cases "l < n")
  case True
  then have "(l + n - 1) div n = Suc 0" using assms by (intro div_nat_eqI) auto
  with True assms show ?thesis by simp
next
  case False
  then have "l + n - 1 = (l - 1) + n" using assms by simp
  then have "(l + n - 1) div n = (l - 1) div n + 1" using assms by (simp only: div_add_self2)
  with False show ?thesis by simp
qed

lemma send_chunks_all:
  "0 < n \<Longrightarrow> \<exists>cs. send_chunks (\<lambda>_. None) n k b = Ret (cs, None) \<and> length cs = (length b + nat n - 1) div nat n"
proof (induction b arbitrary: k rule: length_induct)
  case (1 b)
  show ?case
  proof (cases "b = []")
    case False
    with 1(2) obtain cs where cs: "send_chunks (\<lambda>_. None) n (Suc k) (drop (nat n) b) = Ret (cs, None)"
      "length cs = (length b - nat n + nat n - 1) div nat n"
      using 1(1) [rule_format, of "drop (nat n) b" "Suc k"] by auto
    have "Suc (length cs) = (length b + nat n - 1) div nat n"
      using chunk_count [of "length b" "nat n"] cs(2) 1(2) False by simp
    with cs False 1(2) show ?thesis by (simp add: send_chunks.simps [of _ n k b])
  qed (use 1(2) in \<open>simp add: send_chunks.simps\<close>)
qed

lemma open_write_ok: "open_write E nam d fs = (None, fs') \<Longrightarrow> fs' = fs(nam \<mapsto> d)"
  by (auto simp: open_write_def split: option.splits if_splits)

lemmas streaming_defs = StreamerGRPCClient_Write_def StreamerGRPCServer_Write_def StreamerGRPCClient_Read_def
  StreamerGRPCServer_Read_def FileStreamer_Write_def FileStreamer_Read_def open_write_def os_ReadFile_def

lemma sent_bytes: "send_chunks send n k b = Ret (cs, None) \<Longrightarrow> concat cs = (if n = 0 then [] else b)"
  using send_chunks_sent [of send n k b cs] by (auto simp: send_chunks_zero)

lemma Write_done:
  assumes "StreamerGRPCClient_Write E oe send fate wire nr b s = Ret (None, s')" "\<forall>err. wire err \<noteq> io_EOF" "fate \<noteq> CallLost io_EOF"
    "fate \<noteq> ReplyLost io_EOF"
  shows "\<exists>cs. send_chunks send (sy_client s) 0 b = Ret (cs, None) \<and> StreamerGRPCServer_Write E cs None s = (None, s')"
proof (cases "send_chunks send (sy_client s) 0 b")
  case (Ret r)
  obtain cs err where r: "r = (cs, err)" by fastforce
  from assms Ret r show ?thesis
    by (cases oe; cases err; cases fate; cases "StreamerGRPCServer_Write E cs None s"; cases "fst (StreamerGRPCServer_Write E cs None s)")
      (auto simp: StreamerGRPCClient_Write_def not_EOF_def split: if_splits)
qed (use assms in \<open>auto simp: StreamerGRPCClient_Write_def split: option.splits\<close>)

lemma Write_success:
  assumes "StreamerGRPCClient_Write E oe send fate wire nr b s = Ret (None, s')" "\<forall>err. wire err \<noteq> io_EOF" "fate \<noteq> CallLost io_EOF" "fate \<noteq> ReplyLost io_EOF"
  shows "sy_files s' = (sy_files s)(fst_path (sy_impl s) \<mapsto> (if sy_client s = 0 then [] else b))"
proof -
  have w: "sy_files s' = (sy_files s)(fst_path (sy_impl s) \<mapsto> concat cs)"
    if "StreamerGRPCServer_Write E cs None s = (None, s')" for cs
    using that by (auto simp: StreamerGRPCServer_Write_def FileStreamer_Write_def dest: open_write_ok split: prod.splits)
  obtain cs where "send_chunks send (sy_client s) 0 b = Ret (cs, None)" "StreamerGRPCServer_Write E cs None s = (None, s')"
    using Write_done [OF assms] by blast
  with w sent_bytes show ?thesis by metis
qed

lemma Read_success:
  assumes "StreamerGRPCClient_Read E oe send wire s = Ret (d, None)" "\<forall>err. wire err \<noteq> io_EOF"
  shows "\<exists>c. sy_files s (fst_path (sy_impl s)) = Some c \<and> d = (if sy_server s = 0 then [] else c)"
proof -
  obtain cs where cs: "StreamerGRPCServer_Read E send s = Ret (cs, None)" "d = concat cs"
    using assms by (auto simp: StreamerGRPCClient_Read_def not_EOF_def split: option.splits outcome.splits prod.splits if_splits)
  then show ?thesis
    using sent_bytes by (fastforce simp: StreamerGRPCServer_Read_def FileStreamer_Read_def os_ReadFile_def split: sum.splits option.splits)
qed

section \<open>Properties\<close>


text \<open>Instance: ten bytes a chunk.\<close>

definition demo_files :: file_env where
  "demo_files = \<lparr>fe_open_read = (\<lambda>_. None), fe_open_write = (\<lambda>_. None), fe_room = (\<lambda>_. None), fe_close = (\<lambda>_. None)\<rparr>"


end
