(* ===== verification/Examples.thy ===== *)
theory Examples
  imports Streaming
begin

text \<open>
  The example programs other than streaming: the key-value store over net/rpc and gRPC (\<open>examples/grpc\<close>), its
  version with negotiation (\<open>examples/negotiated\<close>), the counter whose plugin calls the host back over the
  broker (\<open>examples/bidirectional\<close>) and the greeter (\<open>examples/basic\<close>).
\<close>

section \<open>The key-value store\<close>

text \<open>
  The implementations differ in the note they append to what is stored and to what is read.
\<close>

record kv_impl =
  kv_put_note :: string
  kv_get_note :: string

abbreviation blank_line :: string where "blank_line \<equiv> [byte_char 10, byte_char 10]"

definition kv_go_grpc :: kv_impl where
  "kv_go_grpc = \<lparr>kv_put_note = blank_line @ ''Written from plugin-go-grpc'', kv_get_note = []\<rparr>"

definition kv_go_netrpc :: kv_impl where
  "kv_go_netrpc = \<lparr>kv_put_note = blank_line @ ''Written from plugin-go-netrpc'', kv_get_note = []\<rparr>"

definition kv_version_2 :: kv_impl where
  "kv_version_2 = \<lparr>kv_put_note = blank_line @ ''Written from plugin version 2'' @ [byte_char 10],
                   kv_get_note = ''Read by plugin version 2'' @ [byte_char 10]\<rparr>"

definition kv_version_3 :: kv_impl where
  "kv_version_3 = \<lparr>kv_put_note = blank_line @ ''Written from plugin version 3'' @ [byte_char 10],
                   kv_get_note = ''Read by plugin version 3'' @ [byte_char 10]\<rparr>"

definition KV_Put :: "file_env \<Rightarrow> kv_impl \<Rightarrow> string \<Rightarrow> string \<Rightarrow> files \<Rightarrow> goerror option \<times> files" where
  "KV_Put E I key val fs = os_WriteFile E (''kv_'' @ key) (val @ kv_put_note I) fs"

definition KV_Get :: "file_env \<Rightarrow> kv_impl \<Rightarrow> string \<Rightarrow> files \<Rightarrow> string res" where
  "KV_Get E I key fs =
     (case os_ReadFile E (''kv_'' @ key) fs of Inl err \<Rightarrow> Inl err | Inr d \<Rightarrow> Inr (d @ kv_get_note I))"

text \<open>
  Remote calls: a call that changes the state of the server, and a call that returns a value. \<open>wire\<close> is what
  becomes of an error of the server on its way.
\<close>

definition remote_call :: "call_fate \<Rightarrow> (goerror \<Rightarrow> goerror) \<Rightarrow> goerror option \<times> 's \<Rightarrow> 's \<Rightarrow> goerror option \<times> 's" where
  "remote_call fate wire r s =
     (case fate of
        CallLost err \<Rightarrow> (Some err, s)
      | CallDone \<Rightarrow> (map_option wire (fst r), snd r)
      | ReplyLost err \<Rightarrow> (Some err, snd r))"

definition remote_get :: "call_fate \<Rightarrow> (goerror \<Rightarrow> goerror) \<Rightarrow> 'v res \<Rightarrow> 'v res" where
  "remote_get fate wire r =
     (case fate of
        CallLost err \<Rightarrow> Inl err
      | CallDone \<Rightarrow> (case r of Inl err \<Rightarrow> Inl (wire err) | Inr v \<Rightarrow> Inr v)
      | ReplyLost err \<Rightarrow> Inl err)"

text \<open>
  Over net/rpc the arguments of \<open>Put\<close> are a map, which the server takes apart with type assertions that
  panic.
\<close>

datatype rpc_arg = ArgString string | ArgBytes string

definition kv_RPCServer_Put ::
  "file_env \<Rightarrow> kv_impl \<Rightarrow> (string, rpc_arg) amap \<Rightarrow> files \<Rightarrow> (goerror option \<times> files) outcome" where
  "kv_RPCServer_Put E I args fs =
     (case (map_of args ''key'', map_of args ''value'') of
        (Some (ArgString k), Some (ArgBytes v)) \<Rightarrow> Ret (KV_Put E I k v fs)
      | _ \<Rightarrow> Panic ''interface conversion'')"

definition kv_RPCClient_Put ::
  "call_fate \<Rightarrow> (goerror \<Rightarrow> goerror) \<Rightarrow> file_env \<Rightarrow> kv_impl \<Rightarrow> string \<Rightarrow> string \<Rightarrow> files \<Rightarrow> (goerror option \<times> files) outcome" where
  "kv_RPCClient_Put fate wire E I key val fs =
     bind_out (kv_RPCServer_Put E I [(''key'', ArgString key), (''value'', ArgBytes val)] fs) (\<lambda>r. Ret (remote_call fate wire r fs))"

definition kv_GRPCClient_Put ::
  "call_fate \<Rightarrow> (goerror \<Rightarrow> goerror) \<Rightarrow> file_env \<Rightarrow> kv_impl \<Rightarrow> string \<Rightarrow> string \<Rightarrow> files \<Rightarrow> goerror option \<times> files" where
  "kv_GRPCClient_Put fate wire E I key val fs = remote_call fate wire (KV_Put E I key val fs) fs"

definition kv_RPCClient_Get ::
  "call_fate \<Rightarrow> (goerror \<Rightarrow> goerror) \<Rightarrow> file_env \<Rightarrow> kv_impl \<Rightarrow> string \<Rightarrow> files \<Rightarrow> string res" where
  "kv_RPCClient_Get fate wire E I key fs = remote_get fate wire (KV_Get E I key fs)"

definition kv_GRPCClient_Get ::
  "call_fate \<Rightarrow> (goerror \<Rightarrow> goerror) \<Rightarrow> file_env \<Rightarrow> kv_impl \<Rightarrow> string \<Rightarrow> files \<Rightarrow> string res" where
  "kv_GRPCClient_Get fate wire E I key fs = remote_get fate wire (KV_Get E I key fs)"

section \<open>The programs of the host\<close>

text \<open>
  How a program ends: with what it printed, an error, a message that it does not understand its arguments, or a
  panic; whether the deferred \<open>Kill\<close> ran, which \<open>os.Exit\<close> skips; and the files.
\<close>

datatype program_end = Printed string | Failed goerror | Usage | Crash string

text \<open>The command: the arguments after the name of the program, of which a missing one panics.\<close>

fun kv_command ::
  "(string \<Rightarrow> files \<Rightarrow> string res) \<Rightarrow> (string \<Rightarrow> string \<Rightarrow> files \<Rightarrow> goerror option \<times> files) \<Rightarrow> string list \<Rightarrow> files
   \<Rightarrow> program_end \<times> files" where
  "kv_command getf putf [] fs = (Crash ''index out of range'', fs)"
| "kv_command getf putf (c # rest) fs =
     (if c = ''get'' then
        (case rest of
           [] \<Rightarrow> (Crash ''index out of range'', fs)
         | k # _ \<Rightarrow> (case getf k fs of Inl err \<Rightarrow> (Failed err, fs) | Inr v \<Rightarrow> (Printed (v @ [byte_char 10]), fs)))
      else if c = ''put'' then
        (case rest of
           k # v # _ \<Rightarrow> (case putf k v fs of (Some err, fs') \<Rightarrow> (Failed err, fs') | (None, fs') \<Rightarrow> (Printed [], fs'))
         | _ \<Rightarrow> (Crash ''index out of range'', fs))
      else (Usage, fs))"

text \<open>
  \<open>run\<close> of \<open>examples/grpc\<close>, for the result of \<open>Client\<close>, of \<open>Dispense\<close> and the variable \<open>KV_PROTO\<close>; the last
  component is whether \<open>Kill\<close> ran.
\<close>

definition grpc_run ::
  "goerror option \<Rightarrow> (string \<Rightarrow> goerror option) \<Rightarrow> string \<Rightarrow> (files \<Rightarrow> program_end \<times> files) \<Rightarrow> files \<Rightarrow> program_end \<times> files \<times> bool" where
  "grpc_run client dispense proto command fs =
     (case client of
        Some err \<Rightarrow> (Failed err, fs, True)
      | None \<Rightarrow>
          (if proto = ''netrpc'' \<or> proto = ''grpc'' then
             (case dispense (if proto = ''netrpc'' then ''kv'' else ''kv_grpc'') of
                Some err \<Rightarrow> (Failed err, fs, True)
              | None \<Rightarrow> (case command fs of (r, fs') \<Rightarrow> (r, fs', True)))
           else (Usage, fs, False)))"

text \<open>\<open>main\<close> of \<open>examples/negotiated\<close>: the versions it offers, and what follows, where every error exits at once.\<close>

definition negotiated_versions :: "string \<Rightarrow> versioned_plugins option" where
  "negotiated_versions proto =
     (if proto = ''netrpc'' then Some [(2, Some [(''kv'', \<lparr>plugin_impl = 0, is_GRPCPlugin = False\<rparr>)])]
      else if proto = ''grpc'' then Some [(3, Some [(''kv'', \<lparr>plugin_impl = 0, is_GRPCPlugin = True\<rparr>)])]
      else None)"

definition exits_at_once :: "program_end \<Rightarrow> bool" where
  "exits_at_once r = (case r of Failed err \<Rightarrow> True | Usage \<Rightarrow> True | _ \<Rightarrow> False)"

definition negotiated_main ::
  "goerror option \<Rightarrow> (string \<Rightarrow> goerror option) \<Rightarrow> string \<Rightarrow> (files \<Rightarrow> program_end \<times> files) \<Rightarrow> files \<Rightarrow> program_end \<times> files \<times> bool" where
  "negotiated_main client dispense proto command fs =
     (if negotiated_versions proto = None then (Usage, fs, False)
      else case client of
             Some err \<Rightarrow> (Failed err, fs, False)
           | None \<Rightarrow>
               (case dispense ''kv'' of
                  Some err \<Rightarrow> (Failed err, fs, False)
                | None \<Rightarrow> (case command fs of (r, fs') \<Rightarrow> (r, fs', \<not> exits_at_once r))))"

definition example_handshake :: handshake_config where
  "example_handshake = \<lparr>ProtocolVersion = 1, MagicCookieKey = ''BASIC_PLUGIN'', MagicCookieValue = ''hello''\<rparr>"

text \<open>The plugin of \<open>examples/negotiated\<close>.\<close>

definition negotiated_serve :: serve_config where
  "negotiated_serve =
     \<lparr>sc_Handshake = example_handshake, sc_TLSProvider = None, sc_Plugins = None,
      sc_VersionedPlugins = Some [(2, Some [(''kv'', \<lparr>plugin_impl = 2, is_GRPCPlugin = False\<rparr>)]),
                                  (3, Some [(''kv'', \<lparr>plugin_impl = 3, is_GRPCPlugin = True\<rparr>)])],
      sc_GRPCServer = True, sc_Logger = None, sc_Test = None\<rparr>"

section \<open>The counter\<close>

type_synonym int64 = "64 word"

text \<open>The file has the value as JSON; \<open>unmarshal\<close> is the decoding.\<close>

definition counter_json :: "int64 \<Rightarrow> string" where
  "counter_json v = ''{\"Value\":'' @ Itoa (sint v) @ ''}''"

definition Counter_Get :: "file_env \<Rightarrow> (string \<Rightarrow> int64 res) \<Rightarrow> string \<Rightarrow> files \<Rightarrow> int64 res" where
  "Counter_Get E unmarshal key fs =
     (case os_ReadFile E (''kv_'' @ key) fs of Inl err \<Rightarrow> Inl err | Inr d \<Rightarrow> unmarshal d)"

definition Counter_Put ::
  "file_env \<Rightarrow> (string \<Rightarrow> int64 res) \<Rightarrow> (int64 \<Rightarrow> int64 \<Rightarrow> int64 res) \<Rightarrow> string \<Rightarrow> int64 \<Rightarrow> files \<Rightarrow> goerror option \<times> files" where
  "Counter_Put E unmarshal add key val fs =
     (let v = (case Counter_Get E unmarshal key fs of Inl err \<Rightarrow> 0 | Inr v \<Rightarrow> v)
      in case add v val of
           Inl err \<Rightarrow> (Some err, fs)
         | Inr r \<Rightarrow> os_WriteFile E (''kv_'' @ key) (counter_json r) fs)"

definition addHelper_Sum :: "int64 \<Rightarrow> int64 \<Rightarrow> int64 res" where
  "addHelper_Sum a b = Inr (a + b)"

text \<open>
  \<open>Put\<close> of the plugin's server: it dials the identifier in the request and passes a client of the helper on.
\<close>

definition counter_GRPCServer_Put ::
  "(stream_id \<Rightarrow> goerror option) \<Rightarrow> (int64 \<Rightarrow> int64 \<Rightarrow> int64 res) \<Rightarrow> file_env \<Rightarrow> (string \<Rightarrow> int64 res) \<Rightarrow> stream_id \<Rightarrow> string \<Rightarrow> int64
   \<Rightarrow> files \<Rightarrow> goerror option \<times> files" where
  "counter_GRPCServer_Put dial add E unmarshal sid key val fs =
     (case dial sid of Some err \<Rightarrow> (Some err, fs) | None \<Rightarrow> Counter_Put E unmarshal add key val fs)"

text \<open>
  How one \<open>Put\<close> goes: the fate of the call and of the call back, whether the goroutine of
  \<open>AcceptAndServe\<close> made the server of the helper before the call returned, and the plugin's dial. The helper
  answers only when its server was made.
\<close>

record put_world =
  pw_fate :: call_fate
  pw_back :: call_fate
  pw_served :: bool
  pw_refused :: goerror
  pw_dial :: "stream_id \<Rightarrow> goerror option"
  pw_wire :: "goerror \<Rightarrow> goerror"

definition helper_Sum :: "put_world \<Rightarrow> int64 \<Rightarrow> int64 \<Rightarrow> int64 res" where
  "helper_Sum P a b =
     (if pw_served P then remote_get (pw_back P) (pw_wire P) (addHelper_Sum a b) else Inl (pw_refused P))"

definition counter_GRPCClient_Put ::
  "put_world \<Rightarrow> file_env \<Rightarrow> (string \<Rightarrow> int64 res) \<Rightarrow> string \<Rightarrow> int64 \<Rightarrow> grpc_broker \<times> files \<Rightarrow> (goerror option \<times> grpc_broker \<times> files) outcome" where
  "counter_GRPCClient_Put P E unmarshal key val s =
     (case NextId_grpc (fst s) of
        (brokerID, b) \<Rightarrow>
          (case remote_call (pw_fate P) (pw_wire P)
                  (counter_GRPCServer_Put (pw_dial P) (helper_Sum P) E unmarshal brokerID key val (snd s)) (snd s) of
             (err, fs) \<Rightarrow> (if pw_served P then Ret (err, b, fs) else Panic ''nil pointer dereference'')))"

definition counter_GRPCClient_Get ::
  "call_fate \<Rightarrow> (goerror \<Rightarrow> goerror) \<Rightarrow> file_env \<Rightarrow> (string \<Rightarrow> int64 res) \<Rightarrow> string \<Rightarrow> files \<Rightarrow> int64 res" where
  "counter_GRPCClient_Get fate wire E unmarshal key fs = remote_get fate wire (Counter_Get E unmarshal key fs)"

text \<open>A sequence of calls of \<open>Put\<close> with one key, until the first error.\<close>

fun counter_puts ::
  "put_world \<Rightarrow> file_env \<Rightarrow> (string \<Rightarrow> int64 res) \<Rightarrow> string \<Rightarrow> int64 list \<Rightarrow> grpc_broker \<times> files \<Rightarrow> (goerror option \<times> grpc_broker \<times> files) outcome" where
  "counter_puts P E unmarshal key [] s = Ret (None, s)"
| "counter_puts P E unmarshal key (v # vs) s =
     (case counter_GRPCClient_Put P E unmarshal key v s of
        Ret (None, s') \<Rightarrow> counter_puts P E unmarshal key vs s'
      | r \<Rightarrow> r)"

section \<open>The greeter\<close>

definition GreeterHello_Greet :: string where "GreeterHello_Greet = ''Hello!''"

definition GreeterRPC_Greet :: "call_fate \<Rightarrow> string outcome" where
  "GreeterRPC_Greet fate =
     (case remote_get fate id (Inr GreeterHello_Greet) of Inl err \<Rightarrow> Panic ''remote error'' | Inr v \<Rightarrow> Ret v)"

section \<open>Helper lemmas\<close>

definition usable :: "file_env \<Rightarrow> string \<Rightarrow> bool" where
  "usable E nam \<longleftrightarrow> fe_open_read E nam = None \<and> fe_open_write E nam = None \<and> fe_room E nam = None \<and> fe_close E nam = None"

lemma WriteFile_usable: "usable E nam \<Longrightarrow> os_WriteFile E nam d fs = (None, fs(nam \<mapsto> d))"
  by (simp add: usable_def os_WriteFile_def open_write_def)

lemma WriteFile_ok: "os_WriteFile E nam d fs = (None, fs') \<Longrightarrow> fs' = fs(nam \<mapsto> d)"
  by (auto simp: os_WriteFile_def split: prod.splits option.splits dest: open_write_ok)

lemma ReadFile_usable: "usable E nam \<Longrightarrow> os_ReadFile E nam fs = (case fs nam of None \<Rightarrow> Inl (ErrStd ''file does not exist'') | Some d \<Rightarrow> Inr d)"
  by (simp add: usable_def os_ReadFile_def)

lemma ReadFile_other: "nam \<noteq> nam' \<Longrightarrow> os_ReadFile E nam (fs(nam' \<mapsto> d)) = os_ReadFile E nam fs"
  by (cases "fe_open_read E nam") (simp_all add: os_ReadFile_def)

lemma remote_call_ok: "remote_call fate wire r s = (None, s') \<Longrightarrow> fate = CallDone \<and> r = (None, s')"
  by (cases r; cases fate) (auto simp: remote_call_def)

lemma remote_get_ok: "remote_get fate wire r = Inr v \<Longrightarrow> fate = CallDone \<and> r = Inr v"
  by (cases fate; cases r) (auto simp: remote_get_def)

lemmas negotiated_eval = negotiated_serve_def protocolVersion_def served_plugins_def set_protocol_def amap_get_def Let_def

lemma counter_put_ok:
  assumes "\<forall>v. unmarshal (counter_json v) = Inr v" "usable E (''kv_'' @ key)"
    and "pw_fate P = CallDone" "pw_back P = CallDone" "pw_served P" "\<forall>sid. pw_dial P sid = None"
  shows "counter_GRPCClient_Put P E unmarshal key v (b, fs) =
    Ret (None, snd (NextId_grpc b), fs(''kv_'' @ key \<mapsto> counter_json ((case Counter_Get E unmarshal key fs of Inl err \<Rightarrow> 0 | Inr v \<Rightarrow> v) + v)))"
  using assms
  by (simp add: counter_GRPCClient_Put_def counter_GRPCServer_Put_def remote_call_def Counter_Put_def helper_Sum_def remote_get_def
      addHelper_Sum_def WriteFile_usable Let_def split: prod.splits)

lemma counter_puts_sum:
  assumes "\<forall>v. unmarshal (counter_json v) = Inr v" "usable E (''kv_'' @ key)"
    and "pw_fate P = CallDone" "pw_back P = CallDone" "pw_served P" "\<forall>sid. pw_dial P sid = None"
  shows "\<exists>b' fs'. counter_puts P E unmarshal key vs (b, fs) = Ret (None, b', fs')
    \<and> (vs \<noteq> [] \<longrightarrow> Counter_Get E unmarshal key fs' = Inr ((case Counter_Get E unmarshal key fs of Inl err \<Rightarrow> 0 | Inr v \<Rightarrow> v) + sum_list vs))
    \<and> gb_nextID b' = gb_nextID b + of_nat (length vs)
    \<and> (\<forall>nam. nam \<noteq> ''kv_'' @ key \<longrightarrow> fs' nam = fs nam)"
proof (induction vs arbitrary: b fs)
  case (Cons v vs)
  let ?fs = "fs(''kv_'' @ key \<mapsto> counter_json ((case Counter_Get E unmarshal key fs of Inl err \<Rightarrow> 0 | Inr v \<Rightarrow> v) + v))"
  have g: "Counter_Get E unmarshal key ?fs = Inr ((case Counter_Get E unmarshal key fs of Inl err \<Rightarrow> 0 | Inr v \<Rightarrow> v) + v)"
    using assms(1,2) by (simp add: Counter_Get_def ReadFile_usable)
  obtain b' fs' where r: "counter_puts P E unmarshal key vs (snd (NextId_grpc b), ?fs) = Ret (None, b', fs')"
    "vs \<noteq> [] \<longrightarrow> Counter_Get E unmarshal key fs' = Inr ((case Counter_Get E unmarshal key ?fs of Inl err \<Rightarrow> 0 | Inr v \<Rightarrow> v) + sum_list vs)"
    "gb_nextID b' = gb_nextID (snd (NextId_grpc b)) + of_nat (length vs)" "\<forall>nam. nam \<noteq> ''kv_'' @ key \<longrightarrow> fs' nam = ?fs nam"
    using Cons.IH by blast
  have "Counter_Get E unmarshal key fs' = Inr ((case Counter_Get E unmarshal key fs of Inl err \<Rightarrow> 0 | Inr v \<Rightarrow> v) + sum_list (v # vs))"
    using r(1,2) g by (cases "vs = []") (auto simp: add.assoc)
  moreover have "counter_puts P E unmarshal key (v # vs) (b, fs) = Ret (None, b', fs')"
    using counter_put_ok [OF assms] r(1) by simp
  moreover have "gb_nextID b' = gb_nextID b + of_nat (length (v # vs))" using r(3) by (simp add: NextId_grpc_def Let_def)
  ultimately show ?case using r(4) by (intro exI [of _ b'] exI [of _ fs']) simp
qed simp

section \<open>Properties\<close>

text \<open>
  The key-value store gives back what was stored, over both protocols and with any errors possible: when
  \<open>Put\<close> reports success and a later \<open>Get\<close> of the same key does, the result is the value with the notes
  of the two implementations, and no other key was touched; over net/rpc the type assertions of the server
  never panic for a request of the client, and both protocols store the same.
\<close>
theorem kv_roundtrip:
  assumes "kv_GRPCClient_Put fate wire E I key val fs = (None, fs')"
  shows "(kv_GRPCClient_Get fate' wire' E' J key fs' = Inr v \<longrightarrow> v = val @ kv_put_note I @ kv_get_note J)
    \<and> (key' \<noteq> key \<longrightarrow> KV_Get E' J key' fs' = KV_Get E' J key' fs)
    \<and> kv_RPCClient_Put fate wire E I key val fs = Ret (None, fs')
    \<and> kv_RPCClient_Get fate' wire' E' J key fs' = kv_GRPCClient_Get fate' wire' E' J key fs'"
proof -
  have fs: "fs' = fs(''kv_'' @ key \<mapsto> val @ kv_put_note I)"
    using assms unfolding kv_GRPCClient_Put_def KV_Put_def by (blast dest: remote_call_ok WriteFile_ok)
  have "v = val @ kv_put_note I @ kv_get_note J" if "kv_GRPCClient_Get fate' wire' E' J key fs' = Inr v"
    using remote_get_ok [OF that [unfolded kv_GRPCClient_Get_def]] fs by (auto simp: KV_Get_def os_ReadFile_def split: option.splits sum.splits)
  moreover have "KV_Get E' J key' fs' = KV_Get E' J key' fs" if "key' \<noteq> key" using that fs by (simp add: KV_Get_def ReadFile_other)
  moreover have "kv_RPCClient_Put fate wire E I key val fs = Ret (None, fs')"
    using assms by (simp add: kv_RPCClient_Put_def kv_RPCServer_Put_def kv_GRPCClient_Put_def)
  ultimately show ?thesis by (simp add: kv_RPCClient_Get_def kv_GRPCClient_Get_def)
qed

text \<open>
  The negotiated example does what it shows: the host offers one version, and with that offer the plugin
  chooses this version, its protocol and its implementation: version 2 over net/rpc and version 3 over gRPC.
\<close>
theorem negotiated_example:
  assumes "negotiated_versions proto \<noteq> None" "cc_VersionedPlugins cfg = negotiated_versions proto" "cc_Plugins cfg = None"
    and "E ''PLUGIN_PROTOCOL_VERSIONS'' = join_with '','' (versionStrings (register_versions cfg))"
  shows "fst (protocolVersion E negotiated_serve) =
    (if proto = ''grpc'' then (3, ProtocolGRPC, Some [(''kv'', \<lparr>plugin_impl = 3, is_GRPCPlugin = True\<rparr>)])
     else (2, ProtocolNetRPC, Some [(''kv'', \<lparr>plugin_impl = 2, is_GRPCPlugin = False\<rparr>)]))"
proof -
  have h: "map fst (host_plugins (register_versions cfg)) = [if proto = ''grpc'' then 3 else 2]"
    using assms(1-3) by (auto simp: negotiated_versions_def host_plugins_def register_versions_def default_version_def Let_def split: if_splits)
  then have "fst ` set (host_plugins (register_versions cfg)) = {if proto = ''grpc'' then 3 else 2}" by (metis list.set_map list.simps(15) list.set(1))
  then have "\<forall>v \<in> fst ` set (host_plugins (register_versions cfg)). is_int64 v" by (simp add: is_int64_def)
  then have "clientVersionsFromEnv E = [if proto = ''grpc'' then 3 else 2]" using offered_versions_roundtrip assms(4) h by metis
  then show ?thesis by (simp add: negotiated_eval)
qed

text \<open>
  C33: The counter counts: calls of \<open>Put\<close> that go through, the plugin calling the host back for each sum,
  leave the sum of all values modulo 64 bits, each with an identifier of its own; whatever is wrong
  with the file before counts as 0.
\<close>
theorem counter_sum:
  assumes "\<forall>v. unmarshal (counter_json v) = Inr v" "usable E (''kv_'' @ key)"
    and "pw_fate P = CallDone" "pw_back P = CallDone" "pw_served P" "\<forall>sid. pw_dial P sid = None" "vs \<noteq> []"
  shows "\<exists>b' fs'. counter_puts P E unmarshal key vs (b, fs) = Ret (None, b', fs')
    \<and> Counter_Get E unmarshal key fs' = Inr ((case Counter_Get E unmarshal key fs of Inl err \<Rightarrow> 0 | Inr v \<Rightarrow> v) + sum_list vs)
    \<and> gb_nextID b' = gb_nextID b + of_nat (length vs)
    \<and> (\<forall>nam. nam \<noteq> ''kv_'' @ key \<longrightarrow> fs' nam = fs nam)"
  using assms(7) counter_puts_sum [OF assms(1-6), of vs b fs] by auto

text \<open>
  The example panics where it means to report an error. When the goroutine that accepts the plugin's
  connection has not made its server by the time the call returns, as when listening for it fails and the plugin's
  dial then times out, \<open>Put\<close> stops a server that is nil, whatever the call returned.
\<close>
theorem counter_put_panics:
  "counter_GRPCClient_Put P E unmarshal key val s = Panic m \<longleftrightarrow> \<not> pw_served P \<and> m = ''nil pointer dereference''"
  by (auto simp: counter_GRPCClient_Put_def split: prod.splits)

text \<open>
  Which ends of the example programs leave the plugin running: \<open>run\<close> of the gRPC example always kills it,
  but for an invalid \<open>KV_PROTO\<close>; \<open>main\<close> of the negotiated example only when it succeeds or panics, since
  \<open>os.Exit\<close> skips the deferred \<open>Kill\<close>.
\<close>
theorem example_kill:
  "(\<not> snd (snd (grpc_run client dispense proto command fs)) \<longleftrightarrow> client = None \<and> proto \<notin> {''netrpc'', ''grpc''})
   \<and> (snd (snd (negotiated_main client dispense proto command fs))
      \<longleftrightarrow> \<not> exits_at_once (fst (negotiated_main client dispense proto command fs)))"
  by (auto simp: grpc_run_def negotiated_main_def exits_at_once_def split: option.splits prod.splits program_end.splits)

section \<open>Concrete runs\<close>

lemma demo_usable: "usable demo_files nam"
  by (simp add: usable_def demo_files_def)

theorem kv_roundtrip_witness:
  "\<exists>fs'. kv_GRPCClient_Put CallDone id demo_files kv_version_2 ''hello'' ''world'' (\<lambda>_. None) = (None, fs')
     \<and> KV_Get demo_files kv_version_3 ''other'' fs' = KV_Get demo_files kv_version_3 ''other'' (\<lambda>_. None)
     \<and> kv_GRPCClient_Get CallDone id demo_files kv_version_3 ''hello'' fs'
       = Inr (''world'' @ kv_put_note kv_version_2 @ kv_get_note kv_version_3)"
proof -
  obtain fs' v where fs: "kv_GRPCClient_Put CallDone id demo_files kv_version_2 ''hello'' ''world'' (\<lambda>_. None) = (None, fs')"
    "kv_GRPCClient_Get CallDone id demo_files kv_version_3 ''hello'' fs' = Inr v"
    by (simp add: kv_GRPCClient_Put_def KV_Put_def remote_call_def kv_GRPCClient_Get_def KV_Get_def remote_get_def
        WriteFile_usable ReadFile_usable demo_usable)
  have "''other'' \<noteq> ''hello''" by simp
  with kv_roundtrip [OF fs(1), of CallDone id demo_files kv_version_3 v "''other''"] fs show ?thesis by blast
qed

lemma Itoa_three: "Itoa 3 = ''3''"
  by code_simp

theorem negotiated_example_witness:
  "fst (protocolVersion (\<lambda>_. ''3'') negotiated_serve) = (3, ProtocolGRPC, Some [(''kv'', \<lparr>plugin_impl = 3, is_GRPCPlugin = True\<rparr>)])"
proof -
  let ?cfg = "demo_config\<lparr>cc_Plugins := None, cc_VersionedPlugins := negotiated_versions ''grpc''\<rparr>"
  have "join_with '','' (versionStrings (register_versions ?cfg)) = ''3''"
    by (simp add: negotiated_versions_def versionStrings_def host_plugins_def register_versions_def default_version_def Let_def Itoa_three)
  then show ?thesis using negotiated_example [of "''grpc''" ?cfg "\<lambda>_. ''3''"] by (simp add: negotiated_versions_def)
qed

text \<open>A decoder for what the counter writes.\<close>

definition demo_unmarshal :: "string \<Rightarrow> int64 res" where
  "demo_unmarshal d = (case Atoi (butlast (drop 9 d)) of Inl err \<Rightarrow> Inl (ErrStd ''invalid character'') | Inr i \<Rightarrow> Inr (word_of_int i))"

lemma demo_unmarshal_json: "demo_unmarshal (counter_json v) = Inr v"
proof -
  have "is_int64 (sint v)" using sint_range_size [of v] by (simp add: is_int64_def word_size)
  then show ?thesis by (simp add: demo_unmarshal_def counter_json_def butlast_append Atoi_Itoa)
qed

definition demo_put :: put_world where
  "demo_put = \<lparr>pw_fate = CallDone, pw_back = CallDone, pw_served = True, pw_refused = ErrStd ''refused'', pw_dial = (\<lambda>_. None), pw_wire = id\<rparr>"

theorem counter_sum_witness:
  "\<exists>b' fs'. counter_puts demo_put demo_files demo_unmarshal ''x'' [5, - 7] (newGRPCBroker None empty_unix_cfg None False, \<lambda>_. None) = Ret (None, b', fs')
     \<and> Counter_Get demo_files demo_unmarshal ''x'' fs' = Inr (- 2) \<and> gb_nextID b' = 2"
proof -
  have "Counter_Get demo_files demo_unmarshal ''x'' (\<lambda>_. None) = Inl (ErrStd ''file does not exist'')"
    by (simp add: Counter_Get_def ReadFile_usable demo_usable)
  then show ?thesis
    using counter_sum [of demo_unmarshal demo_files "''x''" demo_put "[5, - 7]" "newGRPCBroker None empty_unix_cfg None False" "\<lambda>_. None"]
      demo_unmarshal_json demo_usable by (auto simp: demo_put_def newGRPCBroker_def)
qed

end
