(* ===== verification/Spec2Isabelle.thy ===== *)
theory Spec2Isabelle
  imports EndToEnd MuxBrokerTheorems GRPCBrokerTheorems LogPump GRPCMuxRouting Helpers Examples
begin

text \<open>
  A verification development for the plugin library in \<open>src/\<close>: a host process starts plugins as child
  processes, agrees with each on a version and a protocol through one line on the plugin's standard output,
  and talks to it over net/rpc or gRPC, where a broker gives both sides further connections.

  \<^bold>\<open>How the parts interact.\<close> \<open>NewClient\<close> and \<open>Start\<close> (\<open>client.go\<close>) prepare the environment of the child, start it
  through a runner (\<open>internal/cmdrunner\<close>), read its handshake line and remember address, protocol and plugin
  set. The child calls \<open>Serve\<close> (\<open>server.go\<close>), which checks the cookie, chooses a version from the environment,
  listens, makes certificates if asked to and prints the line. \<open>Client\<close> then makes an \<open>RPCClient\<close> or a
  \<open>GRPCClient\<close>; \<open>Dispense\<close> finds a plugin by name; \<open>MuxBroker\<close> or \<open>GRPCBroker\<close> connect further streams by
  identifier, the second over the multiplexers of \<open>internal/grpcmux\<close> if both sides agreed to that; the output of the
  plugin is copied to the host; \<open>Kill\<close> and \<open>CleanupClients\<close> end the plugin and clean up.

  \<^bold>\<open>Conventions.\<close> A Go struct is a record, an enumeration a datatype, a string a list of characters that are
  bytes, a map that is iterated an association list, and a machine integer a word or an integer with its
  bounds written out. A nil pointer is \<open>None\<close>. An error is a value of \<open>goerror\<close>; a call that can panic returns
  an \<open>outcome\<close>. A channel that is only closed is a flag and closing it twice panics. The operating system,
  the cryptographic library, yamux, the grpc package and the user's code are arguments of the definitions
  that use them. Code that one goroutine runs is a function; where goroutines interleave, the model
  is a system of atomic steps, one for each access to shared state, and properties hold in every state that
  can be reached.

  \<^bold>\<open>The theories.\<close>
  \<^item> \<open>GoPrelude\<close>, \<open>GoStrings\<close>, \<open>Base64\<close>: errors, outcomes, channels, \<open>sync.Once\<close>, maps, and what the code uses of
    the packages strings, strconv, bufio and encoding/base64, with round trips. The locale \<open>once_closer\<close> is the
    contract of what may be closed many times; the net/rpc server, the gRPC broker and its streamers are instances.
  \<^item> \<open>Config\<close>: the configurations and interfaces of \<open>client.go\<close>, \<open>server.go\<close>, \<open>plugin.go\<close>, \<open>protocol.go\<close>, \<open>constants.go\<close>
    and \<open>runner/runner.go\<close>, and environments.
  \<^item> \<open>Negotiation\<close>: \<open>protocolVersion\<close> of \<open>server.go\<close> and \<open>checkProtoVersion\<close> of \<open>client.go\<close>. The plugin chooses the newest
    common version.
  \<^item> \<open>CmdRunner\<close>: \<open>internal/cmdrunner\<close>, an instance of the locale \<open>addr_translator\<close>. \<open>Kill\<close> signals only what was started; \<open>pidWait\<close> ends with the process.
  \<^item> \<open>Listener\<close> and \<open>Mtls\<close>: \<open>serverListener\<close> of \<open>server.go\<close> with a file system, and \<open>mtls.go\<close>.
  \<^item> \<open>ClientStart\<close>: \<open>NewClient\<close>, \<open>SecureConfig.Check\<close>, \<open>Start\<close> in its stages and \<open>reattach\<close>. The outcome of a start, which
    handshake lines are accepted, and that a checksum is checked before anything runs.
  \<^item> \<open>Serve\<close>: \<open>Serve\<close> and \<open>ServeMux\<close>. What is printed, when client certificates are required, what is left on disk.
  \<^item> \<open>EndToEnd\<close>: host and plugin together. With the environment that \<open>Start\<close> makes, what \<open>Serve\<close> prints is
    accepted, and both sides then agree on version, protocol, plugins, address and certificate.
  \<^item> \<open>ClientLife\<close>: \<open>Client\<close>, \<open>Kill\<close>, \<open>CleanupClients\<close>, \<open>ReattachConfig\<close> and the dialers of \<open>client.go\<close>. What \<open>Kill\<close> leaves,
    and an invariant of every sequence of calls.
  \<^item> \<open>Wire\<close>, \<open>MuxBroker\<close>, \<open>MuxBrokerSafety\<close>, \<open>MuxBrokerTheorems\<close>: \<open>mux_broker.go\<close> as a step relation. \<open>Wire\<close> has
    the locales \<open>id_source\<close> and \<open>pending_table\<close> that both brokers are instances of. Streams reach
    the identifier their dialer wrote, none is lost, and calls meet; when identifiers are used once nothing panics.
  \<^item> \<open>RPC\<close>: \<open>rpc_server.go\<close> and \<open>rpc_client.go\<close>. \<open>Dispense\<close> of both sides agrees on the identifier.
  \<^item> \<open>GRPCBroker\<close>, \<open>GRPCBrokerSafety\<close>, \<open>GRPCBrokerTheorems\<close>: \<open>GRPCBroker\<close> of \<open>grpc_broker.go\<close> as a step relation. Routing
    of announcements and knocks, and that no table entry is forgotten.
  \<^item> \<open>GRPCStream\<close>: the two streamers of \<open>grpc_broker.go\<close>. Messages keep their order and \<open>Send\<close> tells the truth
    and does not hang.
  \<^item> \<open>GRPCMux\<close>, \<open>GRPCMuxRouting\<close>: \<open>internal/grpcmux\<close>, both ends, and how streams are routed by knocks.
  \<^item> \<open>Stdio\<close>: \<open>grpc_stdio.go\<close> and \<open>stream.go\<close>. Output arrives unchanged and unmixed.
  \<^item> \<open>LogPump\<close>: \<open>logStderr\<close> of \<open>client.go\<close> and \<open>log_entry.go\<close>. Every byte is copied, and the shortcuts that avoid
    parsing cannot be observed.
  \<^item> \<open>GRPCServe\<close>: \<open>grpc_server.go\<close>, \<open>grpc_controller.go\<close> and \<open>grpc_client.go\<close>. Services, shutdown, and the client in
    the life cycle of the host.
  \<^item> \<open>Helpers\<close>: \<open>error.go\<close>, \<open>discover.go\<close>, \<open>internal_logger.go\<close>, the rest of \<open>plugin.go\<close>, and \<open>TestPluginGRPCConn\<close>. A
    connected pair agrees on its plugins.
  \<^item> \<open>Streaming\<close>, \<open>Examples\<close>: the programs under \<open>examples\<close>, with a file system. Round trips of the stream and of the
    key-value store, and the sum of the counter that calls its host back.

  \<^bold>\<open>Bounds and fuel.\<close> No definition has fuel, except that \<open>pidWait\<close>, which polls for as long as the process
  lives, is a partial function whose result is \<open>None\<close> when it never returns. Loops over
  input end because the input gets shorter. Identifiers are words of 32 bits and wrap around; times are
  nanoseconds; that a timeout passed is a step that is always possible, so that safety holds for every speed
  of the goroutines. Theorems that something can finish name the steps that finish it.

  \<^bold>\<open>Faults.\<close> Some theorems show runs in which the code does not do what it means to: each says how the run
  begins and what follows.

  \<^bold>\<open>Not modelled.\<close> The generated code of \<open>internal/plugin\<close> and of the examples beyond the messages the brokers
  read, since its behaviour is that of the protobuf runtime; the helpers of \<open>testing.go\<close> that only open
  local sockets; the \<open>main\<close> functions of examples that only call \<open>Serve\<close> or print, and the packages of
  \<open>test/\<close>; the yamux protocol, TLS and the operating system, which are outside the repository. Memory ordering is that of
  sequential consistency, which the mutexes of the code provide for the state modelled here.
\<close>

end
